theory Spec2Isabelle
  imports Complex_Main
begin

section \<open>BunBunBash: the whack-a-bunny game core\<close>

text \<open>
  The repository holds two near-duplicate versions of the game script: the file
  \<^verbatim>\<open>src/unnamed/part_000\<close> and the file
  \<^verbatim>\<open>src/game/app/static/game-files/whackabunny.js\<close>. Both define the global
  object \<^verbatim>\<open>gameState\<close>, the class \<^verbatim>\<open>Mole\<close>, the function
  \<^verbatim>\<open>getDifficultySettings\<close> and the class \<^verbatim>\<open>WhackAMoleGame\<close>. Every function
  below takes the version as its first argument and branches on it exactly where the two
  files differ.

  JavaScript numbers are modelled as follows: the score, the remaining time and the
  difficulty level as \<^typ>\<open>int\<close> (they only ever hold small integers, on which the
  arithmetic of the language is exact); durations, heights, the animation progress and
  the values of \<^verbatim>\<open>Math.random()\<close> as \<^typ>\<open>real\<close>, each the real number a
  double holds, with every sum, difference and product rounded as described in the
  subsection on number arithmetic.
  Left out, as they belong to the presentation layer: canvas drawing, image loading,
  the background music, the red flash overlay, the scenery and the canvas resize.
\<close>

datatype variant = Part000 | GameFiles

subsection \<open>Data\<close>

text \<open>One entry of the table \<^verbatim>\<open>difficultySettings\<close>.\<close>

record difficulty =
  minShowTime :: real
  maxShowTime :: real
  minHideTime :: real
  maxHideTime :: real
  animationSpeed :: real

text \<open>
  The fields of a \<^verbatim>\<open>Mole\<close> object. The fields \<^verbatim>\<open>x\<close> and \<^verbatim>\<open>radius\<close> are only
  read by the drawing code and are left out; \<^verbatim>\<open>id\<close> and \<^verbatim>\<open>y\<close> are called
  \<open>moleId\<close> and \<open>moleY\<close>. A timer handle is \<open>None\<close> for \<^verbatim>\<open>null\<close>; the handles the
  browser hands out are positive integers, so the test \<^verbatim>\<open>if (this.visibilityTimer)\<close> is
  the test for \<open>Some\<close>.
\<close>

record mole =
  moleId :: nat
  moleY :: real
  baseY :: real
  isVisible :: bool
  isHit :: bool
  isGoodMole :: bool
  visibilityTimer :: "nat option"
  animationProgress :: real
  isAnimating :: bool
  isBashAnimating :: bool
  bashFrame :: nat
  bashTimer :: "nat option"

text \<open>
  The callbacks the game hands to \<^verbatim>\<open>setTimeout\<close> and \<^verbatim>\<open>setInterval\<close>, each with
  the index of the mole its closure captured:
  \<^item> \<open>ShowMole i\<close>: \<^verbatim>\<open>() => mole.show()\<close> (from \<^verbatim>\<open>hide\<close> and from \<^verbatim>\<open>start\<close>);
  \<^item> \<open>HideMole i\<close>: \<^verbatim>\<open>() => this.hide()\<close> (from \<^verbatim>\<open>show\<close> and from \<^verbatim>\<open>hit\<close>);
  \<^item> \<open>BashFrame2 i\<close>, \<open>BashEnd i\<close>: the outer and the inner callback of
    \<^verbatim>\<open>startBashAnimation\<close>;
  \<^item> \<open>GameTick\<close>: the one-second interval callback of \<^verbatim>\<open>start\<close>.
\<close>

datatype callback = ShowMole nat | HideMole nat | BashFrame2 nat | BashEnd nat | GameTick

text \<open>A pending browser timer: its handle, the delay it was scheduled with, its callback.\<close>

record timer =
  timerId :: nat
  timerDelay :: real
  timerCallback :: callback

text \<open>
  The state: the fields of the global \<^verbatim>\<open>gameState\<close> object (\<open>running\<close> to
  \<open>gameEnded\<close>; \<^verbatim>\<open>gameState.moles\<close> and \<^verbatim>\<open>this.moles\<close> are the same array), the
  field \<^verbatim>\<open>animationId\<close> of the game object, and the part of the browser the code talks
  to: the queue of pending timers with the next free handle, the pending animation frame
  requests with the next free request id, and how many values \<^verbatim>\<open>Math.random()\<close> has
  returned so far. The version in \<^verbatim>\<open>game-files\<close> has no field \<^verbatim>\<open>gameEnded\<close>; it
  never touches the field here.
\<close>

record gameState =
  running :: bool
  paused :: bool
  score :: int
  timeLeft :: int
  gameTimer :: "nat option"
  moles :: "mole list"
  difficultyLevel :: int
  gameEnded :: bool
  animationId :: "nat option"
  timers :: "timer list"
  nextTimerId :: nat
  frames :: "nat list"
  nextFrameId :: nat
  rngPos :: nat

text \<open>
  An uncaught exception ends the running callback and leaves the state as it was mutated
  up to the throw. The only exception the modelled code can raise is the
  \<^verbatim>\<open>TypeError\<close> of reading a property of \<^verbatim>\<open>undefined\<close>.
\<close>

datatype error = TypeError

datatype outcome = Returned gameState | Threw error gameState

fun state_of :: "outcome \<Rightarrow> gameState" where
  "state_of (Returned s) = s"
| "state_of (Threw e s) = s"

subsection \<open>Number arithmetic\<close>

text \<open>
  A JavaScript number is an IEEE 754 double, and \<^verbatim>\<open>+\<close>, \<^verbatim>\<open>-\<close> and \<^verbatim>\<open>*\<close>
  return the double nearest to the exact result. The functions below take this rounding
  as their argument \<open>rnd\<close> and apply it to the exact result of every such operation
  on fractional values, and to a fractional literal of the difficulty table where it is
  read (the literal \<^verbatim>\<open>0.025\<close> denotes the double nearest to 25/1000). Comparisons,
  \<^verbatim>\<open>Math.max\<close> and the integer literals are exact.

  \<open>roundsLikeDouble\<close> collects what the properties below need of the rounding, two
  facts that hold of rounding to nearest: it is monotone, and it leaves the integers
  of magnitude up to \<open>2^53\<close> as they are, all of which are doubles.

  \<open>roundToDouble\<close> is that rounding itself: to the nearest number with a significand
  of 53 bits, a tie going to the even significand. \<open>rdSmall\<close> and \<open>rdBig\<close> double or
  halve a positive number until it lies between \<open>2^52\<close> and \<open>2^53\<close>, where the
  doubles are the integers, round it to the nearest integer with \<open>roundEven\<close> and
  scale the result back. The exponent is not bounded here, so that \<open>roundToDouble\<close>
  is the rounding of the doubles on the magnitudes from \<open>2^-1022\<close> up to the largest
  double (and at 0), outside of which the game's numbers never come.
\<close>

definition roundsLikeDouble :: "(real \<Rightarrow> real) \<Rightarrow> bool" where
  "roundsLikeDouble rnd =
     ((\<forall>x y. x \<le> y \<longrightarrow> rnd x \<le> rnd y)
      \<and> (\<forall>k::int. \<bar>k\<bar> \<le> 2 ^ 53 \<longrightarrow> rnd (of_int k) = of_int k))"

definition roundEven :: "real \<Rightarrow> int" where
  "roundEven x = (let f = \<lfloor>x\<rfloor>; d = x - of_int f in
     if d < 1 / 2 then f else if 1 / 2 < d then f + 1 else if even f then f else f + 1)"

function rdSmall :: "real \<Rightarrow> real" where
  "rdSmall x = (if 0 < x \<and> x < 2 ^ 52 then rdSmall (2 * x) / 2 else of_int (roundEven x))"
  by pat_completeness auto
termination
proof (relation "measure (\<lambda>x. nat \<lceil>2 ^ 52 / x\<rceil>)")
  show "wf (measure (\<lambda>x::real. nat \<lceil>2 ^ 52 / x\<rceil>))" by simp
next
  fix x :: real
  assume a: "0 < x \<and> x < 2 ^ 52"
  define y where "y = 2 ^ 52 / x"
  have y: "1 < y" using a by (simp add: y_def)
  have "2 ^ 52 / (2 * x) = y / 2" by (simp add: y_def)
  moreover have "\<lceil>y / 2\<rceil> < \<lceil>y\<rceil>"
  proof -
    have "y \<le> of_int \<lceil>y\<rceil>" by (rule le_of_int_ceiling)
    moreover have "2 \<le> \<lceil>y\<rceil>" using y by linarith
    then have "2 \<le> real_of_int \<lceil>y\<rceil>" by linarith
    ultimately have "y / 2 \<le> real_of_int \<lceil>y\<rceil> - 1" by linarith
    then have "y / 2 \<le> of_int (\<lceil>y\<rceil> - 1)" by simp
    then have "\<lceil>y / 2\<rceil> \<le> \<lceil>y\<rceil> - 1" by (simp only: ceiling_le_iff)
    then show ?thesis by simp
  qed
  moreover have "0 < \<lceil>y\<rceil>" using y by linarith
  ultimately show "(2 * x, x) \<in> measure (\<lambda>x. nat \<lceil>2 ^ 52 / x\<rceil>)"
    by (simp add: y_def)
qed

function rdBig :: "real \<Rightarrow> real" where
  "rdBig x = (if 2 ^ 53 \<le> x then 2 * rdBig (x / 2) else of_int (roundEven x))"
  by pat_completeness auto
termination
proof (relation "measure (\<lambda>x. nat \<lfloor>x\<rfloor>)")
  show "wf (measure (\<lambda>x::real. nat \<lfloor>x\<rfloor>))" by simp
next
  fix x :: real
  assume a: "2 ^ 53 \<le> x"
  have "(2::real) \<le> 2 ^ 53" by simp
  then have x2: "2 \<le> x" using a by linarith
  have "x - 1 < of_int \<lfloor>x\<rfloor>" by linarith
  then have "x / 2 < of_int \<lfloor>x\<rfloor>" using x2 by linarith
  then have "\<lfloor>x / 2\<rfloor> < \<lfloor>x\<rfloor>" by (simp add: floor_less_iff)
  moreover have "0 < \<lfloor>x\<rfloor>" using x2 by linarith
  ultimately show "(x / 2, x) \<in> measure (\<lambda>x. nat \<lfloor>x\<rfloor>)" by simp
qed

declare rdSmall.simps [simp del] rdBig.simps [simp del]

definition rdPos :: "real \<Rightarrow> real" where
  "rdPos x = (if x < 2 ^ 52 then rdSmall x else rdBig x)"

definition roundToDouble :: "real \<Rightarrow> real" where
  "roundToDouble x = (if x < 0 then - rdPos (- x) else rdPos x)"

subsection \<open>The browser: timers, animation frames, random numbers\<close>

definition setTimeout :: "callback \<Rightarrow> real \<Rightarrow> gameState \<Rightarrow> nat \<times> gameState" where
  "setTimeout cb d s =
     (nextTimerId s,
      s\<lparr>timers := timers s @ [\<lparr>timerId = nextTimerId s, timerDelay = d, timerCallback = cb\<rparr>],
        nextTimerId := Suc (nextTimerId s)\<rparr>)"

text \<open>\<^verbatim>\<open>setInterval\<close> draws its handle from the same pool; what differs is that the
  entry stays in the queue when it fires (see \<open>fireTimer\<close>).\<close>

definition setInterval :: "callback \<Rightarrow> real \<Rightarrow> gameState \<Rightarrow> nat \<times> gameState" where
  "setInterval cb d s = setTimeout cb d s"

definition clearTimeout :: "nat \<Rightarrow> gameState \<Rightarrow> gameState" where
  "clearTimeout h s = s\<lparr>timers := filter (\<lambda>t. timerId t \<noteq> h) (timers s)\<rparr>"

definition clearInterval :: "nat \<Rightarrow> gameState \<Rightarrow> gameState" where
  "clearInterval h s = clearTimeout h s"

definition requestAnimationFrame :: "gameState \<Rightarrow> nat \<times> gameState" where
  "requestAnimationFrame s =
     (nextFrameId s,
      s\<lparr>frames := frames s @ [nextFrameId s], nextFrameId := Suc (nextFrameId s)\<rparr>)"

definition cancelAnimationFrame :: "nat \<Rightarrow> gameState \<Rightarrow> gameState" where
  "cancelAnimationFrame h s = s\<lparr>frames := filter (\<lambda>f. f \<noteq> h) (frames s)\<rparr>"

text \<open>\<^verbatim>\<open>Math.random()\<close>: the next value of the supplied sequence \<open>rng\<close>.\<close>

definition random :: "(nat \<Rightarrow> real) \<Rightarrow> gameState \<Rightarrow> real \<times> gameState" where
  "random rng s = (rng (rngPos s), s\<lparr>rngPos := Suc (rngPos s)\<rparr>)"

text \<open>Assignment to fields of the mole object at index \<open>i\<close> of the array.\<close>

definition updMole :: "nat \<Rightarrow> (mole \<Rightarrow> mole) \<Rightarrow> gameState \<Rightarrow> gameState" where
  "updMole i f s = s\<lparr>moles := (moles s)[i := f (moles s ! i)]\<rparr>"

text \<open>\<^verbatim>\<open>this.moles.forEach(mole => ...)\<close>, for a body that cannot throw and for one
  that can (the first throw ends the loop).\<close>

definition forEachMole :: "(nat \<Rightarrow> gameState \<Rightarrow> gameState) \<Rightarrow> gameState \<Rightarrow> gameState" where
  "forEachMole f s = fold f [0..<length (moles s)] s"

fun forEachFrom :: "(nat \<Rightarrow> gameState \<Rightarrow> outcome) \<Rightarrow> nat list \<Rightarrow> gameState \<Rightarrow> outcome" where
  "forEachFrom f [] s = Returned s"
| "forEachFrom f (i # js) s =
     (case f i s of Returned s' \<Rightarrow> forEachFrom f js s' | Threw e s' \<Rightarrow> Threw e s')"

definition forEachMoleThrowing :: "(nat \<Rightarrow> gameState \<Rightarrow> outcome) \<Rightarrow> gameState \<Rightarrow> outcome" where
  "forEachMoleThrowing f s = forEachFrom f [0..<length (moles s)] s"

text \<open>The idiom \<^verbatim>\<open>if (t) { clearTimeout(t); t = null; }\<close> for the three stored handles.\<close>

definition clearVisibilityTimer :: "nat \<Rightarrow> gameState \<Rightarrow> gameState" where
  "clearVisibilityTimer i s =
     (case visibilityTimer (moles s ! i) of
        None \<Rightarrow> s
      | Some h \<Rightarrow> updMole i (\<lambda>m. m\<lparr>visibilityTimer := None\<rparr>) (clearTimeout h s))"

definition clearBashTimer :: "nat \<Rightarrow> gameState \<Rightarrow> gameState" where
  "clearBashTimer i s =
     (case bashTimer (moles s ! i) of
        None \<Rightarrow> s
      | Some h \<Rightarrow> updMole i (\<lambda>m. m\<lparr>bashTimer := None\<rparr>) (clearTimeout h s))"

definition clearGameTimer :: "gameState \<Rightarrow> gameState" where
  "clearGameTimer s =
     (case gameTimer s of
        None \<Rightarrow> s
      | Some h \<Rightarrow> (clearInterval h s)\<lparr>gameTimer := None\<rparr>)"

subsection \<open>Difficulty\<close>

definition mkDifficulty :: "real \<Rightarrow> real \<Rightarrow> real \<Rightarrow> real \<Rightarrow> real \<Rightarrow> difficulty" where
  "mkDifficulty a b c d e =
     \<lparr>minShowTime = a, maxShowTime = b, minHideTime = c, maxHideTime = d, animationSpeed = e\<rparr>"

text \<open>The table \<^verbatim>\<open>difficultySettings\<close> of each file.\<close>

definition difficultySettings :: "variant \<Rightarrow> difficulty list" where
  "difficultySettings v =
     (case v of
        Part000 \<Rightarrow>
          [mkDifficulty 1000 2750 1750 4500 (25 / 1000),
           mkDifficulty 800 2500 1500 4300 (30 / 1000),
           mkDifficulty 650 2300 1300 4000 (35 / 1000),
           mkDifficulty 550 2100 1100 3700 (40 / 1000),
           mkDifficulty 450 1900 900 3500 (45 / 1000),
           mkDifficulty 350 1700 700 3300 (50 / 1000)]
      | GameFiles \<Rightarrow>
          [mkDifficulty 800 2500 1500 4000 (20 / 1000),
           mkDifficulty 600 2200 1200 3800 (25 / 1000),
           mkDifficulty 500 2000 1000 3500 (30 / 1000),
           mkDifficulty 400 1800 800 3200 (35 / 1000),
           mkDifficulty 300 1600 600 3000 (40 / 1000),
           mkDifficulty 200 1400 400 2800 (45 / 1000)])"

text \<open>
  \<^verbatim>\<open>getDifficultySettings()\<close>. The function stores the capped level in
  \<^verbatim>\<open>gameState.difficultyLevel\<close> and returns the table entry at that index; an index
  outside the array reads \<^verbatim>\<open>undefined\<close>, here \<open>None\<close>.
\<close>

definition getDifficultySettings :: "variant \<Rightarrow> gameState \<Rightarrow> difficulty option \<times> gameState" where
  "getDifficultySettings v s =
     (let timeElapsed = 60 - timeLeft s;
          level = \<lfloor>real_of_int timeElapsed / 10\<rfloor>;
          s1 = s\<lparr>difficultyLevel := min level 5\<rparr>;
          k = difficultyLevel s1
      in (if 0 \<le> k \<and> nat k < length (difficultySettings v)
          then Some (difficultySettings v ! nat k) else None, s1))"

subsection \<open>The class Mole\<close>

text \<open>
  \<^verbatim>\<open>show()\<close>. In \<^verbatim>\<open>part_000\<close> it returns at once for a mole that is visible or
  animating, and the delay of the hide timer is at least the 500 ms animation buffer; the
  other file has neither. \<^verbatim>\<open>Math.random()\<close> is the left operand of the product,
  so it is called before \<^verbatim>\<open>difficulty.maxShowTime\<close> is read.
\<close>

definition Mole_show ::
  "variant \<Rightarrow> (real \<Rightarrow> real) \<Rightarrow> (nat \<Rightarrow> real) \<Rightarrow> nat \<Rightarrow> gameState \<Rightarrow> outcome" where
  "Mole_show v rnd rng i s =
     (if \<not> running s \<or> paused s then Returned s
      else if v = Part000 \<and> (isVisible (moles s ! i) \<or> isAnimating (moles s ! i))
      then Returned s
      else
        let s1 = updMole i (\<lambda>m. m\<lparr>isVisible := True, isHit := False, isAnimating := True,
                                   animationProgress := 0\<rparr>) s;
            (randomValue, s2) = random rng s1;
            s3 = updMole i (\<lambda>m. m\<lparr>isGoodMole := (randomValue < 75 / 100)\<rparr>) s2;
            (difficulty, s4) = getDifficultySettings v s3;
            (r, s5) = random rng s4
        in case difficulty of
             None \<Rightarrow> Threw TypeError s5
           | Some d \<Rightarrow>
               let baseShowDuration =
                     rnd (rnd (r * rnd (maxShowTime d - minShowTime d)) + minShowTime d);
                   animationBuffer = 500;
                   showDuration = (if v = Part000 then max baseShowDuration animationBuffer
                                   else baseShowDuration);
                   (h, s6) = setTimeout (HideMole i) showDuration s5
               in Returned (updMole i (\<lambda>m. m\<lparr>visibilityTimer := Some h\<rparr>) s6))"

text \<open>
  \<^verbatim>\<open>hide()\<close>. In \<^verbatim>\<open>part_000\<close> it returns at once for a mole that is not visible,
  and the delay of the next appearance is at least 500 ms. The timer that shows the mole
  again is not stored in any field.
\<close>

definition Mole_hide ::
  "variant \<Rightarrow> (real \<Rightarrow> real) \<Rightarrow> (nat \<Rightarrow> real) \<Rightarrow> nat \<Rightarrow> gameState \<Rightarrow> outcome" where
  "Mole_hide v rnd rng i s =
     (if v = Part000 \<and> \<not> isVisible (moles s ! i) then Returned s
      else
        let s1 = updMole i (\<lambda>m. m\<lparr>isVisible := False, isHit := False, isAnimating := True\<rparr>) s;
            s2 = clearVisibilityTimer i s1
        in if running s2 \<and> \<not> paused s2 then
             let (difficulty, s3) = getDifficultySettings v s2;
                 (r, s4) = random rng s3
             in case difficulty of
                  None \<Rightarrow> Threw TypeError s4
                | Some d \<Rightarrow>
                    let baseHideDuration =
                          rnd (rnd (r * rnd (maxHideTime d - minHideTime d)) + minHideTime d);
                        animationBuffer = 500;
                        hideDuration = (if v = Part000 then max baseHideDuration animationBuffer
                                        else baseHideDuration);
                        (h, s5) = setTimeout (ShowMole i) hideDuration s4
                    in Returned s5
           else Returned s2)"

text \<open>
  \<^verbatim>\<open>update()\<close>, the same in both files. The property \<^verbatim>\<open>difficulty.animationSpeed\<close>
  is read before the progress is assigned, so a throw leaves the mole as it was. The
  progress is the rounded sum or difference; the comparison with 1 or 0 then replaces
  it by that bound.
\<close>

definition Mole_update :: "variant \<Rightarrow> (real \<Rightarrow> real) \<Rightarrow> nat \<Rightarrow> gameState \<Rightarrow> outcome" where
  "Mole_update v rnd i s =
     (if isAnimating (moles s ! i) then
        let (difficulty, s1) = getDifficultySettings v s
        in case difficulty of
             None \<Rightarrow> Threw TypeError s1
           | Some d \<Rightarrow>
               let m = moles s1 ! i;
                   m1 = (if isVisible m then
                           (let p = rnd (animationProgress m + rnd (animationSpeed d))
                            in if p \<ge> 1 then m\<lparr>animationProgress := 1, isAnimating := False\<rparr>
                               else m\<lparr>animationProgress := p\<rparr>)
                         else
                           (let p = rnd (animationProgress m - rnd (animationSpeed d))
                            in if p \<le> 0 then m\<lparr>animationProgress := 0, isAnimating := False\<rparr>
                               else m\<lparr>animationProgress := p\<rparr>));
                   popHeight = 290;
                   m2 = m1\<lparr>moleY := rnd (baseY m1 - rnd (animationProgress m1 * popHeight))\<rparr>
               in Returned (updMole i (\<lambda>_. m2) s1)
      else Returned s)"

text \<open>\<^verbatim>\<open>startBashAnimation()\<close> and its two nested timer callbacks.\<close>

definition Mole_startBashAnimation :: "nat \<Rightarrow> gameState \<Rightarrow> gameState" where
  "Mole_startBashAnimation i s =
     (let s1 = updMole i (\<lambda>m. m\<lparr>isBashAnimating := True, bashFrame := 1\<rparr>) s;
          (h, s2) = setTimeout (BashFrame2 i) 100 s1
      in updMole i (\<lambda>m. m\<lparr>bashTimer := Some h\<rparr>) s2)"

definition bashFrame2Callback :: "nat \<Rightarrow> gameState \<Rightarrow> gameState" where
  "bashFrame2Callback i s =
     (let s1 = updMole i (\<lambda>m. m\<lparr>bashFrame := 2\<rparr>) s;
          (h, s2) = setTimeout (BashEnd i) 350 s1
      in updMole i (\<lambda>m. m\<lparr>bashTimer := Some h\<rparr>) s2)"

definition bashEndCallback :: "nat \<Rightarrow> gameState \<Rightarrow> gameState" where
  "bashEndCallback i s =
     updMole i (\<lambda>m. m\<lparr>isBashAnimating := False, bashFrame := 0, bashTimer := None\<rparr>) s"

text \<open>
  \<^verbatim>\<open>hit()\<close>: the returned boolean and the new state. The timer that hides the mole
  400 ms later is not stored in any field.
\<close>

definition Mole_hit :: "nat \<Rightarrow> gameState \<Rightarrow> bool \<times> gameState" where
  "Mole_hit i s =
     (if isVisible (moles s ! i) \<and> \<not> isHit (moles s ! i) then
        let s1 = updMole i (\<lambda>m. m\<lparr>isHit := True\<rparr>) s;
            s2 = Mole_startBashAnimation i s1;
            s3 = (if isGoodMole (moles s2 ! i) then s2\<lparr>score := score s2 + 10\<rparr>
                  else s2\<lparr>score := score s2 - 20\<rparr>);
            (h, s4) = setTimeout (HideMole i) 400 s3
        in (True, s4)
      else (False, s))"

subsection \<open>The class WhackAMoleGame\<close>

text \<open>
  The constructor creates three moles, all at height \<^verbatim>\<open>logicalHeight - 50\<close>; together
  with the initial value of \<^verbatim>\<open>gameState\<close> this is the state the page starts in.
\<close>

definition newMole :: "nat \<Rightarrow> real \<Rightarrow> mole" where
  "newMole n y0 =
     \<lparr>moleId = n, moleY = y0, baseY = y0, isVisible = False, isHit = False,
      isGoodMole = True, visibilityTimer = None, animationProgress = 0,
      isAnimating = False, isBashAnimating = False, bashFrame = 0, bashTimer = None\<rparr>"

definition initialState :: "(real \<Rightarrow> real) \<Rightarrow> real \<Rightarrow> gameState" where
  "initialState rnd logicalHeight =
     \<lparr>running = False, paused = False, score = 0, timeLeft = 60, gameTimer = None,
      moles = [newMole 0 (rnd (logicalHeight - 50)), newMole 1 (rnd (logicalHeight - 50)),
               newMole 2 (rnd (logicalHeight - 50))],
      difficultyLevel = 0, gameEnded = False, animationId = None,
      timers = [], nextTimerId = 1, frames = [], nextFrameId = 1, rngPos = 0\<rparr>"

text \<open>
  \<^verbatim>\<open>gameOver()\<close>. The version in \<^verbatim>\<open>part_000\<close> sets \<^verbatim>\<open>gameEnded\<close> and also
  stops the bash animation of every mole.
\<close>

definition gameOver_hideMole :: "variant \<Rightarrow> nat \<Rightarrow> gameState \<Rightarrow> gameState" where
  "gameOver_hideMole v i s =
     (let s1 = updMole i (\<lambda>m. m\<lparr>isVisible := False\<rparr>) s;
          s2 = clearVisibilityTimer i s1
      in if v = Part000
         then updMole i (\<lambda>m. m\<lparr>isBashAnimating := False, bashFrame := 0\<rparr>) (clearBashTimer i s2)
         else s2)"

definition Game_gameOver :: "variant \<Rightarrow> gameState \<Rightarrow> gameState" where
  "Game_gameOver v s =
     (let s1 = s\<lparr>running := False\<rparr>;
          s2 = (if v = Part000 then s1\<lparr>gameEnded := True\<rparr> else s1);
          s3 = clearGameTimer s2
      in forEachMole (gameOver_hideMole v) s3)"

text \<open>The callback \<^verbatim>\<open>start()\<close> hands to \<^verbatim>\<open>setInterval\<close>: the session clock.\<close>

definition gameTimerCallback :: "variant \<Rightarrow> gameState \<Rightarrow> gameState" where
  "gameTimerCallback v s =
     (if \<not> paused s then
        let s1 = s\<lparr>timeLeft := timeLeft s - 1\<rparr>
        in if timeLeft s1 \<le> 0 then Game_gameOver v s1 else s1
      else s)"

text \<open>\<^verbatim>\<open>gameLoop()\<close>: update every mole, draw, and ask for the next frame while running.\<close>

definition Game_gameLoop :: "variant \<Rightarrow> (real \<Rightarrow> real) \<Rightarrow> gameState \<Rightarrow> outcome" where
  "Game_gameLoop v rnd s =
     (case forEachMoleThrowing (Mole_update v rnd) s of
        Threw e s' \<Rightarrow> Threw e s'
      | Returned s1 \<Rightarrow>
          if running s1 then
            let (h, s2) = requestAnimationFrame s1
            in Returned (s2\<lparr>animationId := Some h\<rparr>)
          else Returned s1)"

text \<open>
  \<^verbatim>\<open>start()\<close>. The timers of the first appearances are not stored in any field. The
  version in \<^verbatim>\<open>part_000\<close> also clears \<^verbatim>\<open>gameEnded\<close> and calls
  \<^verbatim>\<open>getDifficultySettings()\<close> for its side effect.
\<close>

definition start_clearMole :: "nat \<Rightarrow> gameState \<Rightarrow> gameState" where
  "start_clearMole i s =
     (let s1 = clearVisibilityTimer i s;
          s2 = clearBashTimer i s1
      in updMole i (\<lambda>m. m\<lparr>isVisible := False, isHit := False, isAnimating := False,
                            animationProgress := 0, isBashAnimating := False,
                            bashFrame := 0\<rparr>) s2)"

definition start_scheduleMole ::
  "(real \<Rightarrow> real) \<Rightarrow> (nat \<Rightarrow> real) \<Rightarrow> nat \<Rightarrow> gameState \<Rightarrow> gameState" where
  "start_scheduleMole rnd rng i s =
     (let (r, s1) = random rng s;
          randomDelay = rnd (r * 3000);
          (h, s2) = setTimeout (ShowMole i) randomDelay s1
      in s2)"

definition Game_start ::
  "variant \<Rightarrow> (real \<Rightarrow> real) \<Rightarrow> (nat \<Rightarrow> real) \<Rightarrow> gameState \<Rightarrow> outcome" where
  "Game_start v rnd rng s =
     (if running s \<and> \<not> paused s then Returned s
      else
        let s1 = clearGameTimer s;
            s2 = forEachMole start_clearMole s1;
            s3 = s2\<lparr>running := True, paused := False, score := 0, timeLeft := 60,
                    difficultyLevel := 0\<rparr>;
            s4 = (if v = Part000
                  then snd (getDifficultySettings v (s3\<lparr>gameEnded := False\<rparr>))
                  else s3);
            (h, s5) = setInterval GameTick 1000 s4;
            s6 = s5\<lparr>gameTimer := Some h\<rparr>;
            s7 = forEachMole (start_scheduleMole rnd rng) s6
        in Game_gameLoop v rnd s7)"

text \<open>
  \<^verbatim>\<open>pause()\<close>. Only the version in \<^verbatim>\<open>part_000\<close> starts the game when it is not
  running; the other file toggles the flag whatever the state.
\<close>

definition Game_pause ::
  "variant \<Rightarrow> (real \<Rightarrow> real) \<Rightarrow> (nat \<Rightarrow> real) \<Rightarrow> gameState \<Rightarrow> outcome" where
  "Game_pause v rnd rng s =
     (if v = Part000 \<and> \<not> running s then Game_start v rnd rng s
      else Returned (s\<lparr>paused := \<not> paused s\<rparr>))"

text \<open>
  \<^verbatim>\<open>reset()\<close>. It cancels the timers whose handles are stored (\<^verbatim>\<open>gameTimer\<close>,
  \<^verbatim>\<open>visibilityTimer\<close>, \<^verbatim>\<open>bashTimer\<close>) and the last requested animation frame.
  Only \<^verbatim>\<open>part_000\<close> has the flag \<^verbatim>\<open>gameEnded\<close> to clear.
\<close>

definition reset_hideMole :: "nat \<Rightarrow> gameState \<Rightarrow> gameState" where
  "reset_hideMole i s =
     (let s1 = updMole i (\<lambda>m. m\<lparr>isVisible := False, isHit := False\<rparr>) s;
          s2 = clearVisibilityTimer i s1;
          s3 = clearBashTimer i s2
      in updMole i (\<lambda>m. m\<lparr>isBashAnimating := False, bashFrame := 0\<rparr>) s3)"

definition Game_reset :: "variant \<Rightarrow> gameState \<Rightarrow> gameState" where
  "Game_reset v s =
     (let s1 = s\<lparr>running := False, paused := False, score := 0, timeLeft := 60\<rparr>;
          s2 = (if v = Part000 then s1\<lparr>gameEnded := False\<rparr> else s1);
          s3 = clearGameTimer s2;
          s4 = forEachMole reset_hideMole s3
      in case animationId s4 of
           None \<Rightarrow> s4
         | Some h \<Rightarrow> cancelAnimationFrame h s4)"

text \<open>
  \<^verbatim>\<open>handleKeyPress(key)\<close>. \<open>toLowerCase\<close> lowers the ASCII letters, which is all
  that matters for the three keys of \<^verbatim>\<open>keyToIndex\<close>. A key outside the table (also one
  that names an inherited property of the object literal) selects no mole. In
  \<^verbatim>\<open>part_000\<close> the mole must be visible with positive progress before \<^verbatim>\<open>hit()\<close> is
  called at all.
\<close>

definition toLowerCaseChar :: "char \<Rightarrow> char" where
  "toLowerCaseChar c =
     (case map_of (zip ''ABCDEFGHIJKLMNOPQRSTUVWXYZ'' ''abcdefghijklmnopqrstuvwxyz'') c of
        Some l \<Rightarrow> l
      | None \<Rightarrow> c)"

definition toLowerCase :: "string \<Rightarrow> string" where
  "toLowerCase k = map toLowerCaseChar k"

definition keyToIndex :: "string \<Rightarrow> nat option" where
  "keyToIndex k = map_of [(''a'', 0), (''b'', 1), (''c'', 2)] k"

definition Game_handleKeyPress :: "variant \<Rightarrow> string \<Rightarrow> gameState \<Rightarrow> gameState" where
  "Game_handleKeyPress v key s =
     (if \<not> running s \<or> paused s then s
      else
        case keyToIndex (toLowerCase key) of
          None \<Rightarrow> s
        | Some moleIndex \<Rightarrow>
            if moleIndex < length (moles s) then
              (if v = Part000 then
                 (if isVisible (moles s ! moleIndex) \<and> animationProgress (moles s ! moleIndex) > 0
                  then snd (Mole_hit moleIndex s) else s)
               else snd (Mole_hit moleIndex s))
            else s)"

subsection \<open>Events\<close>

text \<open>
  The browser runs one callback at a time. A pending timer fires when the browser picks
  it: a timeout leaves the queue and runs its callback, the interval stays and runs the
  session clock. The model lets any pending timer fire at any moment, which covers every
  order the browser can choose. A handle that is not pending fires nothing.
\<close>

definition fireTimer ::
  "variant \<Rightarrow> (real \<Rightarrow> real) \<Rightarrow> (nat \<Rightarrow> real) \<Rightarrow> nat \<Rightarrow> gameState \<Rightarrow> outcome" where
  "fireTimer v rnd rng h s =
     (case find (\<lambda>t. timerId t = h) (timers s) of
        None \<Rightarrow> Returned s
      | Some t \<Rightarrow>
          (case timerCallback t of
             GameTick \<Rightarrow> Returned (gameTimerCallback v s)
           | ShowMole i \<Rightarrow> Mole_show v rnd rng i (clearTimeout h s)
           | HideMole i \<Rightarrow> Mole_hide v rnd rng i (clearTimeout h s)
           | BashFrame2 i \<Rightarrow> Returned (bashFrame2Callback i (clearTimeout h s))
           | BashEnd i \<Rightarrow> Returned (bashEndCallback i (clearTimeout h s))))"

definition fireFrame :: "variant \<Rightarrow> (real \<Rightarrow> real) \<Rightarrow> nat \<Rightarrow> gameState \<Rightarrow> outcome" where
  "fireFrame v rnd h s =
     (if h \<in> set (frames s) then Game_gameLoop v rnd (cancelAnimationFrame h s)
      else Returned s)"

datatype event =
  Start | Pause | Reset | KeyPress string | TimerFires nat | FrameFires nat

fun step ::
  "variant \<Rightarrow> (real \<Rightarrow> real) \<Rightarrow> (nat \<Rightarrow> real) \<Rightarrow> event \<Rightarrow> gameState \<Rightarrow> gameState" where
  "step v rnd rng Start s = state_of (Game_start v rnd rng s)"
| "step v rnd rng Pause s = state_of (Game_pause v rnd rng s)"
| "step v rnd rng Reset s = Game_reset v s"
| "step v rnd rng (KeyPress key) s = Game_handleKeyPress v key s"
| "step v rnd rng (TimerFires h) s = state_of (fireTimer v rnd rng h s)"
| "step v rnd rng (FrameFires h) s = state_of (fireFrame v rnd h s)"

definition run ::
  "variant \<Rightarrow> (real \<Rightarrow> real) \<Rightarrow> (nat \<Rightarrow> real) \<Rightarrow> event list \<Rightarrow> gameState \<Rightarrow> gameState" where
  "run v rnd rng es s = fold (step v rnd rng) es s"

subsection \<open>Predicates on states\<close>

text \<open>Every mole's animation progress lies in the unit interval.\<close>

definition progressOk :: "gameState \<Rightarrow> bool" where
  "progressOk s =
     list_all (\<lambda>m. 0 \<le> animationProgress m \<and> animationProgress m \<le> 1) (moles s)"

text \<open>
  The events that are not commands of the player: key presses aside, these are the
  timers and animation frames the browser fires.
\<close>

fun isControl :: "event \<Rightarrow> bool" where
  "isControl Start = True"
| "isControl Pause = True"
| "isControl Reset = True"
| "isControl (KeyPress key) = False"
| "isControl (TimerFires h) = False"
| "isControl (FrameFires h) = False"

text \<open>
  The shape of the timer queue. \<open>timerTargetsExist\<close>: the mole a pending callback has
  captured is one of the moles of the array (the model names it by its index).
  \<open>timersWellFormed\<close>: moreover every pending timer has a handle the browser has
  already handed out, and a pending session clock is the one stored in
  \<^verbatim>\<open>gameTimer\<close>. \<open>clockPending h\<close>: the session clock is pending under the handle
  \<open>h\<close>, no other timer has that handle or that callback, and no mole stores \<open>h\<close>
  as one of its own handles. \<open>clockGone h\<close>: no timer with the handle \<open>h\<close> and no
  session clock is pending.
\<close>

fun targetExists :: "nat \<Rightarrow> callback \<Rightarrow> bool" where
  "targetExists n (ShowMole i) = (i < n)"
| "targetExists n (HideMole i) = (i < n)"
| "targetExists n (BashFrame2 i) = (i < n)"
| "targetExists n (BashEnd i) = (i < n)"
| "targetExists n GameTick = True"

definition timerTargetsExist :: "gameState \<Rightarrow> bool" where
  "timerTargetsExist s =
     list_all (\<lambda>t. targetExists (length (moles s)) (timerCallback t)) (timers s)"

definition timersWellFormed :: "gameState \<Rightarrow> bool" where
  "timersWellFormed s =
     (timerTargetsExist s
      \<and> list_all (\<lambda>t. timerId t < nextTimerId s
                     \<and> (timerCallback t = GameTick \<longrightarrow> gameTimer s = Some (timerId t)))
                  (timers s))"

definition clockPending :: "nat \<Rightarrow> gameState \<Rightarrow> bool" where
  "clockPending h s =
     (timerTargetsExist s
      \<and> h < nextTimerId s
      \<and> list_all (\<lambda>t. (timerId t = h) = (timerCallback t = GameTick)) (timers s)
      \<and> list_ex (\<lambda>t. timerId t = h) (timers s)
      \<and> list_all (\<lambda>m. visibilityTimer m \<noteq> Some h \<and> bashTimer m \<noteq> Some h) (moles s))"

definition clockGone :: "nat \<Rightarrow> gameState \<Rightarrow> bool" where
  "clockGone h s =
     (timerTargetsExist s
      \<and> h < nextTimerId s
      \<and> list_all (\<lambda>t. timerId t \<noteq> h \<and> timerCallback t \<noteq> GameTick) (timers s))"

text \<open>
  The phase of a session whose clock has the handle \<open>h\<close>, after \<open>n\<close> ticks of that
  clock: before the sixtieth tick the clock is pending and the game runs unpaused with
  \<open>60 - n\<close> seconds left; from the sixtieth tick on the clock is gone and the game
  has ended with no time left.
\<close>

definition sessionPhase :: "nat \<Rightarrow> nat \<Rightarrow> gameState \<Rightarrow> bool" where
  "sessionPhase h n s =
     (if n < 60
      then clockPending h s \<and> running s \<and> \<not> paused s \<and> \<not> gameEnded s
           \<and> gameTimer s = Some h \<and> timeLeft s = 60 - int n
      else clockGone h s \<and> \<not> running s \<and> gameEnded s \<and> timeLeft s = 0)"

subsection \<open>Sample runs\<close>

text \<open>
  States reached from the initial page by running the model, used as concrete inputs.
  They are computed with exact arithmetic (the rounding is the identity); the flags,
  the score and the pending timers of these runs do not depend on the rounding.
  \<open>sampleBunnyUp\<close>: a fresh game in \<^verbatim>\<open>part_000\<close> where the first bunny has come up
  (a bad one, as \<^verbatim>\<open>Math.random()\<close> returns 0.9) and one frame has been drawn.
  \<open>sampleBunnyStruck\<close>: the same after the key \<^verbatim>\<open>a\<close> struck that bunny.
  \<open>sampleLateGame\<close>: 55 seconds into a game where \<^verbatim>\<open>Math.random()\<close> returns 0.
  \<open>sampleOverlap\<close>: a game that was started, reset and started again, in which the show
  timer left over from the first start has fired.
\<close>

definition sampleBunnyUp :: gameState where
  "sampleBunnyUp =
     run Part000 (\<lambda>x. x) (\<lambda>_. 9 / 10) [Start, TimerFires 2, FrameFires 1] (initialState (\<lambda>x. x) 400)"

definition sampleBunnyStruck :: gameState where
  "sampleBunnyStruck = run Part000 (\<lambda>x. x) (\<lambda>_. 9 / 10) [KeyPress ''a''] sampleBunnyUp"

definition sampleLateGame :: "variant \<Rightarrow> gameState" where
  "sampleLateGame v = run v (\<lambda>x. x) (\<lambda>_. 0) (Start # replicate 55 (TimerFires 1)) (initialState (\<lambda>x. x) 400)"

definition sampleOverlap :: gameState where
  "sampleOverlap =
     run Part000 (\<lambda>x. x) (\<lambda>_. 9 / 10) [Start, Reset, Start, TimerFires 2] (initialState (\<lambda>x. x) 400)"

section \<open>Properties\<close>

subsection \<open>Difficulty table and tier\<close>

lemma pairs_below_six:
  "t1 < t2 \<Longrightarrow> t2 < 6 \<Longrightarrow>
     (t1 = 0 \<and> t2 = 1) \<or> (t1 = 0 \<and> t2 = 2) \<or> (t1 = 0 \<and> t2 = 3) \<or> (t1 = 0 \<and> t2 = 4) \<or>
     (t1 = 0 \<and> t2 = 5) \<or> (t1 = 1 \<and> t2 = 2) \<or> (t1 = 1 \<and> t2 = 3) \<or> (t1 = 1 \<and> t2 = 4) \<or>
     (t1 = 1 \<and> t2 = 5) \<or> (t1 = 2 \<and> t2 = 3) \<or> (t1 = 2 \<and> t2 = 4) \<or> (t1 = 2 \<and> t2 = 5) \<or>
     (t1 = 3 \<and> t2 = 4) \<or> (t1 = 3 \<and> t2 = 5) \<or> (t1 = 4 \<and> t2 = (5::nat))"
  by arith

text \<open>
  Claim C1. In both files, for tiers \<open>t1 < t2\<close> among 0..5 the table entry of the higher
  tier has an animation speed at least as high and a \<open>maxShowTime\<close> at most as long;
  indeed all four duration bounds are strictly smaller and the speed strictly higher.
\<close>

theorem difficulty_tightens_with_tier:
  assumes "t1 < t2" and "t2 < 6"
  shows "animationSpeed (difficultySettings v ! t1) \<le> animationSpeed (difficultySettings v ! t2)
       \<and> maxShowTime (difficultySettings v ! t1) \<ge> maxShowTime (difficultySettings v ! t2)
       \<and> minShowTime (difficultySettings v ! t2) < minShowTime (difficultySettings v ! t1)
       \<and> maxShowTime (difficultySettings v ! t2) < maxShowTime (difficultySettings v ! t1)
       \<and> minHideTime (difficultySettings v ! t2) < minHideTime (difficultySettings v ! t1)
       \<and> maxHideTime (difficultySettings v ! t2) < maxHideTime (difficultySettings v ! t1)
       \<and> animationSpeed (difficultySettings v ! t1) < animationSpeed (difficultySettings v ! t2)"
  using pairs_below_six[OF assms]
  by (elim disjE conjE; hypsubst; cases v; simp add: difficultySettings_def mkDifficulty_def)

theorem difficulty_tightens_with_tier_witness:
  "(2::nat) < 5 \<and> (5::nat) < 6
   \<and> animationSpeed (difficultySettings Part000 ! 2) < animationSpeed (difficultySettings Part000 ! 5)
   \<and> maxShowTime (difficultySettings Part000 ! 5) < maxShowTime (difficultySettings Part000 ! 2)
   \<and> minHideTime (difficultySettings GameFiles ! 5) < minHideTime (difficultySettings GameFiles ! 2)"
  using difficulty_tightens_with_tier[of 2 5 Part000]
        difficulty_tightens_with_tier[of 2 5 GameFiles]
  by simp

lemma floor_tenth: "\<lfloor>(60 - real_of_int t) / 10\<rfloor> = (60 - t) div 10"
  using floor_divide_of_int_eq[of "60 - t" 10, where ?'a = real] by simp

lemma getDifficultySettings_level:
  "difficultyLevel (snd (getDifficultySettings v s)) = min ((60 - timeLeft s) div 10) 5"
  by (simp add: getDifficultySettings_def Let_def floor_tenth)

lemma length_difficultySettings: "length (difficultySettings v) = 6"
  by (cases v) (simp_all add: difficultySettings_def)

lemma getDifficultySettings_entry:
  "timeLeft s \<le> 60 \<Longrightarrow>
   fst (getDifficultySettings v s)
     = Some (difficultySettings v ! nat (min ((60 - timeLeft s) div 10) 5))"
  by (simp add: getDifficultySettings_def Let_def floor_tenth length_difficultySettings)

text \<open>
  Claim C2. With \<open>e = 60 - timeLeft \<ge> 0\<close> seconds elapsed, \<^verbatim>\<open>getDifficultySettings()\<close>
  stores \<open>min (floor (e / 10)) 5\<close> in \<^verbatim>\<open>difficultyLevel\<close> and returns the table entry of
  that tier; the stored tier lies in 0..5 and does not decrease when \<open>e\<close> grows.
\<close>

theorem tier_is_capped_floor:
  assumes "0 \<le> e" and "timeLeft s = 60 - e"
  shows "difficultyLevel (snd (getDifficultySettings v s)) = min \<lfloor>real_of_int e / 10\<rfloor> 5
       \<and> fst (getDifficultySettings v s)
           = Some (difficultySettings v ! nat (min \<lfloor>real_of_int e / 10\<rfloor> 5))
       \<and> 0 \<le> difficultyLevel (snd (getDifficultySettings v s))
       \<and> difficultyLevel (snd (getDifficultySettings v s)) \<le> 5
       \<and> (\<forall>s'. timeLeft s' \<le> timeLeft s \<longrightarrow>
             difficultyLevel (snd (getDifficultySettings v s))
               \<le> difficultyLevel (snd (getDifficultySettings v s')))"
proof -
  have fl: "\<lfloor>real_of_int e / 10\<rfloor> = e div 10"
    using floor_divide_of_int_eq[of e 10, where ?'a = real] by simp
  have tl: "timeLeft s \<le> 60" and el: "60 - timeLeft s = e"
    using assms by simp_all
  have "e div 10 \<ge> 0"
    using assms(1) by simp
  moreover have "\<forall>s'::gameState. timeLeft s' \<le> timeLeft s \<longrightarrow>
      min ((60 - timeLeft s) div 10) 5 \<le> min ((60 - timeLeft s') div 10) (5::int)"
  proof (intro allI impI)
    fix s' :: gameState
    assume "timeLeft s' \<le> timeLeft s"
    then have "(60 - timeLeft s) div 10 \<le> (60 - timeLeft s') div 10"
      by (simp add: zdiv_mono1)
    then show "min ((60 - timeLeft s) div 10) 5 \<le> min ((60 - timeLeft s') div 10) (5::int)"
      by simp
  qed
  ultimately show ?thesis
    using getDifficultySettings_entry[OF tl, of v]
    by (simp add: getDifficultySettings_level fl el)
qed

theorem tier_is_capped_floor_witness:
  "difficultyLevel (snd (getDifficultySettings Part000 ((initialState (\<lambda>x. x) 400)\<lparr>timeLeft := 60\<rparr>))) = 0
   \<and> difficultyLevel (snd (getDifficultySettings Part000 ((initialState (\<lambda>x. x) 400)\<lparr>timeLeft := 51\<rparr>))) = 0
   \<and> difficultyLevel (snd (getDifficultySettings Part000 ((initialState (\<lambda>x. x) 400)\<lparr>timeLeft := 50\<rparr>))) = 1
   \<and> difficultyLevel (snd (getDifficultySettings GameFiles ((initialState (\<lambda>x. x) 400)\<lparr>timeLeft := - 5\<rparr>))) = 5"
  using tier_is_capped_floor[of 0 "(initialState (\<lambda>x. x) 400)\<lparr>timeLeft := 60\<rparr>" Part000]
        tier_is_capped_floor[of 9 "(initialState (\<lambda>x. x) 400)\<lparr>timeLeft := 51\<rparr>" Part000]
        tier_is_capped_floor[of 10 "(initialState (\<lambda>x. x) 400)\<lparr>timeLeft := 50\<rparr>" Part000]
        tier_is_capped_floor[of 65 "(initialState (\<lambda>x. x) 400)\<lparr>timeLeft := - 5\<rparr>" GameFiles]
  by simp

lemma getDifficultySettings_eq:
  "timeLeft s \<le> 60 \<Longrightarrow>
   getDifficultySettings v s
     = (Some (difficultySettings v ! nat (min ((60 - timeLeft s) div 10) 5)),
        s\<lparr>difficultyLevel := min ((60 - timeLeft s) div 10) 5\<rparr>)"
  by (simp add: getDifficultySettings_def Let_def floor_tenth length_difficultySettings)

lemma table_ranges:
  assumes "k < 6"
  shows "minShowTime (difficultySettings v ! k) < maxShowTime (difficultySettings v ! k)
    \<and> minHideTime (difficultySettings v ! k) < maxHideTime (difficultySettings v ! k)
    \<and> 0 < animationSpeed (difficultySettings v ! k)"
proof -
  from assms have "k = 0 \<or> k = 1 \<or> k = 2 \<or> k = 3 \<or> k = 4 \<or> k = 5" by arith
  then show ?thesis
    by (elim disjE; hypsubst; cases v; simp add: difficultySettings_def mkDifficulty_def)
qed

subsection \<open>Strikes\<close>

text \<open>
  Claim C3. A strike on a mole that is visible and not yet hit returns \<^verbatim>\<open>true\<close>, sets
  \<^verbatim>\<open>isHit\<close> and changes the score by exactly +10 for a good bunny and by exactly -20
  for a bad one, whatever the remaining time and the difficulty level; the same holds
  for the key press that reaches such a mole, in both files. The score is an integer
  with no lower bound (the witness ends at -20).
\<close>

theorem successful_strike_scores:
  assumes "i < length (moles s)" and "isVisible (moles s ! i)" and "\<not> isHit (moles s ! i)"
  shows "fst (Mole_hit i s)
       \<and> score (snd (Mole_hit i s)) = score s + (if isGoodMole (moles s ! i) then 10 else - 20)
       \<and> isHit (moles (snd (Mole_hit i s)) ! i)
       \<and> score (snd (Mole_hit i (s\<lparr>timeLeft := t, difficultyLevel := k\<rparr>)))
            = score s + (if isGoodMole (moles s ! i) then 10 else - 20)
       \<and> (running s \<and> \<not> paused s \<and> keyToIndex (toLowerCase key) = Some i
            \<and> animationProgress (moles s ! i) > 0 \<longrightarrow>
          score (Game_handleKeyPress v key s)
            = score s + (if isGoodMole (moles s ! i) then 10 else - 20)
          \<and> isHit (moles (Game_handleKeyPress v key s) ! i))"
  using assms
  by (simp add: Mole_hit_def Mole_startBashAnimation_def setTimeout_def updMole_def Let_def
      Game_handleKeyPress_def)

theorem successful_strike_scores_witness:
  "isVisible (moles sampleBunnyUp ! 0) \<and> \<not> isHit (moles sampleBunnyUp ! 0)
   \<and> \<not> isGoodMole (moles sampleBunnyUp ! 0) \<and> score sampleBunnyUp = 0
   \<and> fst (Mole_hit 0 sampleBunnyUp)
   \<and> score (Game_handleKeyPress Part000 ''A'' sampleBunnyUp) = - 20
   \<and> isHit (moles (Game_handleKeyPress Part000 ''A'' sampleBunnyUp) ! 0)"
proof -
  have a: "0 < length (moles sampleBunnyUp)" "isVisible (moles sampleBunnyUp ! 0)"
    "\<not> isHit (moles sampleBunnyUp ! 0)"
    by code_simp+
  have b: "\<not> isGoodMole (moles sampleBunnyUp ! 0)" "score sampleBunnyUp = 0"
    "running sampleBunnyUp" "\<not> paused sampleBunnyUp"
    "animationProgress (moles sampleBunnyUp ! 0) > 0" "keyToIndex (toLowerCase ''A'') = Some 0"
    by code_simp+
  show ?thesis
    using successful_strike_scores[OF a, of 60 0 "''A''" Part000] a b by simp
qed

text \<open>
  Claim C5. \<^verbatim>\<open>hit()\<close> on a mole that is not visible or already hit returns
  \<^verbatim>\<open>false\<close> and leaves the whole state as it was; a key press whose key selects no
  mole, a mole that is not visible or a mole that is already hit leaves the whole state
  (score, every mole, every pending timer) as it was. This holds in both files.
\<close>

theorem strike_miss_changes_nothing:
  "(\<not> isVisible (moles s ! i) \<or> isHit (moles s ! i) \<longrightarrow> Mole_hit i s = (False, s))
   \<and> (keyToIndex (toLowerCase key) = None
        \<or> (\<exists>j. keyToIndex (toLowerCase key) = Some j
               \<and> (length (moles s) \<le> j \<or> \<not> isVisible (moles s ! j) \<or> isHit (moles s ! j)))
       \<longrightarrow> Game_handleKeyPress v key s = s)"
  by (auto simp: Game_handleKeyPress_def Mole_hit_def)

theorem strike_miss_changes_nothing_witness:
  "isHit (moles sampleBunnyStruck ! 0) \<and> \<not> isVisible (moles sampleBunnyStruck ! 1)
   \<and> Mole_hit 0 sampleBunnyStruck = (False, sampleBunnyStruck)
   \<and> Game_handleKeyPress Part000 ''a'' sampleBunnyStruck = sampleBunnyStruck
   \<and> Game_handleKeyPress Part000 ''B'' sampleBunnyStruck = sampleBunnyStruck
   \<and> Game_handleKeyPress GameFiles ''x'' sampleBunnyStruck = sampleBunnyStruck"
proof -
  have a: "isHit (moles sampleBunnyStruck ! 0)" "\<not> isVisible (moles sampleBunnyStruck ! 1)"
    by code_simp+
  have k: "keyToIndex (toLowerCase ''a'') = Some 0" "keyToIndex (toLowerCase ''B'') = Some 1"
    "keyToIndex (toLowerCase ''x'') = None"
    by code_simp+
  show ?thesis
    using strike_miss_changes_nothing[of sampleBunnyStruck 0 "''a''" Part000]
      strike_miss_changes_nothing[of sampleBunnyStruck 0 "''B''" Part000]
      strike_miss_changes_nothing[of sampleBunnyStruck 0 "''x''" GameFiles] a k
    by simp
qed

subsection \<open>Pause\<close>

text \<open>
  Claim C9, as stated, fails for \<^verbatim>\<open>game-files/whackabunny.js\<close>: on the initial page
  (not running) its \<^verbatim>\<open>pause()\<close> does not do what \<^verbatim>\<open>start()\<close> does.
\<close>

theorem pause_when_idle_counterexample:
  "\<not> running (initialState (\<lambda>x. x) 400)
   \<and> Game_pause GameFiles (\<lambda>x. x) (\<lambda>_. 1 / 2) (initialState (\<lambda>x. x) 400)
       \<noteq> Game_start GameFiles (\<lambda>x. x) (\<lambda>_. 1 / 2) (initialState (\<lambda>x. x) 400)"
proof -
  have "\<not> running (state_of (Game_pause GameFiles (\<lambda>x. x) (\<lambda>_. 1 / 2) (initialState (\<lambda>x. x) 400)))"
    by code_simp
  moreover have "running (state_of (Game_start GameFiles (\<lambda>x. x) (\<lambda>_. 1 / 2) (initialState (\<lambda>x. x) 400)))"
    by code_simp
  moreover have "\<not> running (initialState (\<lambda>x. x) 400)"
    by code_simp
  ultimately show ?thesis by metis
qed

text \<open>
  Claim C9, amended. While the game is running, \<^verbatim>\<open>pause()\<close> toggles \<^verbatim>\<open>paused\<close> and
  changes nothing else, in both files. While it is not running, \<^verbatim>\<open>pause()\<close> of
  \<^verbatim>\<open>part_000\<close> is \<^verbatim>\<open>start()\<close>, and \<^verbatim>\<open>pause()\<close> of
  \<^verbatim>\<open>game-files/whackabunny.js\<close> still only toggles \<^verbatim>\<open>paused\<close>.
\<close>

theorem pause_toggles_or_starts:
  "(running s \<longrightarrow> Game_pause v rnd rng s = Returned (s\<lparr>paused := \<not> paused s\<rparr>))
   \<and> (\<not> running s \<longrightarrow> Game_pause Part000 rnd rng s = Game_start Part000 rnd rng s)
   \<and> (\<not> running s \<longrightarrow> Game_pause GameFiles rnd rng s = Returned (s\<lparr>paused := \<not> paused s\<rparr>))"
  by (simp add: Game_pause_def)

theorem pause_toggles_or_starts_witness:
  "running sampleBunnyUp \<and> \<not> paused sampleBunnyUp
   \<and> paused (state_of (Game_pause Part000 (\<lambda>x. x) (\<lambda>_. 1 / 2) sampleBunnyUp))
   \<and> \<not> running (initialState (\<lambda>x. x) 400)
   \<and> Game_pause Part000 (\<lambda>x. x) (\<lambda>_. 1 / 2) (initialState (\<lambda>x. x) 400)
       = Game_start Part000 (\<lambda>x. x) (\<lambda>_. 1 / 2) (initialState (\<lambda>x. x) 400)
   \<and> paused (state_of (Game_pause GameFiles (\<lambda>x. x) (\<lambda>_. 1 / 2) (initialState (\<lambda>x. x) 400)))"
proof -
  have a: "running sampleBunnyUp" "\<not> paused sampleBunnyUp" "\<not> running (initialState (\<lambda>x. x) 400)"
    "\<not> paused (initialState (\<lambda>x. x) 400)"
    by code_simp+
  show ?thesis
    using pause_toggles_or_starts[where s = sampleBunnyUp and v = Part000
          and rnd = "\<lambda>x. x" and rng = "\<lambda>_. 1 / 2"]
      pause_toggles_or_starts[where s = "initialState (\<lambda>x. x) 400" and v = Part000
          and rnd = "\<lambda>x. x" and rng = "\<lambda>_. 1 / 2"] a
    by simp
qed

subsection \<open>The guard of show() in part_000\<close>

text \<open>
  Claim C10. In \<^verbatim>\<open>part_000\<close>, \<^verbatim>\<open>show()\<close> on a mole that is visible or animating
  returns with the state untouched (no random number drawn, no field of the mole
  changed, no timer scheduled); so when a pending show timer of such a mole fires, the
  only change is that this timer has left the queue.
\<close>

theorem show_in_flight_is_noop:
  assumes "isVisible (moles s ! i) \<or> isAnimating (moles s ! i)"
  shows "Mole_show Part000 rnd rng i s = Returned s
       \<and> (\<forall>h t. find (\<lambda>t. timerId t = h) (timers s) = Some t \<and> timerCallback t = ShowMole i
             \<longrightarrow> fireTimer Part000 rnd rng h s = Returned (clearTimeout h s))"
  using assms
  by (auto simp: Mole_show_def fireTimer_def clearTimeout_def)

theorem show_in_flight_is_noop_witness:
  "isVisible (moles sampleOverlap ! 0)
   \<and> find (\<lambda>t. timerId t = 6) (timers sampleOverlap)
       = Some \<lparr>timerId = 6, timerDelay = 2700, timerCallback = ShowMole 0\<rparr>
   \<and> Mole_show Part000 (\<lambda>x. x) (\<lambda>_. 9 / 10) 0 sampleOverlap = Returned sampleOverlap
   \<and> fireTimer Part000 (\<lambda>x. x) (\<lambda>_. 9 / 10) 6 sampleOverlap = Returned (clearTimeout 6 sampleOverlap)"
proof -
  have a: "isVisible (moles sampleOverlap ! 0)"
    by code_simp
  have b: "find (\<lambda>t. timerId t = 6) (timers sampleOverlap)
       = Some \<lparr>timerId = 6, timerDelay = 2700, timerCallback = ShowMole 0\<rparr>"
    by code_simp
  show ?thesis
    using show_in_flight_is_noop[where s = sampleOverlap and i = 0 and rnd = "\<lambda>x. x"
        and rng = "\<lambda>_. 9 / 10"] a b
    by simp
qed

subsection \<open>Rounding to the nearest double\<close>

lemma roundEven_of_int [simp]: "roundEven (of_int k) = k"
  by (simp add: roundEven_def)

lemma roundEven_mono:
  assumes "x \<le> y"
  shows "roundEven x \<le> roundEven y"
proof -
  have fl: "\<lfloor>x\<rfloor> \<le> \<lfloor>y\<rfloor>" using assms by (rule floor_mono)
  show ?thesis
  proof (cases "\<lfloor>x\<rfloor> = \<lfloor>y\<rfloor>")
    case True
    then show ?thesis using assms by (auto simp: roundEven_def Let_def)
  next
    case False
    then have "\<lfloor>x\<rfloor> + 1 \<le> \<lfloor>y\<rfloor>" using fl by simp
    moreover have "roundEven x \<le> \<lfloor>x\<rfloor> + 1" by (simp add: roundEven_def Let_def)
    moreover have "\<lfloor>y\<rfloor> \<le> roundEven y" by (simp add: roundEven_def Let_def)
    ultimately show ?thesis by linarith
  qed
qed

lemma roundEven_le: "x \<le> of_int k \<Longrightarrow> roundEven x \<le> k"
  using roundEven_mono[of x "of_int k"] by simp

lemma roundEven_ge: "of_int k \<le> x \<Longrightarrow> k \<le> roundEven x"
  using roundEven_mono[of "of_int k" x] by simp

lemma roundEven_numeral [simp]: "roundEven (numeral n) = numeral n"
  using roundEven_of_int[of "numeral n"] by simp

lemma roundEven_pow [simp]: "roundEven (2 ^ n) = 2 ^ n"
  using roundEven_of_int[of "2 ^ n"] by simp

lemma rdSmall_scaled:
  "0 < x \<Longrightarrow> 2 ^ 52 \<le> x * 2 ^ n \<Longrightarrow> x * 2 ^ n \<le> 2 ^ 53 \<Longrightarrow>
   rdSmall x = of_int (roundEven (x * 2 ^ n)) / 2 ^ n"
proof (induction n arbitrary: x)
  case 0
  then show ?case by (simp add: rdSmall.simps)
next
  case (Suc n)
  show ?case
  proof (cases "x < 2 ^ 52")
    case True
    have "rdSmall (2 * x) = of_int (roundEven (2 * x * 2 ^ n)) / 2 ^ n"
      using Suc.prems by (intro Suc.IH) (simp_all add: mult.assoc mult.left_commute)
    then show ?thesis
      using True Suc.prems(1) by (subst rdSmall.simps) (simp add: mult.assoc mult.left_commute)
  next
    case False
    then have x: "2 ^ 52 \<le> x" by simp
    have "(2::real) ^ n \<ge> 1" by simp
    then have "x * 2 \<le> x * 2 ^ Suc n" using Suc.prems(1) by simp
    then have "x * 2 \<le> 2 ^ 53" using Suc.prems(3) by linarith
    then have x2: "x = 2 ^ 52" using x by simp
    have "x * 2 ^ Suc n \<le> x * 2" using Suc.prems(3) x2 by simp
    then have "(2::real) ^ Suc n \<le> 2" using Suc.prems(1) by simp
    then have "(2::real) ^ Suc n \<le> 2 ^ 1" by simp
    then have "Suc n \<le> 1" by (rule power_le_imp_le_exp[rotated]) simp
    then have n: "n = 0" by simp
    have "rdSmall x = of_int (roundEven x)"
      using False by (subst rdSmall.simps) simp
    also have "\<dots> = 2 ^ 52" unfolding x2 by simp
    finally show ?thesis
      using roundEven_pow[of 53] unfolding n x2 by simp
  qed
qed

lemma rdBig_scaled:
  "2 ^ 52 \<le> x / 2 ^ n \<Longrightarrow> x / 2 ^ n \<le> 2 ^ 53 \<Longrightarrow>
   rdBig x = 2 ^ n * of_int (roundEven (x / 2 ^ n))"
proof (induction n arbitrary: x)
  case 0
  show ?case
  proof (cases "x < 2 ^ 53")
    case True
    then show ?thesis by (subst rdBig.simps) simp
  next
    case False
    then have x: "x = 2 ^ 53" using 0 by simp
    have "rdBig (2 ^ 53) = 2 * rdBig (2 ^ 52)"
      by (subst rdBig.simps) simp
    also have "rdBig (2 ^ 52) = of_int (roundEven (2 ^ 52))"
      by (subst rdBig.simps) simp
    finally show ?thesis
      using roundEven_pow[of 53] roundEven_pow[of 52] unfolding x by simp
  qed
next
  case (Suc n)
  have "(2::real) ^ n \<ge> 1" by simp
  have "2 ^ 52 * 2 ^ Suc n \<le> x"
    using Suc.prems(1) by (simp add: pos_le_divide_eq)
  moreover have "(2::real) ^ 52 * 2 \<le> 2 ^ 52 * 2 ^ Suc n"
    using \<open>(2::real) ^ n \<ge> 1\<close> by simp
  ultimately have "(2::real) ^ 52 * 2 \<le> x" by linarith
  then have x: "2 ^ 53 \<le> x" by simp
  have "rdBig (x / 2) = 2 ^ n * of_int (roundEven (x / 2 / 2 ^ n))"
    using Suc.prems by (intro Suc.IH) simp_all
  then show ?case
    using x by (subst rdBig.simps) simp
qed

lemma binade_ex:
  assumes "0 < (x::real)"
  shows "\<exists>e::int. 2 ^ 52 \<le> x * 2 powi e \<and> x * 2 powi e < 2 ^ 53"
proof -
  define k where "k = \<lfloor>log 2 x\<rfloor>"
  have "of_int k \<le> log 2 x" and "log 2 x < of_int (k + 1)"
    by (simp_all add: k_def)
  then have "2 powr of_int k \<le> 2 powr log 2 x" and "2 powr log 2 x < 2 powr of_int (k + 1)"
    by (simp_all only: powr_le_cancel_iff powr_less_cancel_iff one_less_numeral_iff semiring_norm)
  moreover have eq: "\<And>j::int. (2::real) powr of_int j = 2 powi j"
    by (simp add: powr_real_of_int')
  moreover have "2 powr log 2 x = x"
    using assms by simp
  ultimately have a: "2 powi k \<le> x" and b: "x < 2 powi (k + 1)"
    by (simp_all only:)
  have p: "0 < (2::real) powi k" by (simp add: zero_less_power_int)
  have e: "(2::real) powi (52 - k) = 2 ^ 52 / 2 powi k"
    by (simp add: power_int_diff)
  have b': "x < 2 * 2 powi k"
    using b by (simp add: power_int_add_1')
  have "2 ^ 52 \<le> x * (2 ^ 52 / 2 powi k)"
    using a p by (simp add: pos_le_divide_eq)
  moreover have "x * (2 ^ 52 / 2 powi k) < 2 ^ 53"
    using b' p by (simp add: pos_divide_less_eq)
  ultimately show ?thesis
    unfolding e[symmetric] by blast
qed

lemma rdPos_scaled:
  assumes "0 < x" and "2 ^ 52 \<le> x * 2 powi e" and "x * 2 powi e \<le> 2 ^ 53"
  shows "rdPos x = of_int (roundEven (x * 2 powi e)) / 2 powi e"
proof (cases "0 \<le> e")
  case True
  then have p: "(2::real) powi e = 2 ^ nat e" by (rule power_int_nonneg_exp)
  have "1 \<le> (2::real) ^ nat e" by simp
  then have "x * 1 \<le> x * 2 ^ nat e" using assms(1) by (intro mult_left_mono) simp_all
  then have x53: "x \<le> 2 ^ 53" using assms(3) unfolding p by simp
  have "rdPos x = rdSmall x"
  proof (cases "x < 2 ^ 52")
    case True
    then show ?thesis by (simp add: rdPos_def)
  next
    case False
    then have "rdBig x = of_int (roundEven x)"
      using rdBig_scaled[of x 0] x53 by simp
    moreover have "rdSmall x = of_int (roundEven x)"
      using False by (subst rdSmall.simps) simp
    ultimately show ?thesis using False by (simp add: rdPos_def)
  qed
  then show ?thesis
    using rdSmall_scaled[OF assms(1), of "nat e"] assms(2,3) unfolding p by simp
next
  case False
  define n where "n = nat (- e)"
  have e: "e = - int n" using False by (simp add: n_def)
  have p: "(2::real) powi e = 1 / 2 ^ n"
    unfolding e by (simp add: power_int_minus_divide)
  have q: "x * 2 powi e = x / 2 ^ n" unfolding p by simp
  have "2 ^ 52 * 2 ^ n \<le> x"
    using assms(2) unfolding q by (simp add: pos_le_divide_eq)
  moreover have "(2::real) ^ 52 * 1 \<le> 2 ^ 52 * 2 ^ n"
    by (intro mult_left_mono) simp_all
  ultimately have "\<not> x < 2 ^ 52" by linarith
  then have "rdPos x = rdBig x" by (simp add: rdPos_def)
  then show ?thesis
    using rdBig_scaled[of x n] assms(2,3) unfolding q p by simp
qed

lemma rdPos_zero [simp]: "rdPos 0 = 0"
  using roundEven_of_int[of 0] by (simp add: rdPos_def rdSmall.simps)

lemma rdPos_pos:
  assumes "0 < x"
  shows "0 < rdPos x"
proof -
  obtain e :: int where e: "2 ^ 52 \<le> x * 2 powi e" "x * 2 powi e < 2 ^ 53"
    using binade_ex[OF assms] by blast
  have p: "0 < (2::real) powi e" by (simp add: zero_less_power_int)
  have "of_int (2 ^ 52) \<le> x * 2 powi e" using e(1) by simp
  then have "2 ^ 52 \<le> roundEven (x * 2 powi e)" by (rule roundEven_ge)
  then have "0 < roundEven (x * 2 powi e)" by simp
  then show ?thesis
    using rdPos_scaled[OF assms e(1)] e(2) p by simp
qed

lemma rdPos_mono:
  assumes "0 < x" and "x \<le> y"
  shows "rdPos x \<le> rdPos y"
proof -
  have y0: "0 < y" using assms by simp
  obtain ex :: int where ex: "2 ^ 52 \<le> x * 2 powi ex" "x * 2 powi ex < 2 ^ 53"
    using binade_ex[OF assms(1)] by blast
  obtain ey :: int where ey: "2 ^ 52 \<le> y * 2 powi ey" "y * 2 powi ey < 2 ^ 53"
    using binade_ex[OF y0] by blast
  define a :: real where "a = 2 powi ex"
  define b :: real where "b = 2 powi ey"
  have a0: "0 < a" and b0: "0 < b" by (simp_all add: a_def b_def zero_less_power_int)
  have fx: "rdPos x = of_int (roundEven (x * a)) / a"
    unfolding a_def by (rule rdPos_scaled[OF assms(1) ex(1)]) (use ex(2) in simp)
  have fy: "rdPos y = of_int (roundEven (y * b)) / b"
    unfolding b_def by (rule rdPos_scaled[OF y0 ey(1)]) (use ey(2) in simp)
  show ?thesis
  proof (cases "2 ^ 52 \<le> x * b")
    case True
    have xy: "x * b \<le> y * b" using assms(2) b0 by simp
    then have "x * b \<le> 2 ^ 53" using ey(2) unfolding b_def by linarith
    then have "rdPos x = of_int (roundEven (x * b)) / b"
      using True unfolding b_def by (intro rdPos_scaled[OF assms(1)])
    moreover have "roundEven (x * b) \<le> roundEven (y * b)"
      using xy by (rule roundEven_mono)
    ultimately show ?thesis
      unfolding fy using b0 by (simp add: divide_right_mono)
  next
    case False
    then have "x * b < x * a" using ex(1) unfolding a_def by linarith
    then have ba: "b < a" using assms(1) by simp
    have "ey < ex"
    proof (rule ccontr)
      assume "\<not> ey < ex"
      then have "ex \<le> ey" by simp
      then have "(2::real) powi ex \<le> 2 powi ey" by (rule power_int_increasing) simp
      then show False using ba unfolding a_def b_def by simp
    qed
    then have "ey + 1 \<le> ex" by simp
    then have "(2::real) powi (ey + 1) \<le> 2 powi ex" by (rule power_int_increasing) simp
    then have ab: "2 * b \<le> a" unfolding a_def b_def by (simp add: power_int_add_1')
    have "x * a \<le> of_int (2 ^ 53)" using ex(2) unfolding a_def by simp
    then have "roundEven (x * a) \<le> 2 ^ 53" by (rule roundEven_le)
    then have "real_of_int (roundEven (x * a)) \<le> real_of_int (2 ^ 53)"
      by (simp only: of_int_le_iff)
    then have "real_of_int (roundEven (x * a)) \<le> 2 ^ 53" by simp
    then have "rdPos x \<le> 2 ^ 53 / a"
      unfolding fx using a0 by (simp add: divide_right_mono)
    also have "\<dots> \<le> 2 ^ 53 / (2 * b)"
      using ab b0 by (intro divide_left_mono) simp_all
    also have "\<dots> = 2 ^ 52 / b" by simp
    also have "\<dots> \<le> real_of_int (roundEven (y * b)) / b"
    proof -
      have "of_int (2 ^ 52) \<le> y * b" using ey(1) unfolding b_def by simp
      then have "2 ^ 52 \<le> roundEven (y * b)" by (rule roundEven_ge)
      then have "real_of_int (2 ^ 52) \<le> real_of_int (roundEven (y * b))"
        by (simp only: of_int_le_iff)
      then show ?thesis using b0 by (simp add: divide_right_mono)
    qed
    finally show ?thesis unfolding fy .
  qed
qed

lemma roundToDouble_mono:
  assumes "x \<le> y"
  shows "roundToDouble x \<le> roundToDouble y"
proof -
  have nonneg: "\<And>z. 0 \<le> z \<Longrightarrow> 0 \<le> rdPos z"
  proof -
    fix z :: real assume "0 \<le> z"
    then show "0 \<le> rdPos z" using rdPos_pos[of z] by (cases "z = 0") simp_all
  qed
  consider "0 < x" | "x = 0" | "x < 0" "0 \<le> y" | "x < 0" "y < 0" by linarith
  then show ?thesis
  proof cases
    case 1
    then show ?thesis using assms rdPos_mono[OF 1 assms] by (simp add: roundToDouble_def)
  next
    case 2
    then show ?thesis using assms nonneg[of y] by (simp add: roundToDouble_def)
  next
    case 3
    then show ?thesis using nonneg[of y] nonneg[of "- x"] by (simp add: roundToDouble_def)
  next
    case 4
    then have "0 < - y" "- y \<le> - x" using assms by simp_all
    then have "rdPos (- y) \<le> rdPos (- x)" by (rule rdPos_mono)
    then show ?thesis using 4 by (simp add: roundToDouble_def)
  qed
qed

lemma rdPos_of_int:
  assumes "0 \<le> k" and "k \<le> 2 ^ 53"
  shows "rdPos (of_int k) = of_int k"
proof (cases "k = 0")
  case True
  then show ?thesis by simp
next
  case False
  then have k0: "0 < real_of_int k" using assms(1) by simp
  have k53: "real_of_int k \<le> 2 ^ 53"
  proof -
    have "real_of_int k \<le> real_of_int (2 ^ 53)" using assms(2) by (simp only: of_int_le_iff)
    then show ?thesis by simp
  qed
  show ?thesis
  proof (cases "2 ^ 52 \<le> real_of_int k")
    case True
    then show ?thesis
      using rdPos_scaled[OF k0, of 0] k53 by simp
  next
    case False
    obtain e :: int where e: "2 ^ 52 \<le> real_of_int k * 2 powi e" "real_of_int k * 2 powi e < 2 ^ 53"
      using binade_ex[OF k0] by blast
    have "0 < e"
    proof (rule ccontr)
      assume "\<not> 0 < e"
      then have "e \<le> 0" by simp
      then have "(2::real) powi e \<le> 2 powi 0" by (rule power_int_increasing) simp
      then have "real_of_int k * 2 powi e \<le> real_of_int k * 1"
        using k0 by (intro mult_left_mono) simp_all
      then show False using False e(1) by linarith
    qed
    then have p: "(2::real) powi e = 2 ^ nat e" by (intro power_int_nonneg_exp) simp
    have "real_of_int k * 2 ^ nat e = real_of_int (k * 2 ^ nat e)" by simp
    then have r: "roundEven (real_of_int k * 2 ^ nat e) = k * 2 ^ nat e"
      by (simp only: roundEven_of_int)
    show ?thesis
      using rdPos_scaled[OF k0 e(1)] e(2) unfolding p r by simp
  qed
qed

lemma roundToDouble_of_int:
  assumes "\<bar>k\<bar> \<le> 2 ^ 53"
  shows "roundToDouble (of_int k) = of_int k"
proof (cases "k < 0")
  case True
  then have "rdPos (of_int (- k)) = of_int (- k)"
    using assms by (intro rdPos_of_int) simp_all
  then show ?thesis using True by (simp add: roundToDouble_def)
next
  case False
  then have "rdPos (of_int k) = of_int k"
    using assms by (intro rdPos_of_int) simp_all
  then show ?thesis using False by (simp add: roundToDouble_def)
qed

lemma roundToDouble_roundsLikeDouble: "roundsLikeDouble roundToDouble"
  unfolding roundsLikeDouble_def
  using roundToDouble_mono roundToDouble_of_int by blast

lemma roundToDouble_zero [simp]: "roundToDouble 0 = 0"
  using roundToDouble_of_int[of 0] by simp

lemma roundToDouble_numeral [simp]:
  "numeral n \<le> (2 ^ 53 :: int) \<Longrightarrow> roundToDouble (numeral n) = numeral n"
  using roundToDouble_of_int[of "numeral n"] by simp

subsection \<open>Scheduled delays\<close>

lemma rnd_mono: "roundsLikeDouble rnd \<Longrightarrow> x \<le> y \<Longrightarrow> rnd x \<le> rnd y"
  by (simp add: roundsLikeDouble_def)

lemma rnd_Ints:
  assumes "roundsLikeDouble rnd" and "x \<in> \<int>" and "\<bar>x\<bar> \<le> 2 ^ 53"
  shows "rnd x = x"
proof -
  from assms(2) obtain k where k: "x = of_int k" by (rule Ints_cases)
  have "real_of_int \<bar>k\<bar> \<le> real_of_int (2 ^ 53)"
    using assms(3) unfolding k by simp
  then have "\<bar>k\<bar> \<le> 2 ^ 53" by (simp only: of_int_le_iff)
  then show ?thesis using assms(1) unfolding k by (simp add: roundsLikeDouble_def)
qed

lemma rnd_zero: "roundsLikeDouble rnd \<Longrightarrow> rnd 0 = 0"
  by (rule rnd_Ints) simp_all

lemma rnd_one: "roundsLikeDouble rnd \<Longrightarrow> rnd 1 = 1"
  by (rule rnd_Ints) simp_all

lemma table_integral:
  assumes "k < 6"
  shows "minShowTime (difficultySettings v ! k) \<in> \<int> \<and> maxShowTime (difficultySettings v ! k) \<in> \<int>
    \<and> minHideTime (difficultySettings v ! k) \<in> \<int> \<and> maxHideTime (difficultySettings v ! k) \<in> \<int>
    \<and> 0 \<le> minShowTime (difficultySettings v ! k) \<and> maxShowTime (difficultySettings v ! k) \<le> 5000
    \<and> 0 \<le> minHideTime (difficultySettings v ! k) \<and> maxHideTime (difficultySettings v ! k) \<le> 5000"
proof -
  from assms have "k = 0 \<or> k = 1 \<or> k = 2 \<or> k = 3 \<or> k = 4 \<or> k = 5" by arith
  then show ?thesis
    by (elim disjE; hypsubst; cases v; simp add: difficultySettings_def mkDifficulty_def)
qed

lemma rounded_sample_in_range:
  fixes r lo hi :: real
  assumes rl: "roundsLikeDouble rnd" and r: "0 \<le> r" "r < 1"
    and lo: "lo \<in> \<int>" "0 \<le> lo" and hi: "hi \<in> \<int>" "hi \<le> 5000" and lohi: "lo < hi"
  shows "lo \<le> rnd (rnd (r * rnd (hi - lo)) + lo) \<and> rnd (rnd (r * rnd (hi - lo)) + lo) \<le> hi"
proof -
  have d: "rnd (hi - lo) = hi - lo"
    by (rule rnd_Ints[OF rl]) (use lo hi lohi in auto)
  have l: "rnd lo = lo"
    by (rule rnd_Ints[OF rl]) (use lo hi lohi in auto)
  have h: "rnd hi = hi"
    by (rule rnd_Ints[OF rl]) (use lo hi lohi in auto)
  let ?p = "rnd (r * (hi - lo))"
  have "0 \<le> r * (hi - lo)" using r lohi by simp
  then have "rnd 0 \<le> ?p" by (rule rnd_mono[OF rl])
  then have p0: "0 \<le> ?p" by (simp only: rnd_zero[OF rl])
  have "r * (hi - lo) \<le> 1 * (hi - lo)"
    using r lohi by (intro mult_right_mono) simp_all
  then have "r * (hi - lo) \<le> hi - lo" by simp
  then have "?p \<le> rnd (hi - lo)" by (rule rnd_mono[OF rl])
  then have p1: "?p \<le> hi - lo" by (simp only: d)
  have "rnd lo \<le> rnd (?p + lo)" by (rule rnd_mono[OF rl]) (use p0 in simp)
  moreover have "rnd (?p + lo) \<le> rnd hi" by (rule rnd_mono[OF rl]) (use p1 in simp)
  ultimately show ?thesis unfolding d l h by simp
qed

lemma Mole_show_timers:
  assumes "running s" "\<not> paused s" "timeLeft s \<le> 60" "i < length (moles s)"
    and "v = GameFiles \<or> \<not> isVisible (moles s ! i) \<and> \<not> isAnimating (moles s ! i)"
  shows "timers (state_of (Mole_show v rnd rng i s)) =
      timers s @ [\<lparr>timerId = nextTimerId s,
         timerDelay = (let d = difficultySettings v ! nat (min ((60 - timeLeft s) div 10) 5);
                           sample = rnd (rnd (rng (Suc (rngPos s))
                                              * rnd (maxShowTime d - minShowTime d))
                                         + minShowTime d)
                       in if v = Part000 then max sample 500 else sample),
         timerCallback = HideMole i\<rparr>]"
  using assms
  by (cases v)
     (simp_all add: Mole_show_def Let_def random_def updMole_def split_def setTimeout_def
       getDifficultySettings_eq)

lemma Mole_hide_timers:
  assumes "running s" "\<not> paused s" "timeLeft s \<le> 60" "i < length (moles s)"
    and "v = GameFiles \<or> isVisible (moles s ! i)"
  shows "timers (state_of (Mole_hide v rnd rng i s)) =
      filter (\<lambda>t. Some (timerId t) \<noteq> visibilityTimer (moles s ! i)) (timers s)
       @ [\<lparr>timerId = nextTimerId s,
         timerDelay = (let d = difficultySettings v ! nat (min ((60 - timeLeft s) div 10) 5);
                           sample = rnd (rnd (rng (rngPos s)
                                              * rnd (maxHideTime d - minHideTime d))
                                         + minHideTime d)
                       in if v = Part000 then max sample 500 else sample),
         timerCallback = ShowMole i\<rparr>]"
  using assms
  by (cases v; cases "visibilityTimer (moles s ! i)")
     (simp_all add: Mole_hide_def Let_def random_def updMole_def split_def setTimeout_def
       getDifficultySettings_eq clearVisibilityTimer_def clearTimeout_def)

lemma Mole_hit_timers:
  assumes "i < length (moles s)" "isVisible (moles s ! i)" "\<not> isHit (moles s ! i)"
  shows "timers (snd (Mole_hit i s)) = timers s @
     [\<lparr>timerId = nextTimerId s, timerDelay = 100, timerCallback = BashFrame2 i\<rparr>,
      \<lparr>timerId = Suc (nextTimerId s), timerDelay = 400, timerCallback = HideMole i\<rparr>]"
  using assms
  by (simp add: Mole_hit_def Mole_startBashAnimation_def setTimeout_def updMole_def Let_def)

text \<open>
  Claim C8, as stated, fails. In \<^verbatim>\<open>game-files/whackabunny.js\<close> no floor is applied:
  55 seconds into the game, with \<^verbatim>\<open>Math.random()\<close> returning 0, \<^verbatim>\<open>show()\<close>
  schedules the hide after 200 ms. And in \<^verbatim>\<open>part_000\<close> the hide that \<^verbatim>\<open>hit()\<close>
  schedules has the fixed delay of 400 ms, which is neither sampled from the profile nor
  raised to the 500 ms animation buffer.
\<close>

theorem delay_floor_counterexample:
  "timers (state_of (Mole_show GameFiles (\<lambda>x. x) (\<lambda>_. 0) 0 (sampleLateGame GameFiles)))
     = timers (sampleLateGame GameFiles)
       @ [\<lparr>timerId = 5, timerDelay = 200, timerCallback = HideMole 0\<rparr>]
   \<and> last (timers sampleBunnyStruck)
     = \<lparr>timerId = 7, timerDelay = 400, timerCallback = HideMole 0\<rparr>"
  by code_simp

text \<open>
  Claim C8, amended. Let the game be running and not paused, let \<open>d\<close> be the table
  entry of the current tier and let \<^verbatim>\<open>Math.random()\<close> return values in \<open>[0, 1)\<close>.
  When \<^verbatim>\<open>show()\<close> brings a mole up, it schedules the hide with one sample, the
  double computed as \<^verbatim>\<open>r * (maxShowTime - minShowTime) + minShowTime\<close>, which lies
  in the closed interval \<open>[minShowTime, maxShowTime]\<close> (rounding the product and the
  sum keeps the sample within the bounds, and it can make it equal to the upper one); when
  \<^verbatim>\<open>hide()\<close> takes a mole down, it schedules the next appearance with one sample
  from \<open>[minHideTime, maxHideTime]\<close> in the same way. In \<^verbatim>\<open>part_000\<close> the scheduled
  delay is the larger of the sample and 500 ms; in \<^verbatim>\<open>game-files/whackabunny.js\<close> it
  is the sample itself. The hide that follows a successful \<^verbatim>\<open>hit()\<close> is scheduled
  after a fixed 400 ms (next to the 100 ms timer of the bash animation) in either file.
\<close>

theorem scheduled_delay_sampled_then_floored:
  assumes "roundsLikeDouble rnd"
    and "running s" and "\<not> paused s" and "timeLeft s \<le> 60" and "i < length (moles s)"
    and "\<forall>n. 0 \<le> rng n \<and> rng n < 1"
  shows
   "(v = GameFiles \<or> \<not> isVisible (moles s ! i) \<and> \<not> isAnimating (moles s ! i) \<longrightarrow>
      (let d = difficultySettings v ! nat (min ((60 - timeLeft s) div 10) 5);
           sample = rnd (rnd (rng (Suc (rngPos s)) * rnd (maxShowTime d - minShowTime d))
                         + minShowTime d)
       in minShowTime d \<le> sample \<and> sample \<le> maxShowTime d
          \<and> timers (state_of (Mole_show v rnd rng i s))
              = timers s @ [\<lparr>timerId = nextTimerId s,
                              timerDelay = (if v = Part000 then max sample 500 else sample),
                              timerCallback = HideMole i\<rparr>]))
    \<and> (v = GameFiles \<or> isVisible (moles s ! i) \<longrightarrow>
      (let d = difficultySettings v ! nat (min ((60 - timeLeft s) div 10) 5);
           sample = rnd (rnd (rng (rngPos s) * rnd (maxHideTime d - minHideTime d))
                         + minHideTime d)
       in minHideTime d \<le> sample \<and> sample \<le> maxHideTime d
          \<and> timers (state_of (Mole_hide v rnd rng i s))
              = filter (\<lambda>t. Some (timerId t) \<noteq> visibilityTimer (moles s ! i)) (timers s)
                @ [\<lparr>timerId = nextTimerId s,
                     timerDelay = (if v = Part000 then max sample 500 else sample),
                     timerCallback = ShowMole i\<rparr>]))
    \<and> (isVisible (moles s ! i) \<and> \<not> isHit (moles s ! i) \<longrightarrow>
        timers (snd (Mole_hit i s))
          = timers s @ [\<lparr>timerId = nextTimerId s, timerDelay = 100,
                          timerCallback = BashFrame2 i\<rparr>,
                        \<lparr>timerId = Suc (nextTimerId s), timerDelay = 400,
                         timerCallback = HideMole i\<rparr>])"
proof -
  let ?d = "difficultySettings v ! nat (min ((60 - timeLeft s) div 10) 5)"
  have k: "nat (min ((60 - timeLeft s) div 10) 5) < 6" by simp
  have r1: "0 \<le> rng (Suc (rngPos s))" "rng (Suc (rngPos s)) < 1"
    and r0: "0 \<le> rng (rngPos s)" "rng (rngPos s) < 1"
    using assms(6) by simp_all
  note tr = table_ranges[OF k, where v = v]
  note ti = table_integral[OF k, where v = v]
  have A: "minShowTime ?d
        \<le> rnd (rnd (rng (Suc (rngPos s)) * rnd (maxShowTime ?d - minShowTime ?d)) + minShowTime ?d)
     \<and> rnd (rnd (rng (Suc (rngPos s)) * rnd (maxShowTime ?d - minShowTime ?d)) + minShowTime ?d)
        \<le> maxShowTime ?d"
    by (rule rounded_sample_in_range[OF assms(1) r1]) (use tr ti in blast)+
  have B: "minHideTime ?d
        \<le> rnd (rnd (rng (rngPos s) * rnd (maxHideTime ?d - minHideTime ?d)) + minHideTime ?d)
     \<and> rnd (rnd (rng (rngPos s) * rnd (maxHideTime ?d - minHideTime ?d)) + minHideTime ?d)
        \<le> maxHideTime ?d"
    by (rule rounded_sample_in_range[OF assms(1) r0]) (use tr ti in blast)+
  show ?thesis
    using A B Mole_show_timers[OF assms(2-5), where v = v and rnd = rnd and rng = rng]
      Mole_hide_timers[OF assms(2-5), where v = v and rnd = rnd and rng = rng]
      Mole_hit_timers[OF assms(5)]
    by (simp add: Let_def)
qed

theorem scheduled_delay_sampled_then_floored_witness:
  "roundsLikeDouble roundToDouble
   \<and> running (sampleLateGame Part000) \<and> \<not> paused (sampleLateGame Part000)
   \<and> timeLeft (sampleLateGame Part000) = 5
   \<and> \<not> isVisible (moles (sampleLateGame Part000) ! 0)
   \<and> minShowTime (difficultySettings Part000 ! 5) = 350
   \<and> timers (state_of (Mole_show Part000 roundToDouble (\<lambda>_. 0) 0 (sampleLateGame Part000)))
       = timers (sampleLateGame Part000)
         @ [\<lparr>timerId = 5, timerDelay = 500, timerCallback = HideMole 0\<rparr>]"
proof -
  have rl: "roundsLikeDouble roundToDouble"
    by (rule roundToDouble_roundsLikeDouble)
  have a: "running (sampleLateGame Part000)" "\<not> paused (sampleLateGame Part000)"
    "timeLeft (sampleLateGame Part000) \<le> 60" "0 < length (moles (sampleLateGame Part000))"
    "\<forall>n::nat. (0::real) \<le> (\<lambda>_. 0) n  \<and> (\<lambda>_. 0::real) n < 1"
    by (code_simp, code_simp, code_simp, code_simp, simp)
  have b: "timeLeft (sampleLateGame Part000) = 5" "nextTimerId (sampleLateGame Part000) = 5"
    "\<not> isVisible (moles (sampleLateGame Part000) ! 0)"
    "\<not> isAnimating (moles (sampleLateGame Part000) ! 0)"
    by code_simp+
  show ?thesis
    using scheduled_delay_sampled_then_floored[OF rl a, where v = Part000] rl a b
    by (simp add: difficultySettings_def mkDifficulty_def)
qed

subsection \<open>Loops over the moles\<close>

lemma fold_keeps:
  assumes "\<And>i s. P (f i s) = P s"
  shows "P (fold f js s) = P s"
  by (induction js arbitrary: s) (simp_all add: assms)

lemma fold_other:
  assumes "\<And>i j s. j \<noteq> i \<Longrightarrow> moles (f i s) ! j = moles s ! j"
  shows "j \<notin> set js \<Longrightarrow> moles (fold f js s) ! j = moles s ! j"
  by (induction js arbitrary: s) (simp_all add: assms)

lemma fold_establishes:
  assumes len: "\<And>i s. length (moles (f i s)) = length (moles s)"
    and other: "\<And>i j s. j \<noteq> i \<Longrightarrow> moles (f i s) ! j = moles s ! j"
    and est: "\<And>i s. i < length (moles s) \<Longrightarrow> Q (moles (f i s) ! i)"
  shows "j \<in> set js \<Longrightarrow> j < length (moles s) \<Longrightarrow> Q (moles (fold f js s) ! j)"
proof (induction js arbitrary: s)
  case Nil
  then show ?case by simp
next
  case (Cons i js)
  show ?case
  proof (cases "j \<in> set js")
    case True
    then show ?thesis
      using Cons.IH[of "f i s"] Cons.prems by (simp add: len)
  next
    case False
    with Cons.prems have "j = i" by simp
    then show ?thesis
      using False Cons.prems fold_other[of f j js "f i s", OF other] est[of i s] by simp
  qed
qed

lemma fold_timers:
  assumes len: "\<And>i s. length (moles (f i s)) = length (moles s)"
    and other: "\<And>i j s. j \<noteq> i \<Longrightarrow> moles (f i s) ! j = moles s ! j"
    and tm: "\<And>i s. i < length (moles s) \<Longrightarrow>
               timers (f i s) = filter (keep (moles s ! i)) (timers s)"
  shows "distinct js \<Longrightarrow> \<forall>i\<in>set js. i < length (moles s) \<Longrightarrow>
         timers (fold f js s) = filter (\<lambda>t. \<forall>i\<in>set js. keep (moles s ! i) t) (timers s)"
proof (induction js arbitrary: s)
  case Nil
  then show ?case by simp
next
  case (Cons i js)
  have "timers (fold f js (f i s))
      = filter (\<lambda>t. \<forall>k\<in>set js. keep (moles (f i s) ! k) t) (timers (f i s))"
    using Cons.prems by (intro Cons.IH) (simp_all add: len)
  also have "(\<lambda>t. \<forall>k\<in>set js. keep (moles (f i s) ! k) t)
      = (\<lambda>t. \<forall>k\<in>set js. keep (moles s ! k) t)"
  proof -
    have "\<And>k. k \<in> set js \<Longrightarrow> moles (f i s) ! k = moles s ! k"
      using Cons.prems(1) by (intro other) auto
    then show ?thesis by (auto simp: fun_eq_iff)
  qed
  also have "timers (f i s) = filter (keep (moles s ! i)) (timers s)"
    using Cons.prems(2) by (simp add: tm)
  finally show ?case
    by (auto simp: intro: filter_cong)
qed

subsection \<open>Reset\<close>

lemmas reset_step_defs = reset_hideMole_def clearVisibilityTimer_def clearBashTimer_def
  updMole_def clearTimeout_def Let_def

lemma reset_hideMole_fields:
  "running (reset_hideMole i s) = running s"
  "paused (reset_hideMole i s) = paused s"
  "score (reset_hideMole i s) = score s"
  "timeLeft (reset_hideMole i s) = timeLeft s"
  "gameTimer (reset_hideMole i s) = gameTimer s"
  "gameEnded (reset_hideMole i s) = gameEnded s"
  "animationId (reset_hideMole i s) = animationId s"
  "length (moles (reset_hideMole i s)) = length (moles s)"
  by (simp_all add: reset_step_defs split: option.splits)

lemma reset_hideMole_other: "j \<noteq> i \<Longrightarrow> moles (reset_hideMole i s) ! j = moles s ! j"
  by (simp add: reset_step_defs split: option.splits)

lemma reset_hideMole_est:
  "i < length (moles s) \<Longrightarrow>
   (\<lambda>m. \<not> isVisible m \<and> \<not> isHit m \<and> visibilityTimer m = None \<and> bashTimer m = None
       \<and> \<not> isBashAnimating m \<and> bashFrame m = 0) (moles (reset_hideMole i s) ! i)"
  by (simp add: reset_step_defs split: option.splits)

lemma reset_hideMole_timers:
  "i < length (moles s) \<Longrightarrow>
   timers (reset_hideMole i s)
     = filter ((\<lambda>m t. Some (timerId t) \<noteq> visibilityTimer m \<and> Some (timerId t) \<noteq> bashTimer m)
                (moles s ! i)) (timers s)"
  by (cases "visibilityTimer (moles s ! i)"; cases "bashTimer (moles s ! i)")
     (simp_all add: reset_step_defs conj_commute)

lemma clearGameTimer_fields:
  "running (clearGameTimer s) = running s"
  "paused (clearGameTimer s) = paused s"
  "score (clearGameTimer s) = score s"
  "timeLeft (clearGameTimer s) = timeLeft s"
  "gameTimer (clearGameTimer s) = None"
  "gameEnded (clearGameTimer s) = gameEnded s"
  "moles (clearGameTimer s) = moles s"
  "timers (clearGameTimer s) = filter (\<lambda>t. Some (timerId t) \<noteq> gameTimer s) (timers s)"
  by (cases "gameTimer s"; simp add: clearGameTimer_def clearInterval_def clearTimeout_def)+

lemma forEach_reset_fields:
  "running (forEachMole reset_hideMole s) = running s"
  "paused (forEachMole reset_hideMole s) = paused s"
  "score (forEachMole reset_hideMole s) = score s"
  "timeLeft (forEachMole reset_hideMole s) = timeLeft s"
  "gameTimer (forEachMole reset_hideMole s) = gameTimer s"
  "gameEnded (forEachMole reset_hideMole s) = gameEnded s"
  "animationId (forEachMole reset_hideMole s) = animationId s"
  "length (moles (forEachMole reset_hideMole s)) = length (moles s)"
  unfolding forEachMole_def
  using fold_keeps[where P = running and f = reset_hideMole, OF reset_hideMole_fields(1)]
    fold_keeps[where P = paused and f = reset_hideMole, OF reset_hideMole_fields(2)]
    fold_keeps[where P = score and f = reset_hideMole, OF reset_hideMole_fields(3)]
    fold_keeps[where P = timeLeft and f = reset_hideMole, OF reset_hideMole_fields(4)]
    fold_keeps[where P = gameTimer and f = reset_hideMole, OF reset_hideMole_fields(5)]
    fold_keeps[where P = gameEnded and f = reset_hideMole, OF reset_hideMole_fields(6)]
    fold_keeps[where P = animationId and f = reset_hideMole, OF reset_hideMole_fields(7)]
    fold_keeps[where P = "\<lambda>s. length (moles s)" and f = reset_hideMole,
      OF reset_hideMole_fields(8)]
  by blast+

lemma forEach_reset_moles:
  assumes "m \<in> set (moles (forEachMole reset_hideMole s))"
  shows "\<not> isVisible m \<and> \<not> isHit m \<and> visibilityTimer m = None \<and> bashTimer m = None
       \<and> \<not> isBashAnimating m \<and> bashFrame m = 0"
proof -
  from assms obtain j where j: "j < length (moles s)" "m = moles (forEachMole reset_hideMole s) ! j"
    by (auto simp: in_set_conv_nth forEach_reset_fields)
  have "(\<lambda>m. \<not> isVisible m \<and> \<not> isHit m \<and> visibilityTimer m = None \<and> bashTimer m = None
       \<and> \<not> isBashAnimating m \<and> bashFrame m = 0)
       (moles (fold reset_hideMole [0..<length (moles s)] s) ! j)"
  proof (rule fold_establishes[where f = reset_hideMole])
    show "\<And>i s. length (moles (reset_hideMole i s)) = length (moles s)"
      by (rule reset_hideMole_fields)
    show "\<And>i j s. j \<noteq> i \<Longrightarrow> moles (reset_hideMole i s) ! j = moles s ! j"
      by (rule reset_hideMole_other)
    show "\<And>i s. i < length (moles s) \<Longrightarrow>
        \<not> isVisible (moles (reset_hideMole i s) ! i) \<and> \<not> isHit (moles (reset_hideMole i s) ! i)
        \<and> visibilityTimer (moles (reset_hideMole i s) ! i) = None
        \<and> bashTimer (moles (reset_hideMole i s) ! i) = None
        \<and> \<not> isBashAnimating (moles (reset_hideMole i s) ! i)
        \<and> bashFrame (moles (reset_hideMole i s) ! i) = 0"
      using reset_hideMole_est by simp
    show "j \<in> set [0..<length (moles s)]" using j(1) by simp
    show "j < length (moles s)" by (rule j(1))
  qed
  then show ?thesis
    using j(2) by (simp add: forEachMole_def)
qed

lemma forEach_reset_timers:
  "timers (forEachMole reset_hideMole s)
     = filter (\<lambda>t. \<forall>m\<in>set (moles s). Some (timerId t) \<noteq> visibilityTimer m
                                      \<and> Some (timerId t) \<noteq> bashTimer m) (timers s)"
proof -
  let ?keep = "\<lambda>m t. Some (timerId t) \<noteq> visibilityTimer m \<and> Some (timerId t) \<noteq> bashTimer m"
  have "timers (fold reset_hideMole [0..<length (moles s)] s)
      = filter (\<lambda>t. \<forall>i\<in>set [0..<length (moles s)]. ?keep (moles s ! i) t) (timers s)"
    by (rule fold_timers[where keep = ?keep])
       (simp_all add: reset_hideMole_fields reset_hideMole_other reset_hideMole_timers)
  also have "\<dots> = filter (\<lambda>t. \<forall>m\<in>set (moles s). ?keep m t) (timers s)"
    by (rule filter_cong) (auto simp: all_set_conv_all_nth)
  finally show ?thesis
    unfolding forEachMole_def .
qed

text \<open>
  What \<^verbatim>\<open>reset()\<close> does, from every state: score 0, 60 seconds left, not running,
  not paused, (in \<^verbatim>\<open>part_000\<close>) not ended and no stored game timer; every mole has
  \<^verbatim>\<open>isVisible\<close> and \<^verbatim>\<open>isHit\<close> false, no stored visibility or bash timer handle
  and no bash animation. The pending timers afterwards are exactly those whose handle
  was stored neither in \<^verbatim>\<open>gameTimer\<close> nor in a mole's \<^verbatim>\<open>visibilityTimer\<close> or
  \<^verbatim>\<open>bashTimer\<close>.
\<close>

lemma Game_reset_effect:
  "score (Game_reset v s) = 0 \<and> timeLeft (Game_reset v s) = 60
   \<and> \<not> running (Game_reset v s) \<and> \<not> paused (Game_reset v s)
   \<and> (v = Part000 \<longrightarrow> \<not> gameEnded (Game_reset v s))
   \<and> gameTimer (Game_reset v s) = None
   \<and> length (moles (Game_reset v s)) = length (moles s)
   \<and> (\<forall>m\<in>set (moles (Game_reset v s)).
         \<not> isVisible m \<and> \<not> isHit m \<and> visibilityTimer m = None \<and> bashTimer m = None
         \<and> \<not> isBashAnimating m \<and> bashFrame m = 0)
   \<and> timers (Game_reset v s)
       = filter (\<lambda>t. Some (timerId t) \<noteq> gameTimer s
                    \<and> (\<forall>m\<in>set (moles s). Some (timerId t) \<noteq> visibilityTimer m
                                          \<and> Some (timerId t) \<noteq> bashTimer m)) (timers s)"
proof -
  define s3 where "s3 = clearGameTimer
     (if v = Part000
      then s\<lparr>running := False, paused := False, score := 0, timeLeft := 60\<rparr>\<lparr>gameEnded := False\<rparr>
      else s\<lparr>running := False, paused := False, score := 0, timeLeft := 60\<rparr>)"
  define s4 where "s4 = forEachMole reset_hideMole s3"
  have r: "Game_reset v s
      = (case animationId s4 of None \<Rightarrow> s4 | Some h \<Rightarrow> cancelAnimationFrame h s4)"
    unfolding Game_reset_def Let_def s4_def s3_def ..
  have s3: "score s3 = 0" "timeLeft s3 = 60" "\<not> running s3" "\<not> paused s3"
    "v = Part000 \<longrightarrow> \<not> gameEnded s3" "gameTimer s3 = None" "moles s3 = moles s"
    "timers s3 = filter (\<lambda>t. Some (timerId t) \<noteq> gameTimer s) (timers s)"
    by (simp_all add: s3_def clearGameTimer_fields)
  have s4: "score s4 = 0" "timeLeft s4 = 60" "\<not> running s4" "\<not> paused s4"
    "v = Part000 \<longrightarrow> \<not> gameEnded s4" "gameTimer s4 = None"
    "length (moles s4) = length (moles s)"
    using s3 by (simp_all add: s4_def forEach_reset_fields)
  have m4: "\<forall>m\<in>set (moles s4).
         \<not> isVisible m \<and> \<not> isHit m \<and> visibilityTimer m = None \<and> bashTimer m = None
         \<and> \<not> isBashAnimating m \<and> bashFrame m = 0"
    unfolding s4_def using forEach_reset_moles by blast
  have t4: "timers s4 = filter (\<lambda>t. Some (timerId t) \<noteq> gameTimer s
                    \<and> (\<forall>m\<in>set (moles s). Some (timerId t) \<noteq> visibilityTimer m
                                          \<and> Some (timerId t) \<noteq> bashTimer m)) (timers s)"
    unfolding s4_def forEach_reset_timers s3(7,8) by (simp add: conj_commute)
  show ?thesis
  proof (cases "animationId s4")
    case None
    then have "Game_reset v s = s4" unfolding r by simp
    then show ?thesis using s4 m4 t4 by (simp only:) blast
  next
    case (Some h)
    then have e: "Game_reset v s = cancelAnimationFrame h s4" unfolding r by simp
    have c: "score (cancelAnimationFrame h s4) = score s4"
      "timeLeft (cancelAnimationFrame h s4) = timeLeft s4"
      "running (cancelAnimationFrame h s4) = running s4"
      "paused (cancelAnimationFrame h s4) = paused s4"
      "gameEnded (cancelAnimationFrame h s4) = gameEnded s4"
      "gameTimer (cancelAnimationFrame h s4) = gameTimer s4"
      "moles (cancelAnimationFrame h s4) = moles s4"
      "timers (cancelAnimationFrame h s4) = timers s4"
      by (simp_all add: cancelAnimationFrame_def)
    show ?thesis
      unfolding e c using s4 m4 t4 by (simp only:) blast
  qed
qed

text \<open>
  Claim C7 does not hold of the code, and the code falls short of its own comments:
  \<^verbatim>\<open>reset()\<close> announces \<^verbatim>\<open>// Hide all moles and clear their timers\<close> and
  \<^verbatim>\<open>start()\<close> announces
  \<^verbatim>\<open>// Clear any existing mole timers to prevent multiple mole appearances\<close>, but
  both can only cancel the timers whose handles were stored. \<^verbatim>\<open>show()\<close> stores the
  handle of its hide timer; \<^verbatim>\<open>hide()\<close>, \<^verbatim>\<open>hit()\<close> and \<^verbatim>\<open>start()\<close> drop the
  handles of the timers they set. In \<open>sampleBunnyStruck\<close> the timers 3 and 4 (first
  appearance of moles 1 and 2) and 7 (the hide 400 ms after the strike on mole 0) are of
  that kind, and they are still pending after \<^verbatim>\<open>reset()\<close>, which also leaves mole 0
  animating with positive progress. In the next game the stale timer 7 acts on the
  bunny that has just come up: it takes it down and cancels its hide timer 12. A reset
  that follows a completed appearance likewise leaves the next-appearance timer that
  \<^verbatim>\<open>hide()\<close> has set.
\<close>

theorem reset_leaves_timers_pending:
  "map timerId (timers (Game_reset Part000 sampleBunnyStruck)) = [3, 4, 7]
   \<and> map timerCallback (timers (Game_reset Part000 sampleBunnyStruck))
       = [ShowMole 1, ShowMole 2, HideMole 0]
   \<and> isAnimating (moles (Game_reset Part000 sampleBunnyStruck) ! 0)
   \<and> 0 < animationProgress (moles (Game_reset Part000 sampleBunnyStruck) ! 0)
   \<and> isVisible (moles (run Part000 (\<lambda>x. x) (\<lambda>_. 9 / 10) [Reset, Start, TimerFires 9]
                            sampleBunnyStruck) ! 0)
   \<and> visibilityTimer (moles (run Part000 (\<lambda>x. x) (\<lambda>_. 9 / 10) [Reset, Start, TimerFires 9]
                                  sampleBunnyStruck) ! 0) = Some 12
   \<and> \<not> isVisible (moles (run Part000 (\<lambda>x. x) (\<lambda>_. 9 / 10)
                              [Reset, Start, TimerFires 9, TimerFires 7] sampleBunnyStruck) ! 0)
   \<and> map timerId (timers (run Part000 (\<lambda>x. x) (\<lambda>_. 9 / 10)
                              [Reset, Start, TimerFires 9, TimerFires 7] sampleBunnyStruck))
       = [3, 4, 8, 10, 11, 13]
   \<and> map timerCallback
         (timers (run Part000 (\<lambda>x. x) (\<lambda>_. 9 / 10) [Start, TimerFires 2, TimerFires 5, Reset]
                    (initialState (\<lambda>x. x) 400)))
       = [ShowMole 1, ShowMole 2, ShowMole 0]"
proof -
  have a: "map timerId (timers (Game_reset Part000 sampleBunnyStruck)) = [3, 4, 7]"
    "map timerCallback (timers (Game_reset Part000 sampleBunnyStruck))
       = [ShowMole 1, ShowMole 2, HideMole 0]"
    "isAnimating (moles (Game_reset Part000 sampleBunnyStruck) ! 0)"
    "0 < animationProgress (moles (Game_reset Part000 sampleBunnyStruck) ! 0)"
    by code_simp+
  have b: "isVisible (moles (run Part000 (\<lambda>x. x) (\<lambda>_. 9 / 10) [Reset, Start, TimerFires 9]
                            sampleBunnyStruck) ! 0)"
    "visibilityTimer (moles (run Part000 (\<lambda>x. x) (\<lambda>_. 9 / 10) [Reset, Start, TimerFires 9]
                                  sampleBunnyStruck) ! 0) = Some 12"
    by code_simp+
  have c: "\<not> isVisible (moles (run Part000 (\<lambda>x. x) (\<lambda>_. 9 / 10)
                              [Reset, Start, TimerFires 9, TimerFires 7] sampleBunnyStruck) ! 0)"
    "map timerId (timers (run Part000 (\<lambda>x. x) (\<lambda>_. 9 / 10)
                              [Reset, Start, TimerFires 9, TimerFires 7] sampleBunnyStruck))
       = [3, 4, 8, 10, 11, 13]"
    by code_simp+
  have d: "map timerCallback
         (timers (run Part000 (\<lambda>x. x) (\<lambda>_. 9 / 10) [Start, TimerFires 2, TimerFires 5, Reset]
                    (initialState (\<lambda>x. x) 400)))
       = [ShowMole 1, ShowMole 2, ShowMole 0]"
    by code_simp
  show ?thesis
    using a b c d by (intro conjI)
qed

subsection \<open>What the browser primitives change\<close>

lemma prim_fst [simp]:
  "fst (setTimeout cb d s) = nextTimerId s"
  "fst (setInterval cb d s) = nextTimerId s"
  "fst (random rng s) = rng (rngPos s)"
  "fst (requestAnimationFrame s) = nextFrameId s"
  by (simp_all add: setTimeout_def setInterval_def random_def requestAnimationFrame_def)

lemma setTimeout_proj [simp]:
  "running (snd (setTimeout cb d s)) = running s"
  "paused (snd (setTimeout cb d s)) = paused s"
  "score (snd (setTimeout cb d s)) = score s"
  "timeLeft (snd (setTimeout cb d s)) = timeLeft s"
  "gameTimer (snd (setTimeout cb d s)) = gameTimer s"
  "moles (snd (setTimeout cb d s)) = moles s"
  "difficultyLevel (snd (setTimeout cb d s)) = difficultyLevel s"
  "gameEnded (snd (setTimeout cb d s)) = gameEnded s"
  "animationId (snd (setTimeout cb d s)) = animationId s"
  "timers (snd (setTimeout cb d s)) = timers s @ [\<lparr>timerId = nextTimerId s, timerDelay = d, timerCallback = cb\<rparr>]"
  "nextTimerId (snd (setTimeout cb d s)) = Suc (nextTimerId s)"
  "frames (snd (setTimeout cb d s)) = frames s"
  "nextFrameId (snd (setTimeout cb d s)) = nextFrameId s"
  "rngPos (snd (setTimeout cb d s)) = rngPos s"
  by (simp_all add: setTimeout_def setInterval_def clearTimeout_def clearInterval_def random_def
      requestAnimationFrame_def cancelAnimationFrame_def updMole_def getDifficultySettings_def Let_def)

lemma setInterval_proj [simp]:
  "running (snd (setInterval cb d s)) = running s"
  "paused (snd (setInterval cb d s)) = paused s"
  "score (snd (setInterval cb d s)) = score s"
  "timeLeft (snd (setInterval cb d s)) = timeLeft s"
  "gameTimer (snd (setInterval cb d s)) = gameTimer s"
  "moles (snd (setInterval cb d s)) = moles s"
  "difficultyLevel (snd (setInterval cb d s)) = difficultyLevel s"
  "gameEnded (snd (setInterval cb d s)) = gameEnded s"
  "animationId (snd (setInterval cb d s)) = animationId s"
  "timers (snd (setInterval cb d s)) = timers s @ [\<lparr>timerId = nextTimerId s, timerDelay = d, timerCallback = cb\<rparr>]"
  "nextTimerId (snd (setInterval cb d s)) = Suc (nextTimerId s)"
  "frames (snd (setInterval cb d s)) = frames s"
  "nextFrameId (snd (setInterval cb d s)) = nextFrameId s"
  "rngPos (snd (setInterval cb d s)) = rngPos s"
  by (simp_all add: setTimeout_def setInterval_def clearTimeout_def clearInterval_def random_def
      requestAnimationFrame_def cancelAnimationFrame_def updMole_def getDifficultySettings_def Let_def)

lemma random_proj [simp]:
  "running (snd (random rng s)) = running s"
  "paused (snd (random rng s)) = paused s"
  "score (snd (random rng s)) = score s"
  "timeLeft (snd (random rng s)) = timeLeft s"
  "gameTimer (snd (random rng s)) = gameTimer s"
  "moles (snd (random rng s)) = moles s"
  "difficultyLevel (snd (random rng s)) = difficultyLevel s"
  "gameEnded (snd (random rng s)) = gameEnded s"
  "animationId (snd (random rng s)) = animationId s"
  "timers (snd (random rng s)) = timers s"
  "nextTimerId (snd (random rng s)) = nextTimerId s"
  "frames (snd (random rng s)) = frames s"
  "nextFrameId (snd (random rng s)) = nextFrameId s"
  "rngPos (snd (random rng s)) = Suc (rngPos s)"
  by (simp_all add: setTimeout_def setInterval_def clearTimeout_def clearInterval_def random_def
      requestAnimationFrame_def cancelAnimationFrame_def updMole_def getDifficultySettings_def Let_def)

lemma getDifficultySettings_proj [simp]:
  "running (snd (getDifficultySettings v s)) = running s"
  "paused (snd (getDifficultySettings v s)) = paused s"
  "score (snd (getDifficultySettings v s)) = score s"
  "timeLeft (snd (getDifficultySettings v s)) = timeLeft s"
  "gameTimer (snd (getDifficultySettings v s)) = gameTimer s"
  "moles (snd (getDifficultySettings v s)) = moles s"
  "difficultyLevel (snd (getDifficultySettings v s)) = min ((60 - timeLeft s) div 10) 5"
  "gameEnded (snd (getDifficultySettings v s)) = gameEnded s"
  "animationId (snd (getDifficultySettings v s)) = animationId s"
  "timers (snd (getDifficultySettings v s)) = timers s"
  "nextTimerId (snd (getDifficultySettings v s)) = nextTimerId s"
  "frames (snd (getDifficultySettings v s)) = frames s"
  "nextFrameId (snd (getDifficultySettings v s)) = nextFrameId s"
  "rngPos (snd (getDifficultySettings v s)) = rngPos s"
  by (simp_all add: setTimeout_def setInterval_def clearTimeout_def clearInterval_def random_def
      requestAnimationFrame_def cancelAnimationFrame_def updMole_def getDifficultySettings_def Let_def floor_tenth)

lemma clearTimeout_proj [simp]:
  "running (clearTimeout h s) = running s"
  "paused (clearTimeout h s) = paused s"
  "score (clearTimeout h s) = score s"
  "timeLeft (clearTimeout h s) = timeLeft s"
  "gameTimer (clearTimeout h s) = gameTimer s"
  "moles (clearTimeout h s) = moles s"
  "difficultyLevel (clearTimeout h s) = difficultyLevel s"
  "gameEnded (clearTimeout h s) = gameEnded s"
  "animationId (clearTimeout h s) = animationId s"
  "timers (clearTimeout h s) = filter (\<lambda>t. timerId t \<noteq> h) (timers s)"
  "nextTimerId (clearTimeout h s) = nextTimerId s"
  "frames (clearTimeout h s) = frames s"
  "nextFrameId (clearTimeout h s) = nextFrameId s"
  "rngPos (clearTimeout h s) = rngPos s"
  by (simp_all add: setTimeout_def setInterval_def clearTimeout_def clearInterval_def random_def
      requestAnimationFrame_def cancelAnimationFrame_def updMole_def getDifficultySettings_def Let_def)

lemma clearInterval_proj [simp]:
  "running (clearInterval h s) = running s"
  "paused (clearInterval h s) = paused s"
  "score (clearInterval h s) = score s"
  "timeLeft (clearInterval h s) = timeLeft s"
  "gameTimer (clearInterval h s) = gameTimer s"
  "moles (clearInterval h s) = moles s"
  "difficultyLevel (clearInterval h s) = difficultyLevel s"
  "gameEnded (clearInterval h s) = gameEnded s"
  "animationId (clearInterval h s) = animationId s"
  "timers (clearInterval h s) = filter (\<lambda>t. timerId t \<noteq> h) (timers s)"
  "nextTimerId (clearInterval h s) = nextTimerId s"
  "frames (clearInterval h s) = frames s"
  "nextFrameId (clearInterval h s) = nextFrameId s"
  "rngPos (clearInterval h s) = rngPos s"
  by (simp_all add: setTimeout_def setInterval_def clearTimeout_def clearInterval_def random_def
      requestAnimationFrame_def cancelAnimationFrame_def updMole_def getDifficultySettings_def Let_def)

lemma requestAnimationFrame_proj [simp]:
  "running (snd (requestAnimationFrame s)) = running s"
  "paused (snd (requestAnimationFrame s)) = paused s"
  "score (snd (requestAnimationFrame s)) = score s"
  "timeLeft (snd (requestAnimationFrame s)) = timeLeft s"
  "gameTimer (snd (requestAnimationFrame s)) = gameTimer s"
  "moles (snd (requestAnimationFrame s)) = moles s"
  "difficultyLevel (snd (requestAnimationFrame s)) = difficultyLevel s"
  "gameEnded (snd (requestAnimationFrame s)) = gameEnded s"
  "animationId (snd (requestAnimationFrame s)) = animationId s"
  "timers (snd (requestAnimationFrame s)) = timers s"
  "nextTimerId (snd (requestAnimationFrame s)) = nextTimerId s"
  "frames (snd (requestAnimationFrame s)) = frames s @ [nextFrameId s]"
  "nextFrameId (snd (requestAnimationFrame s)) = Suc (nextFrameId s)"
  "rngPos (snd (requestAnimationFrame s)) = rngPos s"
  by (simp_all add: setTimeout_def setInterval_def clearTimeout_def clearInterval_def random_def
      requestAnimationFrame_def cancelAnimationFrame_def updMole_def getDifficultySettings_def Let_def)

lemma cancelAnimationFrame_proj [simp]:
  "running (cancelAnimationFrame h s) = running s"
  "paused (cancelAnimationFrame h s) = paused s"
  "score (cancelAnimationFrame h s) = score s"
  "timeLeft (cancelAnimationFrame h s) = timeLeft s"
  "gameTimer (cancelAnimationFrame h s) = gameTimer s"
  "moles (cancelAnimationFrame h s) = moles s"
  "difficultyLevel (cancelAnimationFrame h s) = difficultyLevel s"
  "gameEnded (cancelAnimationFrame h s) = gameEnded s"
  "animationId (cancelAnimationFrame h s) = animationId s"
  "timers (cancelAnimationFrame h s) = timers s"
  "nextTimerId (cancelAnimationFrame h s) = nextTimerId s"
  "frames (cancelAnimationFrame h s) = filter (\<lambda>f. f \<noteq> h) (frames s)"
  "nextFrameId (cancelAnimationFrame h s) = nextFrameId s"
  "rngPos (cancelAnimationFrame h s) = rngPos s"
  by (simp_all add: setTimeout_def setInterval_def clearTimeout_def clearInterval_def random_def
      requestAnimationFrame_def cancelAnimationFrame_def updMole_def getDifficultySettings_def Let_def)

lemma updMole_proj [simp]:
  "running (updMole i f s) = running s"
  "paused (updMole i f s) = paused s"
  "score (updMole i f s) = score s"
  "timeLeft (updMole i f s) = timeLeft s"
  "gameTimer (updMole i f s) = gameTimer s"
  "moles (updMole i f s) = (moles s)[i := f (moles s ! i)]"
  "difficultyLevel (updMole i f s) = difficultyLevel s"
  "gameEnded (updMole i f s) = gameEnded s"
  "animationId (updMole i f s) = animationId s"
  "timers (updMole i f s) = timers s"
  "nextTimerId (updMole i f s) = nextTimerId s"
  "frames (updMole i f s) = frames s"
  "nextFrameId (updMole i f s) = nextFrameId s"
  "rngPos (updMole i f s) = rngPos s"
  by (simp_all add: setTimeout_def setInterval_def clearTimeout_def clearInterval_def random_def
      requestAnimationFrame_def cancelAnimationFrame_def updMole_def getDifficultySettings_def Let_def)

subsection \<open>Animation progress\<close>

lemma progressOk_iff:
  "progressOk s = (\<forall>j<length (moles s).
      0 \<le> animationProgress (moles s ! j) \<and> animationProgress (moles s ! j) \<le> 1)"
  by (simp add: progressOk_def list_all_length)

lemma progressOk_local:
  assumes "progressOk s"
    and "length (moles s') = length (moles s)"
    and "\<And>j. j \<noteq> i \<Longrightarrow> moles s' ! j = moles s ! j"
    and "i < length (moles s) \<Longrightarrow>
           0 \<le> animationProgress (moles s' ! i) \<and> animationProgress (moles s' ! i) \<le> 1"
  shows "progressOk s'"
  unfolding progressOk_iff
proof (intro allI impI)
  fix j assume "j < length (moles s')"
  then have j: "j < length (moles s)" using assms(2) by simp
  show "0 \<le> animationProgress (moles s' ! j) \<and> animationProgress (moles s' ! j) \<le> 1"
  proof (cases "j = i")
    case True
    then show ?thesis using assms(4) j by simp
  next
    case False
    then show ?thesis using assms(1,3) j by (simp add: progressOk_iff)
  qed
qed

lemma progressOk_same: "moles s' = moles s \<Longrightarrow> progressOk s \<Longrightarrow> progressOk s'"
  by (simp add: progressOk_def)

lemma clearVisibilityTimer_moles:
  "length (moles (clearVisibilityTimer i s)) = length (moles s)"
  "j \<noteq> i \<Longrightarrow> moles (clearVisibilityTimer i s) ! j = moles s ! j"
  "i < length (moles s) \<Longrightarrow>
     moles (clearVisibilityTimer i s) ! i = (moles s ! i)\<lparr>visibilityTimer := None\<rparr>"
  by (cases "visibilityTimer (moles s ! i)"; simp add: clearVisibilityTimer_def)+

lemma Mole_show_length:
  "length (moles (state_of (Mole_show v rnd rng i s))) = length (moles s)"
  by (simp add: Mole_show_def Let_def split_def split: option.splits)

lemma Mole_show_other:
  "j \<noteq> i \<Longrightarrow> moles (state_of (Mole_show v rnd rng i s)) ! j = moles s ! j"
  by (simp add: Mole_show_def Let_def split_def split: option.splits)

lemma Mole_show_progress:
  "i < length (moles s) \<Longrightarrow>
   animationProgress (moles (state_of (Mole_show v rnd rng i s)) ! i) = 0
   \<or> animationProgress (moles (state_of (Mole_show v rnd rng i s)) ! i)
       = animationProgress (moles s ! i)"
  by (simp add: Mole_show_def Let_def split_def split: option.splits)

lemma clearBashTimer_moles:
  "length (moles (clearBashTimer i s)) = length (moles s)"
  "j \<noteq> i \<Longrightarrow> moles (clearBashTimer i s) ! j = moles s ! j"
  "i < length (moles s) \<Longrightarrow>
     moles (clearBashTimer i s) ! i = (moles s ! i)\<lparr>bashTimer := None\<rparr>"
  by (cases "bashTimer (moles s ! i)"; simp add: clearBashTimer_def)+

lemma clearGameTimer_moles [simp]: "moles (clearGameTimer s) = moles s"
  by (cases "gameTimer s") (simp_all add: clearGameTimer_def)

lemma progressOk_Mole_show:
  assumes "progressOk s"
  shows "progressOk (state_of (Mole_show v rnd rng i s))"
proof (rule progressOk_local[OF assms, where i = i])
  show "length (moles (state_of (Mole_show v rnd rng i s))) = length (moles s)"
    by (rule Mole_show_length)
  show "\<And>j. j \<noteq> i \<Longrightarrow> moles (state_of (Mole_show v rnd rng i s)) ! j = moles s ! j"
    by (rule Mole_show_other)
  show "i < length (moles s) \<Longrightarrow>
      0 \<le> animationProgress (moles (state_of (Mole_show v rnd rng i s)) ! i)
      \<and> animationProgress (moles (state_of (Mole_show v rnd rng i s)) ! i) \<le> 1"
    using Mole_show_progress[where i = i and s = s and v = v and rnd = rnd and rng = rng] assms by (auto simp: progressOk_iff)
qed

lemma Mole_hide_length:
  "length (moles (state_of (Mole_hide v rnd rng i s))) = length (moles s)"
  by (simp add: Mole_hide_def Let_def split_def clearVisibilityTimer_moles clearBashTimer_moles
      split: option.splits)

lemma Mole_hide_other:
  "j \<noteq> i \<Longrightarrow> moles (state_of (Mole_hide v rnd rng i s)) ! j = moles s ! j"
  by (simp add: Mole_hide_def Let_def split_def clearVisibilityTimer_moles clearBashTimer_moles
      split: option.splits)

lemma Mole_hide_progress:
  "i < length (moles s) \<Longrightarrow>
   animationProgress (moles (state_of (Mole_hide v rnd rng i s)) ! i) = animationProgress (moles s ! i)"
  by (simp add: Mole_hide_def Let_def split_def clearVisibilityTimer_moles clearBashTimer_moles
      split: option.splits)

lemma progressOk_Mole_hide:
  assumes "progressOk s"
  shows "progressOk (state_of (Mole_hide v rnd rng i s))"
proof (rule progressOk_local[OF assms, where i = i])
  show "length (moles (state_of (Mole_hide v rnd rng i s))) = length (moles s)"
    by (rule Mole_hide_length)
  show "\<And>j. j \<noteq> i \<Longrightarrow> moles (state_of (Mole_hide v rnd rng i s)) ! j = moles s ! j"
    by (rule Mole_hide_other)
  show "i < length (moles s) \<Longrightarrow>
      0 \<le> animationProgress (moles (state_of (Mole_hide v rnd rng i s)) ! i)
      \<and> animationProgress (moles (state_of (Mole_hide v rnd rng i s)) ! i) \<le> 1"
    using Mole_hide_progress[of i s] assms by (auto simp: progressOk_iff)
qed

lemma Mole_hit_length:
  "length (moles (snd (Mole_hit i s))) = length (moles s)"
  by (simp add: Mole_hit_def Mole_startBashAnimation_def Let_def split_def clearVisibilityTimer_moles clearBashTimer_moles
      split: option.splits)

lemma Mole_hit_other:
  "j \<noteq> i \<Longrightarrow> moles (snd (Mole_hit i s)) ! j = moles s ! j"
  by (simp add: Mole_hit_def Mole_startBashAnimation_def Let_def split_def clearVisibilityTimer_moles clearBashTimer_moles
      split: option.splits)

lemma Mole_hit_progress:
  "i < length (moles s) \<Longrightarrow>
   animationProgress (moles (snd (Mole_hit i s)) ! i) = animationProgress (moles s ! i)"
  by (simp add: Mole_hit_def Mole_startBashAnimation_def Let_def split_def clearVisibilityTimer_moles clearBashTimer_moles
      split: option.splits)

lemma progressOk_Mole_hit:
  assumes "progressOk s"
  shows "progressOk (snd (Mole_hit i s))"
proof (rule progressOk_local[OF assms, where i = i])
  show "length (moles (snd (Mole_hit i s))) = length (moles s)"
    by (rule Mole_hit_length)
  show "\<And>j. j \<noteq> i \<Longrightarrow> moles (snd (Mole_hit i s)) ! j = moles s ! j"
    by (rule Mole_hit_other)
  show "i < length (moles s) \<Longrightarrow>
      0 \<le> animationProgress (moles (snd (Mole_hit i s)) ! i)
      \<and> animationProgress (moles (snd (Mole_hit i s)) ! i) \<le> 1"
    using Mole_hit_progress[of i s] assms by (auto simp: progressOk_iff)
qed

lemma bashFrame2Callback_length:
  "length (moles (bashFrame2Callback i s)) = length (moles s)"
  by (simp add: bashFrame2Callback_def Let_def split_def clearVisibilityTimer_moles clearBashTimer_moles
      split: option.splits)

lemma bashFrame2Callback_other:
  "j \<noteq> i \<Longrightarrow> moles (bashFrame2Callback i s) ! j = moles s ! j"
  by (simp add: bashFrame2Callback_def Let_def split_def clearVisibilityTimer_moles clearBashTimer_moles
      split: option.splits)

lemma bashFrame2Callback_progress:
  "i < length (moles s) \<Longrightarrow>
   animationProgress (moles (bashFrame2Callback i s) ! i) = animationProgress (moles s ! i)"
  by (simp add: bashFrame2Callback_def Let_def split_def clearVisibilityTimer_moles clearBashTimer_moles
      split: option.splits)

lemma progressOk_bashFrame2Callback:
  assumes "progressOk s"
  shows "progressOk (bashFrame2Callback i s)"
proof (rule progressOk_local[OF assms, where i = i])
  show "length (moles (bashFrame2Callback i s)) = length (moles s)"
    by (rule bashFrame2Callback_length)
  show "\<And>j. j \<noteq> i \<Longrightarrow> moles (bashFrame2Callback i s) ! j = moles s ! j"
    by (rule bashFrame2Callback_other)
  show "i < length (moles s) \<Longrightarrow>
      0 \<le> animationProgress (moles (bashFrame2Callback i s) ! i)
      \<and> animationProgress (moles (bashFrame2Callback i s) ! i) \<le> 1"
    using bashFrame2Callback_progress[of i s] assms by (auto simp: progressOk_iff)
qed

lemma bashEndCallback_length:
  "length (moles (bashEndCallback i s)) = length (moles s)"
  by (simp add: bashEndCallback_def Let_def split_def clearVisibilityTimer_moles clearBashTimer_moles
      split: option.splits)

lemma bashEndCallback_other:
  "j \<noteq> i \<Longrightarrow> moles (bashEndCallback i s) ! j = moles s ! j"
  by (simp add: bashEndCallback_def Let_def split_def clearVisibilityTimer_moles clearBashTimer_moles
      split: option.splits)

lemma bashEndCallback_progress:
  "i < length (moles s) \<Longrightarrow>
   animationProgress (moles (bashEndCallback i s) ! i) = animationProgress (moles s ! i)"
  by (simp add: bashEndCallback_def Let_def split_def clearVisibilityTimer_moles clearBashTimer_moles
      split: option.splits)

lemma progressOk_bashEndCallback:
  assumes "progressOk s"
  shows "progressOk (bashEndCallback i s)"
proof (rule progressOk_local[OF assms, where i = i])
  show "length (moles (bashEndCallback i s)) = length (moles s)"
    by (rule bashEndCallback_length)
  show "\<And>j. j \<noteq> i \<Longrightarrow> moles (bashEndCallback i s) ! j = moles s ! j"
    by (rule bashEndCallback_other)
  show "i < length (moles s) \<Longrightarrow>
      0 \<le> animationProgress (moles (bashEndCallback i s) ! i)
      \<and> animationProgress (moles (bashEndCallback i s) ! i) \<le> 1"
    using bashEndCallback_progress[of i s] assms by (auto simp: progressOk_iff)
qed

lemma start_scheduleMole_length:
  "length (moles (start_scheduleMole rnd rng i s)) = length (moles s)"
  by (simp add: start_scheduleMole_def Let_def split_def clearVisibilityTimer_moles clearBashTimer_moles
      split: option.splits)

lemma start_scheduleMole_other:
  "j \<noteq> i \<Longrightarrow> moles (start_scheduleMole rnd rng i s) ! j = moles s ! j"
  by (simp add: start_scheduleMole_def Let_def split_def clearVisibilityTimer_moles clearBashTimer_moles
      split: option.splits)

lemma start_scheduleMole_progress:
  "i < length (moles s) \<Longrightarrow>
   animationProgress (moles (start_scheduleMole rnd rng i s) ! i) = animationProgress (moles s ! i)"
  by (simp add: start_scheduleMole_def Let_def split_def clearVisibilityTimer_moles clearBashTimer_moles
      split: option.splits)

lemma progressOk_start_scheduleMole:
  assumes "progressOk s"
  shows "progressOk (start_scheduleMole rnd rng i s)"
proof (rule progressOk_local[OF assms, where i = i])
  show "length (moles (start_scheduleMole rnd rng i s)) = length (moles s)"
    by (rule start_scheduleMole_length)
  show "\<And>j. j \<noteq> i \<Longrightarrow> moles (start_scheduleMole rnd rng i s) ! j = moles s ! j"
    by (rule start_scheduleMole_other)
  show "i < length (moles s) \<Longrightarrow>
      0 \<le> animationProgress (moles (start_scheduleMole rnd rng i s) ! i)
      \<and> animationProgress (moles (start_scheduleMole rnd rng i s) ! i) \<le> 1"
    using start_scheduleMole_progress[of i s] assms by (auto simp: progressOk_iff)
qed

lemma start_clearMole_length:
  "length (moles (start_clearMole i s)) = length (moles s)"
  by (simp add: start_clearMole_def Let_def clearVisibilityTimer_moles clearBashTimer_moles)

lemma start_clearMole_other:
  "j \<noteq> i \<Longrightarrow> moles (start_clearMole i s) ! j = moles s ! j"
  by (simp add: start_clearMole_def Let_def clearVisibilityTimer_moles clearBashTimer_moles)

lemma start_clearMole_progress:
  "i < length (moles s) \<Longrightarrow>
   animationProgress (moles (start_clearMole i s) ! i) = 0
   \<or> animationProgress (moles (start_clearMole i s) ! i) = animationProgress (moles s ! i)"
  by (simp add: start_clearMole_def Let_def clearVisibilityTimer_moles clearBashTimer_moles)

lemma progressOk_start_clearMole:
  assumes "progressOk s"
  shows "progressOk (start_clearMole i s)"
proof (rule progressOk_local[OF assms, where i = i])
  show "length (moles (start_clearMole i s)) = length (moles s)"
    by (rule start_clearMole_length)
  show "\<And>j. j \<noteq> i \<Longrightarrow> moles (start_clearMole i s) ! j = moles s ! j"
    by (rule start_clearMole_other)
  show "i < length (moles s) \<Longrightarrow>
      0 \<le> animationProgress (moles (start_clearMole i s) ! i)
      \<and> animationProgress (moles (start_clearMole i s) ! i) \<le> 1"
    using start_clearMole_progress[of i s] assms by (auto simp: progressOk_iff)
qed

lemma gameOver_hideMole_length:
  "length (moles (gameOver_hideMole v i s)) = length (moles s)"
  by (simp add: gameOver_hideMole_def Let_def clearVisibilityTimer_moles clearBashTimer_moles)

lemma gameOver_hideMole_other:
  "j \<noteq> i \<Longrightarrow> moles (gameOver_hideMole v i s) ! j = moles s ! j"
  by (simp add: gameOver_hideMole_def Let_def clearVisibilityTimer_moles clearBashTimer_moles)

lemma gameOver_hideMole_progress:
  "i < length (moles s) \<Longrightarrow>
   animationProgress (moles (gameOver_hideMole v i s) ! i) = 0
   \<or> animationProgress (moles (gameOver_hideMole v i s) ! i) = animationProgress (moles s ! i)"
  by (simp add: gameOver_hideMole_def Let_def clearVisibilityTimer_moles clearBashTimer_moles)

lemma progressOk_gameOver_hideMole:
  assumes "progressOk s"
  shows "progressOk (gameOver_hideMole v i s)"
proof (rule progressOk_local[OF assms, where i = i])
  show "length (moles (gameOver_hideMole v i s)) = length (moles s)"
    by (rule gameOver_hideMole_length)
  show "\<And>j. j \<noteq> i \<Longrightarrow> moles (gameOver_hideMole v i s) ! j = moles s ! j"
    by (rule gameOver_hideMole_other)
  show "i < length (moles s) \<Longrightarrow>
      0 \<le> animationProgress (moles (gameOver_hideMole v i s) ! i)
      \<and> animationProgress (moles (gameOver_hideMole v i s) ! i) \<le> 1"
    using gameOver_hideMole_progress[of i s v] assms by (auto simp: progressOk_iff)
qed

lemma reset_hideMole_length:
  "length (moles (reset_hideMole i s)) = length (moles s)"
  by (simp add: reset_hideMole_def Let_def clearVisibilityTimer_moles clearBashTimer_moles)

lemma reset_hideMole_progress:
  "i < length (moles s) \<Longrightarrow>
   animationProgress (moles (reset_hideMole i s) ! i) = 0
   \<or> animationProgress (moles (reset_hideMole i s) ! i) = animationProgress (moles s ! i)"
  by (simp add: reset_hideMole_def Let_def clearVisibilityTimer_moles clearBashTimer_moles)

lemma progressOk_reset_hideMole:
  assumes "progressOk s"
  shows "progressOk (reset_hideMole i s)"
proof (rule progressOk_local[OF assms, where i = i])
  show "length (moles (reset_hideMole i s)) = length (moles s)"
    by (rule reset_hideMole_length)
  show "\<And>j. j \<noteq> i \<Longrightarrow> moles (reset_hideMole i s) ! j = moles s ! j"
    by (rule reset_hideMole_other)
  show "i < length (moles s) \<Longrightarrow>
      0 \<le> animationProgress (moles (reset_hideMole i s) ! i)
      \<and> animationProgress (moles (reset_hideMole i s) ! i) \<le> 1"
    using reset_hideMole_progress[of i s] assms by (auto simp: progressOk_iff)
qed

lemma Mole_update_length:
  "length (moles (state_of (Mole_update v rnd i s))) = length (moles s)"
  by (simp add: Mole_update_def Let_def split_def split: option.splits)

lemma Mole_update_other:
  "j \<noteq> i \<Longrightarrow> moles (state_of (Mole_update v rnd i s)) ! j = moles s ! j"
  by (simp add: Mole_update_def Let_def split_def split: option.splits)

lemma Mole_update_progress:
  assumes "i < length (moles s)" and "isAnimating (moles s ! i)" and "timeLeft s \<le> 60"
  shows "animationProgress (moles (state_of (Mole_update v rnd i s)) ! i)
     = (let d = difficultySettings v ! nat (min ((60 - timeLeft s) div 10) 5);
            p = animationProgress (moles s ! i)
        in if isVisible (moles s ! i) then min 1 (rnd (p + rnd (animationSpeed d)))
           else max 0 (rnd (p - rnd (animationSpeed d))))"
  using assms
  by (simp add: Mole_update_def Let_def getDifficultySettings_eq min_def max_def)

lemma Mole_update_bounds:
  assumes "roundsLikeDouble rnd" and "i < length (moles s)"
    and "0 \<le> animationProgress (moles s ! i)" and "animationProgress (moles s ! i) \<le> 1"
  shows "0 \<le> animationProgress (moles (state_of (Mole_update v rnd i s)) ! i)
       \<and> animationProgress (moles (state_of (Mole_update v rnd i s)) ! i) \<le> 1"
proof (cases "isAnimating (moles s ! i)")
  case False
  then show ?thesis using assms by (simp add: Mole_update_def)
next
  case True
  show ?thesis
  proof (cases "fst (getDifficultySettings v s)")
    case None
    then show ?thesis using assms True
      by (simp add: Mole_update_def Let_def split_def)
  next
    case (Some d)
    then have "d \<in> set (difficultySettings v)"
      by (auto simp: getDifficultySettings_def Let_def split: if_splits)
    then obtain k where "k < 6" "d = difficultySettings v ! k"
      by (auto simp: in_set_conv_nth length_difficultySettings)
    then have "0 \<le> animationSpeed d"
      using table_ranges[where k = k and v = v] by simp
    then have "rnd 0 \<le> rnd (animationSpeed d)"
      by (rule rnd_mono[OF assms(1)])
    then have sp: "0 \<le> rnd (animationSpeed d)"
      by (simp only: rnd_zero[OF assms(1)])
    have "rnd 0 \<le> rnd (animationProgress (moles s ! i) + rnd (animationSpeed d))"
      by (rule rnd_mono[OF assms(1)]) (use sp assms(3) in simp)
    then have up: "0 \<le> rnd (animationProgress (moles s ! i) + rnd (animationSpeed d))"
      by (simp only: rnd_zero[OF assms(1)])
    have "rnd (animationProgress (moles s ! i) - rnd (animationSpeed d)) \<le> rnd 1"
      by (rule rnd_mono[OF assms(1)]) (use sp assms(4) in simp)
    then have down: "rnd (animationProgress (moles s ! i) - rnd (animationSpeed d)) \<le> 1"
      by (simp only: rnd_one[OF assms(1)])
    show ?thesis using assms(2) True Some up down
      by (simp add: Mole_update_def Let_def split_def)
  qed
qed

lemma progressOk_Mole_update:
  assumes "roundsLikeDouble rnd" and "progressOk s"
  shows "progressOk (state_of (Mole_update v rnd i s))"
proof (rule progressOk_local[OF assms(2), where i = i])
  show "length (moles (state_of (Mole_update v rnd i s))) = length (moles s)"
    by (rule Mole_update_length)
  show "\<And>j. j \<noteq> i \<Longrightarrow> moles (state_of (Mole_update v rnd i s)) ! j = moles s ! j"
    by (rule Mole_update_other)
  show "i < length (moles s) \<Longrightarrow>
      0 \<le> animationProgress (moles (state_of (Mole_update v rnd i s)) ! i)
      \<and> animationProgress (moles (state_of (Mole_update v rnd i s)) ! i) \<le> 1"
    using Mole_update_bounds[OF assms(1), where i = i and s = s and v = v] assms(2)
    by (auto simp: progressOk_iff)
qed

lemma fold_invariant:
  assumes "\<And>i s. I s \<Longrightarrow> I (f i s)" and "I s"
  shows "I (fold f js s)"
  using assms(2) by (induction js arbitrary: s) (simp_all add: assms(1))

lemma forEachFrom_invariant:
  assumes "\<And>i s. I s \<Longrightarrow> I (state_of (f i s))" and "I s"
  shows "I (state_of (forEachFrom f js s))"
  using assms(2)
proof (induction js arbitrary: s)
  case Nil
  then show ?case by simp
next
  case (Cons i js)
  show ?case
  proof (cases "f i s")
    case (Returned s')
    then have "I s'" using assms(1)[OF Cons.prems, of i] by simp
    then show ?thesis using Cons.IH Returned by simp
  next
    case (Threw e s')
    then have "I s'" using assms(1)[OF Cons.prems, of i] by simp
    then show ?thesis using Threw by simp
  qed
qed

lemma progressOk_fields [simp]:
  "progressOk (s\<lparr>running := a\<rparr>) = progressOk s"
  "progressOk (s\<lparr>paused := a\<rparr>) = progressOk s"
  "progressOk (s\<lparr>score := b\<rparr>) = progressOk s"
  "progressOk (s\<lparr>timeLeft := b\<rparr>) = progressOk s"
  "progressOk (s\<lparr>gameTimer := c\<rparr>) = progressOk s"
  "progressOk (s\<lparr>difficultyLevel := b\<rparr>) = progressOk s"
  "progressOk (s\<lparr>gameEnded := a\<rparr>) = progressOk s"
  "progressOk (s\<lparr>animationId := c\<rparr>) = progressOk s"
  by (simp_all add: progressOk_def)

lemma progressOk_prims [simp]:
  "progressOk (snd (setTimeout cb d s)) = progressOk s"
  "progressOk (snd (setInterval cb d s)) = progressOk s"
  "progressOk (clearTimeout h s) = progressOk s"
  "progressOk (snd (random rng s)) = progressOk s"
  "progressOk (snd (getDifficultySettings v s)) = progressOk s"
  "progressOk (snd (requestAnimationFrame s)) = progressOk s"
  "progressOk (cancelAnimationFrame h s) = progressOk s"
  "progressOk (clearGameTimer s) = progressOk s"
  by (simp_all add: progressOk_def)

lemma progressOk_Game_gameOver: "progressOk s \<Longrightarrow> progressOk (Game_gameOver v s)"
  unfolding Game_gameOver_def Let_def forEachMole_def
  by (rule fold_invariant[where I = progressOk]) (simp_all add: progressOk_gameOver_hideMole)

lemma progressOk_gameTimerCallback: "progressOk s \<Longrightarrow> progressOk (gameTimerCallback v s)"
  by (simp add: gameTimerCallback_def Let_def progressOk_Game_gameOver)

lemma progressOk_Game_gameLoop:
  assumes "roundsLikeDouble rnd" and "progressOk s"
  shows "progressOk (state_of (Game_gameLoop v rnd s))"
proof -
  have "progressOk (state_of (forEachMoleThrowing (Mole_update v rnd) s))"
    unfolding forEachMoleThrowing_def
    by (rule forEachFrom_invariant[where I = progressOk])
       (simp_all add: progressOk_Mole_update assms)
  then show ?thesis
    by (cases "forEachMoleThrowing (Mole_update v rnd) s")
       (simp_all add: Game_gameLoop_def split_def Let_def)
qed

lemma progressOk_Game_start:
  assumes "roundsLikeDouble rnd" and "progressOk s"
  shows "progressOk (state_of (Game_start v rnd rng s))"
proof (cases "running s \<and> \<not> paused s")
  case True
  then show ?thesis using assms by (simp add: Game_start_def)
next
  case False
  have 1: "progressOk (forEachMole start_clearMole (clearGameTimer s))"
    unfolding forEachMole_def
    by (rule fold_invariant[where I = progressOk]) (simp_all add: progressOk_start_clearMole assms)
  have 2: "\<And>s'. progressOk s' \<Longrightarrow> progressOk (forEachMole (start_scheduleMole rnd rng) s')"
    unfolding forEachMole_def
    by (rule fold_invariant[where I = progressOk]) (simp_all add: progressOk_start_scheduleMole)
  show ?thesis
    using False 1 assms
    by (auto simp: Game_start_def Let_def split_def progressOk_Game_gameLoop 2)
qed

lemma progressOk_Game_pause:
  "roundsLikeDouble rnd \<Longrightarrow> progressOk s \<Longrightarrow> progressOk (state_of (Game_pause v rnd rng s))"
  by (simp add: Game_pause_def progressOk_Game_start)

lemma progressOk_Game_reset:
  assumes "progressOk s"
  shows "progressOk (Game_reset v s)"
proof -
  have "\<And>s'. progressOk s' \<Longrightarrow> progressOk (forEachMole reset_hideMole s')"
    unfolding forEachMole_def
    by (rule fold_invariant[where I = progressOk]) (simp_all add: progressOk_reset_hideMole)
  then show ?thesis
    using assms by (simp add: Game_reset_def Let_def split: option.splits)
qed

lemma progressOk_Game_handleKeyPress:
  "progressOk s \<Longrightarrow> progressOk (Game_handleKeyPress v key s)"
  by (simp add: Game_handleKeyPress_def progressOk_Mole_hit split: option.splits)

lemma progressOk_fireTimer:
  "progressOk s \<Longrightarrow> progressOk (state_of (fireTimer v rnd rng h s))"
  by (simp add: fireTimer_def progressOk_Mole_show progressOk_Mole_hide
      progressOk_bashFrame2Callback progressOk_bashEndCallback progressOk_gameTimerCallback
      split: option.splits callback.splits)

lemma progressOk_fireFrame:
  "roundsLikeDouble rnd \<Longrightarrow> progressOk s \<Longrightarrow> progressOk (state_of (fireFrame v rnd h s))"
  by (simp add: fireFrame_def progressOk_Game_gameLoop)

lemma progressOk_step:
  "roundsLikeDouble rnd \<Longrightarrow> progressOk s \<Longrightarrow> progressOk (step v rnd rng e s)"
  by (cases e)
     (simp_all add: progressOk_Game_start progressOk_Game_pause progressOk_Game_reset
       progressOk_Game_handleKeyPress progressOk_fireTimer progressOk_fireFrame)

lemma progressOk_run:
  "roundsLikeDouble rnd \<Longrightarrow> progressOk s \<Longrightarrow> progressOk (run v rnd rng es s)"
  unfolding run_def
  by (induction es arbitrary: s) (simp_all add: progressOk_step)

lemma progressOk_initialState: "progressOk (initialState rnd y0)"
  by (simp add: progressOk_def initialState_def newMole_def)

text \<open>
  Claim C4. Let the arithmetic round as doubles do. In every state reachable from the
  initial page by any sequence of events (start, pause, reset, key presses, timers
  firing in any order, animation frames), in either file, every mole's animation
  progress lies in \<open>[0, 1]\<close>. One \<^verbatim>\<open>update()\<close> of an animating mole adds the
  current tier's animation speed to the progress of a visible mole and caps the rounded
  sum at 1, or subtracts it for a hidden mole and caps the rounded difference at 0, all
  within the one call.
\<close>

theorem progress_stays_in_unit_interval:
  assumes "roundsLikeDouble rnd"
  shows
   "(\<forall>m\<in>set (moles (run v rnd rng es (initialState rnd y0))).
       0 \<le> animationProgress m \<and> animationProgress m \<le> 1)
    \<and> (\<forall>s i. i < length (moles s) \<and> isAnimating (moles s ! i) \<and> timeLeft s \<le> 60 \<longrightarrow>
         animationProgress (moles (state_of (Mole_update v rnd i s)) ! i)
           = (let d = difficultySettings v ! nat (min ((60 - timeLeft s) div 10) 5);
                  p = animationProgress (moles s ! i)
              in if isVisible (moles s ! i) then min 1 (rnd (p + rnd (animationSpeed d)))
                 else max 0 (rnd (p - rnd (animationSpeed d)))))"
proof -
  have "progressOk (run v rnd rng es (initialState rnd y0))"
    by (rule progressOk_run[OF assms progressOk_initialState])
  then show ?thesis
    using Mole_update_progress[where v = v and rnd = rnd]
    by (simp add: progressOk_def list_all_iff)
qed

theorem progress_stays_in_unit_interval_witness:
  "roundsLikeDouble roundToDouble
   \<and> list_all (\<lambda>m. 0 \<le> animationProgress m \<and> animationProgress m \<le> 1)
         (moles (run Part000 roundToDouble (\<lambda>_. 7 / 8)
                   [Start, TimerFires 2, FrameFires 1, FrameFires 2, KeyPress ''a'', FrameFires 3]
                   (initialState roundToDouble 400)))
   \<and> isAnimating (moles sampleBunnyUp ! 0) \<and> isVisible (moles sampleBunnyUp ! 0)
   \<and> timeLeft sampleBunnyUp = 60
   \<and> animationProgress (moles (state_of (Mole_update Part000 roundToDouble 0 sampleBunnyUp)) ! 0)
       = min 1 (roundToDouble (animationProgress (moles sampleBunnyUp ! 0)
                               + roundToDouble (25 / 1000)))"
proof -
  have rl: "roundsLikeDouble roundToDouble"
    by (rule roundToDouble_roundsLikeDouble)
  have a: "0 < length (moles sampleBunnyUp)" "isAnimating (moles sampleBunnyUp ! 0)"
    "timeLeft sampleBunnyUp = 60" "isVisible (moles sampleBunnyUp ! 0)"
    by code_simp+
  note t = progress_stays_in_unit_interval[OF rl, of Part000 "\<lambda>_. 7 / 8"
      "[Start, TimerFires 2, FrameFires 1, FrameFires 2, KeyPress ''a'', FrameFires 3]" 400]
  from t have "\<forall>m\<in>set (moles (run Part000 roundToDouble (\<lambda>_. 7 / 8)
                   [Start, TimerFires 2, FrameFires 1, FrameFires 2, KeyPress ''a'', FrameFires 3]
                   (initialState roundToDouble 400))).
       0 \<le> animationProgress m \<and> animationProgress m \<le> 1"
    by (rule conjunct1)
  then have p: "list_all (\<lambda>m. 0 \<le> animationProgress m \<and> animationProgress m \<le> 1)
         (moles (run Part000 roundToDouble (\<lambda>_. 7 / 8)
                   [Start, TimerFires 2, FrameFires 1, FrameFires 2, KeyPress ''a'', FrameFires 3]
                   (initialState roundToDouble 400)))"
    by (simp only: list_all_iff)
  have "animationProgress (moles (state_of (Mole_update Part000 roundToDouble 0 sampleBunnyUp)) ! 0)
       = (let d = difficultySettings Part000 ! nat (min ((60 - timeLeft sampleBunnyUp) div 10) 5);
              p = animationProgress (moles sampleBunnyUp ! 0)
          in if isVisible (moles sampleBunnyUp ! 0)
             then min 1 (roundToDouble (p + roundToDouble (animationSpeed d)))
             else max 0 (roundToDouble (p - roundToDouble (animationSpeed d))))"
    by (rule t[THEN conjunct2, rule_format, where s = sampleBunnyUp and i = 0]) (use a in simp)
  then have u: "animationProgress (moles (state_of (Mole_update Part000 roundToDouble 0 sampleBunnyUp)) ! 0)
       = min 1 (roundToDouble (animationProgress (moles sampleBunnyUp ! 0)
                               + roundToDouble (25 / 1000)))"
    using a by (simp add: difficultySettings_def mkDifficulty_def)
  show ?thesis
    using rl p a(2,4,3) u by (intro conjI)
qed

subsection \<open>The session clock\<close>

lemma clearVisibilityTimer_proj [simp]:
  "running (clearVisibilityTimer i s) = running s"
  "paused (clearVisibilityTimer i s) = paused s"
  "score (clearVisibilityTimer i s) = score s"
  "timeLeft (clearVisibilityTimer i s) = timeLeft s"
  "gameTimer (clearVisibilityTimer i s) = gameTimer s"
  "gameEnded (clearVisibilityTimer i s) = gameEnded s"
  "nextTimerId (clearVisibilityTimer i s) = nextTimerId s"
  "rngPos (clearVisibilityTimer i s) = rngPos s"
  "timers (clearVisibilityTimer i s)
     = filter (\<lambda>t. Some (timerId t) \<noteq> visibilityTimer (moles s ! i)) (timers s)"
  by (cases "visibilityTimer (moles s ! i)"; simp add: clearVisibilityTimer_def)+

lemma clearBashTimer_proj [simp]:
  "running (clearBashTimer i s) = running s"
  "paused (clearBashTimer i s) = paused s"
  "score (clearBashTimer i s) = score s"
  "timeLeft (clearBashTimer i s) = timeLeft s"
  "gameTimer (clearBashTimer i s) = gameTimer s"
  "gameEnded (clearBashTimer i s) = gameEnded s"
  "nextTimerId (clearBashTimer i s) = nextTimerId s"
  "rngPos (clearBashTimer i s) = rngPos s"
  "timers (clearBashTimer i s)
     = filter (\<lambda>t. Some (timerId t) \<noteq> bashTimer (moles s ! i)) (timers s)"
  by (cases "bashTimer (moles s ! i)"; simp add: clearBashTimer_def)+

lemma clearGameTimer_proj [simp]:
  "nextTimerId (clearGameTimer s) = nextTimerId s"
  "rngPos (clearGameTimer s) = rngPos s"
  by (cases "gameTimer s"; simp add: clearGameTimer_def)+

lemma clearTimer_length [simp]:
  "length (moles (clearVisibilityTimer i s)) = length (moles s)"
  "length (moles (clearBashTimer i s)) = length (moles s)"
  by (simp_all add: clearVisibilityTimer_moles clearBashTimer_moles)

text \<open>clockPending and clockGone through the primitives\<close>

lemma clockPending_lt: "clockPending h s \<Longrightarrow> h < nextTimerId s"
  by (simp add: clockPending_def)

lemma clockPending_fresh [simp]:
  "clockPending h s \<Longrightarrow> nextTimerId s \<noteq> h"
  "clockPending h s \<Longrightarrow> Suc (nextTimerId s) \<noteq> h"
  by (auto simp: clockPending_def)

lemma clockPending_nth [simp]:
  "clockPending h s \<Longrightarrow> i < length (moles s) \<Longrightarrow> visibilityTimer (moles s ! i) \<noteq> Some h"
  "clockPending h s \<Longrightarrow> i < length (moles s) \<Longrightarrow> bashTimer (moles s ! i) \<noteq> Some h"
  by (simp_all add: clockPending_def list_all_length)

lemma clockPending_fields [simp]:
  "clockPending h (s\<lparr>running := a\<rparr>) = clockPending h s"
  "clockPending h (s\<lparr>paused := a\<rparr>) = clockPending h s"
  "clockPending h (s\<lparr>score := b\<rparr>) = clockPending h s"
  "clockPending h (s\<lparr>timeLeft := b\<rparr>) = clockPending h s"
  "clockPending h (s\<lparr>gameTimer := c\<rparr>) = clockPending h s"
  "clockPending h (s\<lparr>difficultyLevel := b\<rparr>) = clockPending h s"
  "clockPending h (s\<lparr>gameEnded := a\<rparr>) = clockPending h s"
  "clockPending h (s\<lparr>animationId := c\<rparr>) = clockPending h s"
  by (simp_all add: clockPending_def timerTargetsExist_def)

lemma clockPending_prims [simp]:
  "clockPending h (snd (random rng s)) = clockPending h s"
  "clockPending h (snd (getDifficultySettings v s)) = clockPending h s"
  "clockPending h (snd (requestAnimationFrame s)) = clockPending h s"
  "clockPending h (cancelAnimationFrame f s) = clockPending h s"
  by (simp_all add: clockPending_def timerTargetsExist_def)

lemma clockPending_setTimeout [simp]:
  "clockPending h s \<Longrightarrow> cb \<noteq> GameTick \<Longrightarrow> targetExists (length (moles s)) cb \<Longrightarrow>
   clockPending h (snd (setTimeout cb d s))"
  by (auto simp: clockPending_def timerTargetsExist_def)

lemma clockPending_clearTimeout [simp]:
  "clockPending h s \<Longrightarrow> h' \<noteq> h \<Longrightarrow> clockPending h (clearTimeout h' s)"
  by (auto simp: clockPending_def timerTargetsExist_def list_all_iff list_ex_iff)

lemma clockPending_updMole [simp]:
  assumes "clockPending h s" and "i < length (moles s)"
    and "visibilityTimer (f (moles s ! i)) \<noteq> Some h" and "bashTimer (f (moles s ! i)) \<noteq> Some h"
  shows "clockPending h (updMole i f s)"
proof -
  have "set ((moles s)[i := f (moles s ! i)]) \<subseteq> insert (f (moles s ! i)) (set (moles s))"
    by (rule set_update_subset_insert)
  then show ?thesis
    using assms by (auto simp: clockPending_def timerTargetsExist_def list_all_iff)
qed

lemma clockPending_updMole_beyond:
  "clockPending h s \<Longrightarrow> \<not> i < length (moles s) \<Longrightarrow> clockPending h (updMole i f s)"
  by (simp add: clockPending_def timerTargetsExist_def list_update_beyond not_less)

lemma clockPending_clearVisibilityTimer [simp]:
  assumes "clockPending h s" and "i < length (moles s)"
  shows "clockPending h (clearVisibilityTimer i s)"
proof (cases "visibilityTimer (moles s ! i)")
  case None
  then show ?thesis using assms by (simp add: clearVisibilityTimer_def)
next
  case (Some a)
  with clockPending_nth(1)[OF assms] have "a \<noteq> h" by auto
  then show ?thesis
    using assms Some clockPending_nth(2)[OF assms] by (simp add: clearVisibilityTimer_def)
qed

lemma clockPending_clearBashTimer [simp]:
  assumes "clockPending h s" and "i < length (moles s)"
  shows "clockPending h (clearBashTimer i s)"
proof (cases "bashTimer (moles s ! i)")
  case None
  then show ?thesis using assms by (simp add: clearBashTimer_def)
next
  case (Some a)
  with clockPending_nth(2)[OF assms] have "a \<noteq> h" by auto
  then show ?thesis
    using assms Some clockPending_nth(1)[OF assms] by (simp add: clearBashTimer_def)
qed

lemma clockGone_fields [simp]:
  "clockGone h (s\<lparr>running := a\<rparr>) = clockGone h s"
  "clockGone h (s\<lparr>paused := a\<rparr>) = clockGone h s"
  "clockGone h (s\<lparr>score := b\<rparr>) = clockGone h s"
  "clockGone h (s\<lparr>timeLeft := b\<rparr>) = clockGone h s"
  "clockGone h (s\<lparr>gameTimer := c\<rparr>) = clockGone h s"
  "clockGone h (s\<lparr>difficultyLevel := b\<rparr>) = clockGone h s"
  "clockGone h (s\<lparr>gameEnded := a\<rparr>) = clockGone h s"
  "clockGone h (s\<lparr>animationId := c\<rparr>) = clockGone h s"
  by (simp_all add: clockGone_def timerTargetsExist_def)

lemma clockGone_prims [simp]:
  "clockGone h (snd (random rng s)) = clockGone h s"
  "clockGone h (snd (getDifficultySettings v s)) = clockGone h s"
  "clockGone h (snd (requestAnimationFrame s)) = clockGone h s"
  "clockGone h (cancelAnimationFrame f s) = clockGone h s"
  by (simp_all add: clockGone_def timerTargetsExist_def)

lemma clockGone_setTimeout [simp]:
  "clockGone h s \<Longrightarrow> cb \<noteq> GameTick \<Longrightarrow> targetExists (length (moles s)) cb \<Longrightarrow>
   clockGone h (snd (setTimeout cb d s))"
  by (auto simp: clockGone_def timerTargetsExist_def)

lemma clockGone_clearTimeout [simp]:
  "clockGone h s \<Longrightarrow> clockGone h (clearTimeout h' s)"
  by (auto simp: clockGone_def timerTargetsExist_def list_all_iff)

lemma clockGone_updMole [simp]:
  "clockGone h s \<Longrightarrow> clockGone h (updMole i f s)"
  by (simp add: clockGone_def timerTargetsExist_def)

lemma clockGone_clearVisibilityTimer [simp]:
  "clockGone h s \<Longrightarrow> clockGone h (clearVisibilityTimer i s)"
  by (cases "visibilityTimer (moles s ! i)") (auto simp: clearVisibilityTimer_def)

lemma clockGone_clearBashTimer [simp]:
  "clockGone h s \<Longrightarrow> clockGone h (clearBashTimer i s)"
  by (cases "bashTimer (moles s ! i)") (auto simp: clearBashTimer_def)

text \<open>The operations on one mole\<close>

lemma clockPending_Mole_show:
  "clockPending h s \<Longrightarrow> i < length (moles s) \<Longrightarrow>
   clockPending h (state_of (Mole_show v rnd rng i s))"
  by (simp add: Mole_show_def Let_def split_def split: option.splits)

lemma clockPending_Mole_hide:
  "clockPending h s \<Longrightarrow> i < length (moles s) \<Longrightarrow>
   clockPending h (state_of (Mole_hide v rnd rng i s))"
  by (simp add: Mole_hide_def Let_def split_def split: option.splits)

lemma clockPending_Mole_hit:
  "clockPending h s \<Longrightarrow> i < length (moles s) \<Longrightarrow> clockPending h (snd (Mole_hit i s))"
  by (simp add: Mole_hit_def Mole_startBashAnimation_def Let_def split_def)

lemma clockPending_bashFrame2Callback:
  "clockPending h s \<Longrightarrow> i < length (moles s) \<Longrightarrow> clockPending h (bashFrame2Callback i s)"
  by (simp add: bashFrame2Callback_def Let_def split_def)

lemma clockPending_bashEndCallback:
  "clockPending h s \<Longrightarrow> i < length (moles s) \<Longrightarrow> clockPending h (bashEndCallback i s)"
  by (simp add: bashEndCallback_def)

lemma clockPending_Mole_update:
  "clockPending h s \<Longrightarrow> clockPending h (state_of (Mole_update v rnd i s))"
  by (cases "i < length (moles s)")
     (simp_all add: Mole_update_def Let_def split_def clockPending_updMole_beyond
       split: option.splits)

lemma clockGone_Mole_show:
  "clockGone h s \<Longrightarrow> i < length (moles s) \<Longrightarrow> clockGone h (state_of (Mole_show v rnd rng i s))"
  by (simp add: Mole_show_def Let_def split_def split: option.splits)

lemma clockGone_Mole_hide:
  "clockGone h s \<Longrightarrow> i < length (moles s) \<Longrightarrow> clockGone h (state_of (Mole_hide v rnd rng i s))"
  by (simp add: Mole_hide_def Let_def split_def split: option.splits)

lemma clockGone_Mole_hit:
  "clockGone h s \<Longrightarrow> i < length (moles s) \<Longrightarrow> clockGone h (snd (Mole_hit i s))"
  by (simp add: Mole_hit_def Mole_startBashAnimation_def Let_def split_def)

lemma clockGone_bashFrame2Callback:
  "clockGone h s \<Longrightarrow> i < length (moles s) \<Longrightarrow> clockGone h (bashFrame2Callback i s)"
  by (simp add: bashFrame2Callback_def Let_def split_def)

lemma clockGone_bashEndCallback:
  "clockGone h s \<Longrightarrow> clockGone h (bashEndCallback i s)"
  by (simp add: bashEndCallback_def)

lemma clockGone_Mole_update:
  "clockGone h s \<Longrightarrow> clockGone h (state_of (Mole_update v rnd i s))"
  by (simp add: Mole_update_def Let_def split_def split: option.splits)

lemma Mole_show_ctl [simp]:
  "running (state_of (Mole_show v rnd rng i s)) = running s"
  "paused (state_of (Mole_show v rnd rng i s)) = paused s"
  "timeLeft (state_of (Mole_show v rnd rng i s)) = timeLeft s"
  "gameTimer (state_of (Mole_show v rnd rng i s)) = gameTimer s"
  "gameEnded (state_of (Mole_show v rnd rng i s)) = gameEnded s"
  by (simp_all add: Mole_show_def Let_def split_def split: option.splits)

lemma Mole_hide_ctl [simp]:
  "running (state_of (Mole_hide v rnd rng i s)) = running s"
  "paused (state_of (Mole_hide v rnd rng i s)) = paused s"
  "timeLeft (state_of (Mole_hide v rnd rng i s)) = timeLeft s"
  "gameTimer (state_of (Mole_hide v rnd rng i s)) = gameTimer s"
  "gameEnded (state_of (Mole_hide v rnd rng i s)) = gameEnded s"
  by (simp_all add: Mole_hide_def Let_def split_def split: option.splits)

lemma Mole_hit_ctl [simp]:
  "running (snd (Mole_hit i s)) = running s"
  "paused (snd (Mole_hit i s)) = paused s"
  "timeLeft (snd (Mole_hit i s)) = timeLeft s"
  "gameTimer (snd (Mole_hit i s)) = gameTimer s"
  "gameEnded (snd (Mole_hit i s)) = gameEnded s"
  by (simp_all add: Mole_hit_def Mole_startBashAnimation_def Let_def split_def split: option.splits)

lemma bashFrame2Callback_ctl [simp]:
  "running (bashFrame2Callback i s) = running s"
  "paused (bashFrame2Callback i s) = paused s"
  "timeLeft (bashFrame2Callback i s) = timeLeft s"
  "gameTimer (bashFrame2Callback i s) = gameTimer s"
  "gameEnded (bashFrame2Callback i s) = gameEnded s"
  by (simp_all add: bashFrame2Callback_def Let_def split_def split: option.splits)

lemma bashEndCallback_ctl [simp]:
  "running (bashEndCallback i s) = running s"
  "paused (bashEndCallback i s) = paused s"
  "timeLeft (bashEndCallback i s) = timeLeft s"
  "gameTimer (bashEndCallback i s) = gameTimer s"
  "gameEnded (bashEndCallback i s) = gameEnded s"
  by (simp_all add: bashEndCallback_def Let_def split_def split: option.splits)

lemma Mole_update_ctl [simp]:
  "running (state_of (Mole_update v rnd i s)) = running s"
  "paused (state_of (Mole_update v rnd i s)) = paused s"
  "timeLeft (state_of (Mole_update v rnd i s)) = timeLeft s"
  "gameTimer (state_of (Mole_update v rnd i s)) = gameTimer s"
  "gameEnded (state_of (Mole_update v rnd i s)) = gameEnded s"
  by (simp_all add: Mole_update_def Let_def split_def split: option.splits)

lemma gameOver_hideMole_ctl [simp]:
  "running (gameOver_hideMole v i s) = running s"
  "paused (gameOver_hideMole v i s) = paused s"
  "timeLeft (gameOver_hideMole v i s) = timeLeft s"
  "gameTimer (gameOver_hideMole v i s) = gameTimer s"
  "gameEnded (gameOver_hideMole v i s) = gameEnded s"
  by (simp_all add: gameOver_hideMole_def Let_def split_def split: option.splits)

lemma start_clearMole_ctl [simp]:
  "running (start_clearMole i s) = running s"
  "paused (start_clearMole i s) = paused s"
  "timeLeft (start_clearMole i s) = timeLeft s"
  "gameTimer (start_clearMole i s) = gameTimer s"
  "gameEnded (start_clearMole i s) = gameEnded s"
  by (simp_all add: start_clearMole_def Let_def split_def split: option.splits)

lemma start_scheduleMole_ctl [simp]:
  "running (start_scheduleMole rnd rng i s) = running s"
  "paused (start_scheduleMole rnd rng i s) = paused s"
  "timeLeft (start_scheduleMole rnd rng i s) = timeLeft s"
  "gameTimer (start_scheduleMole rnd rng i s) = gameTimer s"
  "gameEnded (start_scheduleMole rnd rng i s) = gameEnded s"
  by (simp_all add: start_scheduleMole_def Let_def split_def split: option.splits)

lemma fold_invariant_in:
  "(\<forall>i\<in>set js. \<forall>s. I s \<longrightarrow> I (f i s)) \<Longrightarrow> I s \<Longrightarrow> I (fold f js s)"
  by (induction js arbitrary: s) simp_all

lemma forEachFrom_keeps:
  assumes "\<And>i s. P (state_of (f i s)) = P s"
  shows "P (state_of (forEachFrom f js s)) = P s"
proof (induction js arbitrary: s)
  case Nil
  show ?case by simp
next
  case (Cons i js)
  show ?case
  proof (cases "f i s")
    case (Returned s')
    then have "P s' = P s" using assms[of i s] by simp
    then show ?thesis using Cons.IH[of s'] Returned by simp
  next
    case (Threw e s')
    then have "P s' = P s" using assms[of i s] by simp
    then show ?thesis using Threw by simp
  qed
qed

lemma find_SomeD:
  "find P xs = Some x \<Longrightarrow> x \<in> set xs \<and> P x"
  by (auto simp: find_Some_iff)

text \<open>The game loop\<close>

lemma Game_gameLoop_ctl [simp]:
  "running (state_of (Game_gameLoop v rnd s)) = running s"
  "paused (state_of (Game_gameLoop v rnd s)) = paused s"
  "timeLeft (state_of (Game_gameLoop v rnd s)) = timeLeft s"
  "gameTimer (state_of (Game_gameLoop v rnd s)) = gameTimer s"
  "gameEnded (state_of (Game_gameLoop v rnd s)) = gameEnded s"
proof -
  let ?u = "forEachMoleThrowing (Mole_update v rnd) s"
  have u: "running (state_of ?u) = running s" "paused (state_of ?u) = paused s"
    "timeLeft (state_of ?u) = timeLeft s" "gameTimer (state_of ?u) = gameTimer s"
    "gameEnded (state_of ?u) = gameEnded s"
    unfolding forEachMoleThrowing_def
    using forEachFrom_keeps[where P = running and f = "Mole_update v rnd"]
      forEachFrom_keeps[where P = paused and f = "Mole_update v rnd"]
      forEachFrom_keeps[where P = timeLeft and f = "Mole_update v rnd"]
      forEachFrom_keeps[where P = gameTimer and f = "Mole_update v rnd"]
      forEachFrom_keeps[where P = gameEnded and f = "Mole_update v rnd"]
    by simp_all
  show "running (state_of (Game_gameLoop v rnd s)) = running s"
    "paused (state_of (Game_gameLoop v rnd s)) = paused s"
    "timeLeft (state_of (Game_gameLoop v rnd s)) = timeLeft s"
    "gameTimer (state_of (Game_gameLoop v rnd s)) = gameTimer s"
    "gameEnded (state_of (Game_gameLoop v rnd s)) = gameEnded s"
    using u
    by (cases ?u; simp add: Game_gameLoop_def split_def Let_def)+
qed

lemma clockPending_Game_gameLoop:
  assumes "clockPending h s"
  shows "clockPending h (state_of (Game_gameLoop v rnd s))"
proof -
  have "clockPending h (state_of (forEachMoleThrowing (Mole_update v rnd) s))"
    unfolding forEachMoleThrowing_def
    by (rule forEachFrom_invariant[where I = "clockPending h"])
       (simp_all add: clockPending_Mole_update assms)
  then show ?thesis
    by (cases "forEachMoleThrowing (Mole_update v rnd) s")
       (simp_all add: Game_gameLoop_def split_def Let_def)
qed

lemma clockGone_Game_gameLoop:
  assumes "clockGone h s"
  shows "clockGone h (state_of (Game_gameLoop v rnd s))"
proof -
  have "clockGone h (state_of (forEachMoleThrowing (Mole_update v rnd) s))"
    unfolding forEachMoleThrowing_def
    by (rule forEachFrom_invariant[where I = "clockGone h"])
       (simp_all add: clockGone_Mole_update assms)
  then show ?thesis
    by (cases "forEachMoleThrowing (Mole_update v rnd) s")
       (simp_all add: Game_gameLoop_def split_def Let_def)
qed

text \<open>Events other than the clock\<close>

lemma clockPending_targets:
  "clockPending h s \<Longrightarrow> t \<in> set (timers s) \<Longrightarrow>
   targetExists (length (moles s)) (timerCallback t)
   \<and> ((timerId t = h) = (timerCallback t = GameTick))"
  by (simp add: clockPending_def timerTargetsExist_def list_all_iff)

lemma clockGone_targets:
  "clockGone h s \<Longrightarrow> t \<in> set (timers s) \<Longrightarrow>
   targetExists (length (moles s)) (timerCallback t) \<and> timerCallback t \<noteq> GameTick"
  by (simp add: clockGone_def timerTargetsExist_def list_all_iff)

lemma fireTimer_other:
  assumes "clockPending h s" and "h' \<noteq> h"
  shows "clockPending h (state_of (fireTimer v rnd rng h' s))
       \<and> running (state_of (fireTimer v rnd rng h' s)) = running s
       \<and> paused (state_of (fireTimer v rnd rng h' s)) = paused s
       \<and> timeLeft (state_of (fireTimer v rnd rng h' s)) = timeLeft s
       \<and> gameTimer (state_of (fireTimer v rnd rng h' s)) = gameTimer s
       \<and> gameEnded (state_of (fireTimer v rnd rng h' s)) = gameEnded s"
proof (cases "find (\<lambda>t. timerId t = h') (timers s)")
  case None
  then show ?thesis using assms by (simp add: fireTimer_def)
next
  case (Some t)
  then have t: "t \<in> set (timers s)" "timerId t = h'"
    using find_SomeD[of "\<lambda>t. timerId t = h'" "timers s" t] by simp_all
  have c: "targetExists (length (moles s)) (timerCallback t)" "timerCallback t \<noteq> GameTick"
    using clockPending_targets[OF assms(1) t(1)] t(2) assms(2) by simp_all
  have p: "clockPending h (clearTimeout h' s)"
    using assms by simp
  show ?thesis
    using Some c p
    by (cases "timerCallback t")
       (simp_all add: fireTimer_def clockPending_Mole_show clockPending_Mole_hide
         clockPending_bashFrame2Callback clockPending_bashEndCallback)
qed

lemma fireTimer_gone:
  assumes "clockGone h s"
  shows "clockGone h (state_of (fireTimer v rnd rng h' s))
       \<and> running (state_of (fireTimer v rnd rng h' s)) = running s
       \<and> paused (state_of (fireTimer v rnd rng h' s)) = paused s
       \<and> timeLeft (state_of (fireTimer v rnd rng h' s)) = timeLeft s
       \<and> gameTimer (state_of (fireTimer v rnd rng h' s)) = gameTimer s
       \<and> gameEnded (state_of (fireTimer v rnd rng h' s)) = gameEnded s"
proof (cases "find (\<lambda>t. timerId t = h') (timers s)")
  case None
  then show ?thesis using assms by (simp add: fireTimer_def)
next
  case (Some t)
  then have t: "t \<in> set (timers s)" "timerId t = h'"
    using find_SomeD[of "\<lambda>t. timerId t = h'" "timers s" t] by simp_all
  have c: "targetExists (length (moles s)) (timerCallback t)" "timerCallback t \<noteq> GameTick"
    using clockGone_targets[OF assms(1) t(1)] by simp_all
  have p: "clockGone h (clearTimeout h' s)"
    using assms by simp
  show ?thesis
    using Some c p
    by (cases "timerCallback t")
       (simp_all add: fireTimer_def clockGone_Mole_show clockGone_Mole_hide
         clockGone_bashFrame2Callback clockGone_bashEndCallback)
qed

lemma handleKeyPress_clock:
  "clockPending h s \<Longrightarrow> clockPending h (Game_handleKeyPress v key s)"
  "clockGone h s \<Longrightarrow> clockGone h (Game_handleKeyPress v key s)"
  "running (Game_handleKeyPress v key s) = running s"
  "paused (Game_handleKeyPress v key s) = paused s"
  "timeLeft (Game_handleKeyPress v key s) = timeLeft s"
  "gameTimer (Game_handleKeyPress v key s) = gameTimer s"
  "gameEnded (Game_handleKeyPress v key s) = gameEnded s"
  by (simp_all add: Game_handleKeyPress_def clockPending_Mole_hit clockGone_Mole_hit
      split: option.splits)

lemma fireFrame_clock:
  "clockPending h s \<Longrightarrow> clockPending h (state_of (fireFrame v rnd f s))"
  "clockGone h s \<Longrightarrow> clockGone h (state_of (fireFrame v rnd f s))"
  "running (state_of (fireFrame v rnd f s)) = running s"
  "paused (state_of (fireFrame v rnd f s)) = paused s"
  "timeLeft (state_of (fireFrame v rnd f s)) = timeLeft s"
  "gameTimer (state_of (fireFrame v rnd f s)) = gameTimer s"
  "gameEnded (state_of (fireFrame v rnd f s)) = gameEnded s"
  by (simp_all add: fireFrame_def clockPending_Game_gameLoop clockGone_Game_gameLoop)

lemma fireTimer_clock:
  assumes "clockPending h s"
  shows "fireTimer v rnd rng h s = Returned (gameTimerCallback v s)"
proof -
  from assms obtain t0 where "t0 \<in> set (timers s)" "timerId t0 = h"
    by (auto simp: clockPending_def list_ex_iff)
  then have "find (\<lambda>t. timerId t = h) (timers s) \<noteq> None"
    by (auto simp: find_None_iff)
  then obtain t where f: "find (\<lambda>t. timerId t = h) (timers s) = Some t"
    by auto
  then have "t \<in> set (timers s)" "timerId t = h"
    using find_SomeD[of "\<lambda>t. timerId t = h" "timers s" t] by simp_all
  then have "timerCallback t = GameTick"
    using clockPending_targets[OF assms] by simp
  then show ?thesis
    using f by (simp add: fireTimer_def)
qed

lemma clockGone_gameOver_hideMole:
  "clockGone h s \<Longrightarrow> clockGone h (gameOver_hideMole v i s)"
  by (simp add: gameOver_hideMole_def Let_def)

lemma clockGone_clearGameTimer:
  assumes "clockPending h s" and "gameTimer s = Some h"
  shows "clockGone h (clearGameTimer s)"
  using assms
  by (auto simp: clearGameTimer_def clockGone_def clockPending_def timerTargetsExist_def
      list_all_iff)

lemma forEach_gameOver_ctl:
  "running (forEachMole (gameOver_hideMole v) s) = running s"
  "gameEnded (forEachMole (gameOver_hideMole v) s) = gameEnded s"
  "timeLeft (forEachMole (gameOver_hideMole v) s) = timeLeft s"
  unfolding forEachMole_def
  using fold_keeps[where P = running and f = "gameOver_hideMole v"]
    fold_keeps[where P = gameEnded and f = "gameOver_hideMole v"]
    fold_keeps[where P = timeLeft and f = "gameOver_hideMole v"]
  by simp_all

lemma clearGameTimer_ctl [simp]:
  "running (clearGameTimer s) = running s"
  "paused (clearGameTimer s) = paused s"
  "timeLeft (clearGameTimer s) = timeLeft s"
  "gameEnded (clearGameTimer s) = gameEnded s"
  by (simp_all add: clearGameTimer_fields)

lemma Game_gameOver_clock:
  assumes "clockPending h s" and "gameTimer s = Some h"
  shows "clockGone h (Game_gameOver Part000 s)"
    and "\<not> running (Game_gameOver Part000 s)"
    and "gameEnded (Game_gameOver Part000 s)"
    and "timeLeft (Game_gameOver Part000 s) = timeLeft s"
proof -
  let ?s3 = "clearGameTimer (s\<lparr>running := False, gameEnded := True\<rparr>)"
  have e: "Game_gameOver Part000 s = forEachMole (gameOver_hideMole Part000) ?s3"
    by (simp add: Game_gameOver_def Let_def)
  have "clockGone h ?s3"
    using assms by (intro clockGone_clearGameTimer) simp_all
  then show "clockGone h (Game_gameOver Part000 s)"
    unfolding e forEachMole_def
    by (intro fold_invariant[where I = "clockGone h"] clockGone_gameOver_hideMole)
  show "\<not> running (Game_gameOver Part000 s)" "gameEnded (Game_gameOver Part000 s)"
    "timeLeft (Game_gameOver Part000 s) = timeLeft s"
    unfolding e by (simp_all add: forEach_gameOver_ctl)
qed

lemma sessionPhase_tick:
  assumes "sessionPhase h n s"
  shows "sessionPhase h (Suc n) (step Part000 rnd rng (TimerFires h) s)"
proof (cases "n < 60")
  case False
  then have g: "clockGone h s" "\<not> running s" "gameEnded s" "timeLeft s = 0"
    using assms by (simp_all add: sessionPhase_def)
  show ?thesis
    using False g fireTimer_gone[OF g(1), where v = Part000 and rnd = rnd and rng = rng and h' = h]
    by (simp add: sessionPhase_def)
next
  case True
  then have p: "clockPending h s" "running s" "\<not> paused s" "\<not> gameEnded s"
    "gameTimer s = Some h" "timeLeft s = 60 - int n"
    using assms by (simp_all add: sessionPhase_def)
  have st: "state_of (fireTimer Part000 rnd rng h s) = gameTimerCallback Part000 s"
    by (simp add: fireTimer_clock[OF p(1)])
  show ?thesis
  proof (cases "Suc n < 60")
    case True
    then show ?thesis
      using p by (simp add: st gameTimerCallback_def Let_def sessionPhase_def)
  next
    case False
    with \<open>n < 60\<close> have n: "n = 59" by simp
    let ?s1 = "s\<lparr>timeLeft := timeLeft s - 1\<rparr>"
    have "gameTimerCallback Part000 s = Game_gameOver Part000 ?s1"
      using p n by (simp add: gameTimerCallback_def Let_def)
    moreover have "clockPending h ?s1" "gameTimer ?s1 = Some h"
      using p by simp_all
    ultimately show ?thesis
      using Game_gameOver_clock[of h ?s1] p n
      by (simp add: st sessionPhase_def)
  qed
qed

lemma sessionPhase_other:
  assumes "sessionPhase h n s" and "\<not> isControl e" and "e \<noteq> TimerFires h"
  shows "sessionPhase h n (step Part000 rnd rng e s)"
proof (cases e)
  case (KeyPress key)
  then show ?thesis
    using assms(1) by (simp add: sessionPhase_def handleKeyPress_clock)
next
  case (TimerFires h')
  with assms(3) have "h' \<noteq> h" by simp
  show ?thesis
  proof (cases "n < 60")
    case True
    then have "clockPending h s" using assms(1) by (simp add: sessionPhase_def)
    from fireTimer_other[OF this \<open>h' \<noteq> h\<close>, where v = Part000 and rnd = rnd and rng = rng] show ?thesis
      using assms(1) True TimerFires by (simp add: sessionPhase_def)
  next
    case False
    then have "clockGone h s" using assms(1) by (simp add: sessionPhase_def)
    from fireTimer_gone[OF this, where v = Part000 and rnd = rnd and rng = rng and h' = h'] show ?thesis
      using assms(1) False TimerFires by (simp add: sessionPhase_def)
  qed
next
  case (FrameFires f)
  then show ?thesis
    using assms(1) by (simp add: sessionPhase_def fireFrame_clock)
qed (use assms(2) in simp_all)

lemma run_Cons: "run v rnd rng (e # es) s = run v rnd rng es (step v rnd rng e s)"
  by (simp add: run_def)

lemma sessionPhase_run:
  assumes "\<forall>e\<in>set es. \<not> isControl e" and "sessionPhase h n s"
  shows "sessionPhase h (n + count_list es (TimerFires h)) (run Part000 rnd rng es s)"
  using assms
proof (induction es arbitrary: n s)
  case Nil
  then show ?case by (simp add: run_def)
next
  case (Cons e es)
  show ?case
  proof (cases "e = TimerFires h")
    case True
    then have "sessionPhase h (Suc n) (step Part000 rnd rng e s)"
      using sessionPhase_tick[OF Cons.prems(2)] by simp
    from Cons.IH[OF _ this] Cons.prems(1) show ?thesis
      using True by (simp add: run_Cons)
  next
    case False
    then have "sessionPhase h n (step Part000 rnd rng e s)"
      using sessionPhase_other[OF Cons.prems(2)] Cons.prems(1) by simp
    from Cons.IH[OF _ this] Cons.prems(1) show ?thesis
      using False by (simp add: run_Cons)
  qed
qed

lemma start_clearMole_queue:
  "set (timers (start_clearMole i s)) \<subseteq> set (timers s)"
  "nextTimerId (start_clearMole i s) = nextTimerId s"
  by (auto simp: start_clearMole_def Let_def)

lemma start_clearMole_handles:
  "i < length (moles s) \<Longrightarrow>
   visibilityTimer (moles (start_clearMole i s) ! i) = None
   \<and> bashTimer (moles (start_clearMole i s) ! i) = None"
  by (simp add: start_clearMole_def Let_def clearVisibilityTimer_moles clearBashTimer_moles)

lemma clockPending_start_scheduleMole:
  "clockPending h s \<Longrightarrow> i < length (moles s) \<Longrightarrow> clockPending h (start_scheduleMole rnd rng i s)"
  by (simp add: start_scheduleMole_def Let_def split_def)

lemma forEach_schedule_ctl:
  "running (forEachMole (start_scheduleMole rnd rng) s) = running s"
  "paused (forEachMole (start_scheduleMole rnd rng) s) = paused s"
  "timeLeft (forEachMole (start_scheduleMole rnd rng) s) = timeLeft s"
  "gameTimer (forEachMole (start_scheduleMole rnd rng) s) = gameTimer s"
  "gameEnded (forEachMole (start_scheduleMole rnd rng) s) = gameEnded s"
  unfolding forEachMole_def
  using fold_keeps[where P = running and f = "start_scheduleMole rnd rng"]
    fold_keeps[where P = paused and f = "start_scheduleMole rnd rng"]
    fold_keeps[where P = timeLeft and f = "start_scheduleMole rnd rng"]
    fold_keeps[where P = gameTimer and f = "start_scheduleMole rnd rng"]
    fold_keeps[where P = gameEnded and f = "start_scheduleMole rnd rng"]
  by simp_all

lemma start_arms_clock:
  assumes "timersWellFormed s" and "\<not> (running s \<and> \<not> paused s)"
  shows "sessionPhase (nextTimerId s) 0 (state_of (Game_start Part000 rnd rng s))"
proof -
  let ?h = "nextTimerId s"
  let ?s1 = "clearGameTimer s"
  let ?s2 = "forEachMole start_clearMole ?s1"
  let ?s3 = "?s2\<lparr>running := True, paused := False, score := 0, timeLeft := 60,
                    difficultyLevel := 0\<rparr>"
  let ?s4 = "(if Part000 = Part000
              then snd (getDifficultySettings Part000 (?s3\<lparr>gameEnded := False\<rparr>))
              else ?s3)"
  let ?s6 = "(snd (setInterval GameTick 1000 ?s4))
               \<lparr>gameTimer := Some (fst (setInterval GameTick 1000 ?s4))\<rparr>"
  let ?s7 = "forEachMole (start_scheduleMole rnd rng) ?s6"
  have e: "Game_start Part000 rnd rng s
      = (if running s \<and> \<not> paused s then Returned s else Game_gameLoop Part000 rnd ?s7)"
    unfolding Game_start_def Let_def split_def ..
  define R where "R = (\<lambda>s'. timerTargetsExist s' \<and> nextTimerId s' = ?h
      \<and> list_all (\<lambda>t. timerId t < ?h \<and> timerCallback t \<noteq> GameTick) (timers s')
      \<and> length (moles s') = length (moles s))"
  have R1: "R ?s1"
    using assms(1)
    by (cases "gameTimer s")
       (auto simp: R_def timersWellFormed_def timerTargetsExist_def clearGameTimer_def
         clearInterval_def list_all_iff)
  have Rstep: "\<forall>i\<in>set [0..<length (moles ?s1)]. \<forall>s'. R s' \<longrightarrow> R (start_clearMole i s')"
  proof (intro ballI allI impI)
    fix i s' assume r: "R s'"
    show "R (start_clearMole i s')"
      using r start_clearMole_queue(1)[of i s']
      by (auto simp: R_def timerTargetsExist_def list_all_iff start_clearMole_length
          start_clearMole_queue(2))
  qed
  have R2: "R ?s2"
    unfolding forEachMole_def by (rule fold_invariant_in[OF Rstep R1])
  have len2: "length (moles ?s2) = length (moles s)"
    using R2 by (simp add: R_def)
  have none2: "\<forall>j<length (moles ?s2).
      visibilityTimer (moles ?s2 ! j) = None \<and> bashTimer (moles ?s2 ! j) = None"
  proof (intro allI impI)
    fix j assume "j < length (moles ?s2)"
    then have j: "j < length (moles ?s1)" using len2 by simp
    show "visibilityTimer (moles ?s2 ! j) = None \<and> bashTimer (moles ?s2 ! j) = None"
      unfolding forEachMole_def
    proof (rule fold_establishes[where f = start_clearMole])
      show "\<And>i s. length (moles (start_clearMole i s)) = length (moles s)"
        by (rule start_clearMole_length)
      show "\<And>i j s. j \<noteq> i \<Longrightarrow> moles (start_clearMole i s) ! j = moles s ! j"
        by (rule start_clearMole_other)
      show "\<And>i s. i < length (moles s) \<Longrightarrow>
          visibilityTimer (moles (start_clearMole i s) ! i) = None
          \<and> bashTimer (moles (start_clearMole i s) ! i) = None"
        by (rule start_clearMole_handles)
      show "j \<in> set [0..<length (moles ?s1)]" using j by simp
      show "j < length (moles ?s1)" by (rule j)
    qed
  qed
  have m6: "list_all (\<lambda>m. visibilityTimer m \<noteq> Some ?h \<and> bashTimer m \<noteq> Some ?h) (moles ?s6)"
    using none2 len2 by (simp add: list_all_length)
  have P6: "clockPending ?h ?s6"
    using R2 m6
    by (auto simp: clockPending_def R_def timerTargetsExist_def list_all_iff list_ex_iff)
  have len6: "length (moles ?s6) = length (moles s)"
    using len2 by simp
  have ctl6: "running ?s6" "\<not> paused ?s6" "\<not> gameEnded ?s6" "timeLeft ?s6 = 60"
    "gameTimer ?s6 = Some ?h"
    using R2 by (simp_all add: R_def)
  define I where "I = (\<lambda>s'. clockPending ?h s' \<and> length (moles s') = length (moles s))"
  have I6: "I ?s6"
    using P6 len6 by (simp add: I_def)
  have Pstep: "\<forall>i\<in>set [0..<length (moles ?s6)]. \<forall>s'. I s' \<longrightarrow> I (start_scheduleMole rnd rng i s')"
    using len6 by (auto simp: I_def clockPending_start_scheduleMole start_scheduleMole_length)
  have "I (fold (start_scheduleMole rnd rng) [0..<length (moles ?s6)] ?s6)"
    by (rule fold_invariant_in[where I = I, OF Pstep I6])
  then have P7: "clockPending ?h ?s7 \<and> length (moles ?s7) = length (moles s)"
    unfolding forEachMole_def I_def .
  have ctl7: "running ?s7" "\<not> paused ?s7" "\<not> gameEnded ?s7" "timeLeft ?s7 = 60"
    "gameTimer ?s7 = Some ?h"
    using R2 by (simp_all add: forEach_schedule_ctl R_def)
  have st: "state_of (Game_start Part000 rnd rng s) = state_of (Game_gameLoop Part000 rnd ?s7)"
    unfolding e using assms(2) by (rule if_not_P[THEN arg_cong])
  have g: "clockPending ?h (state_of (Game_gameLoop Part000 rnd ?s7))"
    using P7 by (intro clockPending_Game_gameLoop) (rule conjunct1)
  have c: "running (state_of (Game_gameLoop Part000 rnd ?s7))"
    "\<not> paused (state_of (Game_gameLoop Part000 rnd ?s7))"
    "\<not> gameEnded (state_of (Game_gameLoop Part000 rnd ?s7))"
    "timeLeft (state_of (Game_gameLoop Part000 rnd ?s7)) = 60"
    "gameTimer (state_of (Game_gameLoop Part000 rnd ?s7)) = Some ?h"
    unfolding Game_gameLoop_ctl by (rule ctl7)+
  show ?thesis
    unfolding st sessionPhase_def using g c by simp
qed

text \<open>
  Claim C6, for \<^verbatim>\<open>part_000\<close>. Let \<^verbatim>\<open>start()\<close> be called in a state where it
  starts a session (the timer queue being well formed, as it is on the initial page),
  and let \<open>h\<close> be the handle of the session clock it sets. Let then any events
  follow other than the commands start, pause and reset (so the session is never
  paused): key presses, animation frames and timers firing in any order, among them
  the session clock exactly 60 times. Then the run ends with \<^verbatim>\<open>gameEnded\<close> true,
  \<^verbatim>\<open>running\<close> false and no time left. During the run the time left is always 60
  minus the number of ticks so far, so each tick takes off exactly one second and the
  time never goes below 0; and before the sixtieth tick the game is running, not paused
  and not ended.
\<close>

theorem sixty_ticks_end_the_session:
  assumes "timersWellFormed s" and "\<not> (running s \<and> \<not> paused s)"
    and "\<forall>e\<in>set es. \<not> isControl e"
    and "count_list es (TimerFires (nextTimerId s)) = 60"
  shows "gameTimer (state_of (Game_start Part000 rnd rng s)) = Some (nextTimerId s)
     \<and> timeLeft (state_of (Game_start Part000 rnd rng s)) = 60
     \<and> gameEnded (run Part000 rnd rng es (state_of (Game_start Part000 rnd rng s)))
     \<and> \<not> running (run Part000 rnd rng es (state_of (Game_start Part000 rnd rng s)))
     \<and> timeLeft (run Part000 rnd rng es (state_of (Game_start Part000 rnd rng s))) = 0
     \<and> (\<forall>k. timeLeft (run Part000 rnd rng (take k es) (state_of (Game_start Part000 rnd rng s)))
              = 60 - int (count_list (take k es) (TimerFires (nextTimerId s))))
     \<and> (\<forall>k. count_list (take k es) (TimerFires (nextTimerId s)) < 60 \<longrightarrow>
              running (run Part000 rnd rng (take k es) (state_of (Game_start Part000 rnd rng s)))
              \<and> \<not> paused (run Part000 rnd rng (take k es) (state_of (Game_start Part000 rnd rng s)))
              \<and> \<not> gameEnded (run Part000 rnd rng (take k es) (state_of (Game_start Part000 rnd rng s))))"
proof -
  let ?h = "nextTimerId s"
  let ?s0 = "state_of (Game_start Part000 rnd rng s)"
  let ?n = "\<lambda>k. count_list (take k es) (TimerFires ?h)"
  have p0: "sessionPhase ?h 0 ?s0"
    by (rule start_arms_clock[OF assms(1,2)])
  have ph: "\<And>es'. \<forall>e\<in>set es'. \<not> isControl e \<Longrightarrow>
      sessionPhase ?h (count_list es' (TimerFires ?h)) (run Part000 rnd rng es' ?s0)"
    using sessionPhase_run[OF _ p0] by simp
  have fin: "sessionPhase ?h 60 (run Part000 rnd rng es ?s0)"
    using ph[OF assms(3)] assms(4) by simp
  have pre: "\<And>k. sessionPhase ?h (?n k) (run Part000 rnd rng (take k es) ?s0)"
  proof -
    fix k
    have "\<forall>e\<in>set (take k es). \<not> isControl e"
      using assms(3) by (auto dest: in_set_takeD)
    then show "sessionPhase ?h (?n k) (run Part000 rnd rng (take k es) ?s0)"
      by (rule ph)
  qed
  have le: "\<And>k. ?n k \<le> 60"
  proof -
    fix k
    have "count_list (take k es @ drop k es) (TimerFires ?h) = 60"
      using assms(4) by simp
    then show "?n k \<le> 60"
      unfolding count_list_append by simp
  qed
  have tl: "\<And>k. timeLeft (run Part000 rnd rng (take k es) ?s0) = 60 - int (?n k)"
  proof -
    fix k
    show "timeLeft (run Part000 rnd rng (take k es) ?s0) = 60 - int (?n k)"
    proof (cases "?n k < 60")
      case True
      then show ?thesis using pre[of k] by (simp add: sessionPhase_def)
    next
      case False
      then have "?n k = 60" using le[of k] by simp
      then show ?thesis using pre[of k] by (simp add: sessionPhase_def)
    qed
  qed
  have live: "\<And>k. ?n k < 60 \<Longrightarrow>
      running (run Part000 rnd rng (take k es) ?s0)
      \<and> \<not> paused (run Part000 rnd rng (take k es) ?s0)
      \<and> \<not> gameEnded (run Part000 rnd rng (take k es) ?s0)"
  proof -
    fix k assume "?n k < 60"
    then show "running (run Part000 rnd rng (take k es) ?s0)
      \<and> \<not> paused (run Part000 rnd rng (take k es) ?s0)
      \<and> \<not> gameEnded (run Part000 rnd rng (take k es) ?s0)"
      using pre[of k] by (simp add: sessionPhase_def)
  qed
  have a: "gameTimer ?s0 = Some ?h \<and> timeLeft ?s0 = 60"
    using p0 by (simp add: sessionPhase_def)
  have b: "gameEnded (run Part000 rnd rng es ?s0) \<and> \<not> running (run Part000 rnd rng es ?s0)
      \<and> timeLeft (run Part000 rnd rng es ?s0) = 0"
    using fin by (simp add: sessionPhase_def)
  show ?thesis
    using a b tl live by blast
qed

theorem sixty_ticks_end_the_session_witness:
  "timersWellFormed (initialState roundToDouble 400)
   \<and> \<not> running (initialState roundToDouble 400)
   \<and> nextTimerId (initialState roundToDouble 400) = 1
   \<and> count_list ([TimerFires 2, FrameFires 1, KeyPress ''a''] @ replicate 60 (TimerFires 1))
         (TimerFires 1) = 60
   \<and> gameEnded (run Part000 roundToDouble (\<lambda>_. 9 / 10)
         ([TimerFires 2, FrameFires 1, KeyPress ''a''] @ replicate 60 (TimerFires 1))
         (state_of (Game_start Part000 roundToDouble (\<lambda>_. 9 / 10) (initialState roundToDouble 400))))
   \<and> \<not> running (run Part000 roundToDouble (\<lambda>_. 9 / 10)
         ([TimerFires 2, FrameFires 1, KeyPress ''a''] @ replicate 60 (TimerFires 1))
         (state_of (Game_start Part000 roundToDouble (\<lambda>_. 9 / 10) (initialState roundToDouble 400))))
   \<and> timeLeft (run Part000 roundToDouble (\<lambda>_. 9 / 10)
         ([TimerFires 2, FrameFires 1, KeyPress ''a''] @ replicate 60 (TimerFires 1))
         (state_of (Game_start Part000 roundToDouble (\<lambda>_. 9 / 10) (initialState roundToDouble 400)))) = 0
   \<and> timeLeft (run Part000 roundToDouble (\<lambda>_. 9 / 10)
         (take 10 ([TimerFires 2, FrameFires 1, KeyPress ''a''] @ replicate 60 (TimerFires 1)))
         (state_of (Game_start Part000 roundToDouble (\<lambda>_. 9 / 10) (initialState roundToDouble 400)))) = 53"
proof -
  let ?s = "initialState roundToDouble 400"
  let ?es = "[TimerFires 2, FrameFires 1, KeyPress ''a''] @ replicate 60 (TimerFires 1)"
  have h: "nextTimerId ?s = 1"
    by (simp add: initialState_def)
  have a: "timersWellFormed ?s"
    by (simp add: timersWellFormed_def timerTargetsExist_def initialState_def)
  have b: "\<not> (running ?s \<and> \<not> paused ?s)"
    by (simp add: initialState_def)
  have c: "\<forall>e\<in>set ?es. \<not> isControl e"
    by auto
  have d: "count_list ?es (TimerFires 1) = 60"
    by code_simp
  have d': "count_list ?es (TimerFires (nextTimerId ?s)) = 60"
    unfolding h by (rule d)
  have e: "count_list (take 10 ?es) (TimerFires 1) = 7"
    by code_simp
  note t = sixty_ticks_end_the_session[OF a b c d', where rnd = roundToDouble and rng = "\<lambda>_. 9 / 10"]
  from t have f: "gameEnded (run Part000 roundToDouble (\<lambda>_. 9 / 10) ?es
         (state_of (Game_start Part000 roundToDouble (\<lambda>_. 9 / 10) ?s)))"
    "\<not> running (run Part000 roundToDouble (\<lambda>_. 9 / 10) ?es
         (state_of (Game_start Part000 roundToDouble (\<lambda>_. 9 / 10) ?s)))"
    "timeLeft (run Part000 roundToDouble (\<lambda>_. 9 / 10) ?es
         (state_of (Game_start Part000 roundToDouble (\<lambda>_. 9 / 10) ?s))) = 0"
    by blast+
  from t have "timeLeft (run Part000 roundToDouble (\<lambda>_. 9 / 10) (take 10 ?es)
         (state_of (Game_start Part000 roundToDouble (\<lambda>_. 9 / 10) ?s)))
       = 60 - int (count_list (take 10 ?es) (TimerFires (nextTimerId ?s)))"
    by blast
  then have g: "timeLeft (run Part000 roundToDouble (\<lambda>_. 9 / 10) (take 10 ?es)
         (state_of (Game_start Part000 roundToDouble (\<lambda>_. 9 / 10) ?s))) = 53"
    unfolding h e by simp
  have r: "\<not> running ?s"
    by (simp add: initialState_def)
  show ?thesis
    using a r h d f g by (intro conjI)
qed

end
